(* ===== verification/FF_Prelude.thy ===== *)
theory FF_Prelude
  imports
    Main
    "HOL-Library.Multiset"
    "HOL-Library.List_Lexorder"
    "HOL-Library.Char_ord"
    "HOL-Library.Product_Lexorder"
begin

text \<open>
  Shared vocabulary of the development: the types that name the model's values
  (timestamps, paths, the tuples the finder collects), the Python errors the program
  can raise, and executable models of the few Python built-ins the program uses on
  strings (\<open>str.lower\<close>, \<open>str.startswith\<close>, \<open>str.rfind\<close>, \<open>str.join\<close>,
  \<open>str(int)\<close>, slicing \<open>s[:-k]\<close>), with the lemmas on them that the component
  theories share.
\<close>

named_theorems py_simps \<open>evaluation rules of the Python built-in models\<close>

section \<open>Types\<close>

text \<open>
  Python's float timestamps are modelled exactly, as integers counting microseconds
  since the epoch (the resolution of \<open>datetime\<close>); a path is a Python \<open>str\<close>.
\<close>

type_synonym timestamp = int
type_synonym path = string

abbreviation usec_per_sec :: int where
  "usec_per_sec \<equiv> 1000000"

text \<open>The exceptions the program can raise (and does not catch).\<close>

datatype py_error =
    AttributeError string
  | FileNotFoundError string
  | IsADirectoryError string
  | NotADirectoryError string
  | ValueError string
  | TypeError string
  | OverflowError string
  | PermissionError string

section \<open>String built-ins\<close>

definition py_lower_char :: "char \<Rightarrow> char" where
  "py_lower_char c =
     (if CHR ''A'' \<le> c \<and> c \<le> CHR ''Z'' then char_of (of_char c + (32::nat)) else c)"

definition py_lower :: "string \<Rightarrow> string" where
  "py_lower s = map py_lower_char s"

definition py_startswith :: "string \<Rightarrow> string \<Rightarrow> bool" where
  "py_startswith s p \<longleftrightarrow> take (length p) s = p"

text \<open>\<open>s.rfind(c)\<close>: the index of the last occurrence of \<open>c\<close>, or \<open>-1\<close>.\<close>

fun py_rfind_aux :: "char \<Rightarrow> string \<Rightarrow> int \<Rightarrow> int \<Rightarrow> int" where
  "py_rfind_aux c [] i r = r"
| "py_rfind_aux c (x # xs) i r = py_rfind_aux c xs (i + 1) (if x = c then i else r)"

definition py_rfind :: "string \<Rightarrow> char \<Rightarrow> int" where
  "py_rfind s c = py_rfind_aux c s 0 (-1)"

text \<open>\<open>sep.join(xs)\<close>.\<close>

fun py_join :: "string \<Rightarrow> string list \<Rightarrow> string" where
  "py_join sep [] = []"
| "py_join sep [x] = x"
| "py_join sep (x # y # xs) = x @ sep @ py_join sep (y # xs)"

text \<open>\<open>s[:-k]\<close> for \<open>k > 0\<close>: everything but the last \<open>k\<close> characters.\<close>

definition py_drop_last :: "nat \<Rightarrow> string \<Rightarrow> string" where
  "py_drop_last k s = take (length s - k) s"

text \<open>\<open>str(n)\<close> for a non-negative integer, and zero padding as in \<open>'%02d'\<close>.\<close>

definition digit_char :: "nat \<Rightarrow> char" where
  "digit_char d = char_of (48 + d)"

fun nat_str :: "nat \<Rightarrow> string" where
  "nat_str n = (if n < 10 then [digit_char n] else nat_str (n div 10) @ [digit_char (n mod 10)])"

declare nat_str.simps [simp del]

definition pad_left :: "char \<Rightarrow> nat \<Rightarrow> string \<Rightarrow> string" where
  "pad_left c w s = replicate (w - length s) c @ s"

definition zpad :: "nat \<Rightarrow> nat \<Rightarrow> string" where
  "zpad w n = pad_left CHR ''0'' w (nat_str n)"

text \<open>The \<open>w\<close> decimal digits of \<open>n mod 10 ^ w\<close>, most significant first.\<close>

fun digs :: "nat \<Rightarrow> nat \<Rightarrow> string" where
  "digs 0 n = []"
| "digs (Suc k) n = digs k (n div 10) @ [digit_char (n mod 10)]"

declare py_lower_def [py_simps] py_startswith_def [py_simps] py_rfind_def [py_simps]
  py_drop_last_def [py_simps] zpad_def [py_simps] pad_left_def [py_simps]
  digit_char_def [py_simps] py_lower_char_def [py_simps] less_eq_char_def [py_simps]

section \<open>Shared lemmas\<close>

lemma length_py_lower [simp]: "length (py_lower s) = length s"
  by (simp add: py_lower_def)

lemma py_lower_append [simp]: "py_lower (xs @ ys) = py_lower xs @ py_lower ys"
  by (simp add: py_lower_def)

lemma py_lower_char_idem [simp]: "py_lower_char (py_lower_char c) = py_lower_char c"
  by (auto simp: py_lower_char_def less_eq_char_def)

lemma py_lower_idem [simp]: "py_lower (py_lower s) = py_lower s"
  by (simp add: py_lower_def comp_def)

lemma of_char_py_lower_char:
  "(of_char (py_lower_char c) :: nat) =
     (if 65 \<le> (of_char c :: nat) \<and> (of_char c :: nat) \<le> 90 then of_char c + 32 else of_char c)"
  by (simp add: py_lower_char_def less_eq_char_def)

lemma py_lower_char_dot [simp]: "py_lower_char c = CHR ''.'' \<longleftrightarrow> c = CHR ''.''"
proof -
  have "py_lower_char c = CHR ''.'' \<longleftrightarrow> (of_char (py_lower_char c) :: nat) = of_char CHR ''.''"
    by (simp only: of_char_eq_iff)
  also have "\<dots> \<longleftrightarrow> (of_char c :: nat) = of_char CHR ''.''"
    by (simp add: of_char_py_lower_char)
  also have "\<dots> \<longleftrightarrow> c = CHR ''.''"
    by (simp only: of_char_eq_iff)
  finally show ?thesis .
qed

lemma py_lower_char_dot_fix [simp]: "py_lower_char CHR ''.'' = CHR ''.''"
  by simp

lemma py_startswith_Cons [simp]:
  "py_startswith s [c] \<longleftrightarrow> (s \<noteq> [] \<and> hd s = c)"
  by (cases s) (simp_all add: py_startswith_def)

lemma py_join_Cons_Cons [simp]:
  "py_join sep (x # y # xs) = x @ sep @ py_join sep (y # xs)"
  by simp

lemma py_join_snoc:
  "xs \<noteq> [] \<Longrightarrow> py_join sep (xs @ [x]) = py_join sep xs @ sep @ x"
proof (induction sep xs rule: py_join.induct)
  case (1 sep)
  then show ?case by simp
next
  case (2 sep y)
  then show ?case by simp
next
  case (3 sep y z zs)
  then show ?case by simp
qed

lemma py_rfind_aux_bounds:
  "r < i \<Longrightarrow> -1 \<le> r \<Longrightarrow> -1 \<le> py_rfind_aux c xs i r \<and> py_rfind_aux c xs i r < i + int (length xs)"
  by (induction c xs i r rule: py_rfind_aux.induct) auto

lemma py_rfind_bounds: "-1 \<le> py_rfind s c \<and> py_rfind s c < int (length s)"
  using py_rfind_aux_bounds [of "-1" 0 c s] by (simp add: py_rfind_def)

lemma py_rfind_aux_notin: "c \<notin> set xs \<Longrightarrow> py_rfind_aux c xs i r = r"
  by (induction xs arbitrary: i r) auto

lemma py_rfind_aux_append:
  "py_rfind_aux c (xs @ ys) i r = py_rfind_aux c ys (i + int (length xs)) (py_rfind_aux c xs i r)"
  by (induction xs arbitrary: i r) (simp_all add: algebra_simps)

text \<open>\<open>rfind\<close> finds the last occurrence, and answers \<open>-1\<close> when there is none.\<close>

lemma py_rfind_last: "c \<notin> set ys \<Longrightarrow> py_rfind (xs @ c # ys) c = int (length xs)"
  by (simp add: py_rfind_def py_rfind_aux_append py_rfind_aux_notin)

lemma py_rfind_notin: "c \<notin> set s \<Longrightarrow> py_rfind s c = -1"
  by (simp add: py_rfind_def py_rfind_aux_notin)

lemma dot_in_py_lower [simp]: "CHR ''.'' \<in> set (py_lower s) \<longleftrightarrow> CHR ''.'' \<in> set s"
proof -
  have "CHR ''.'' \<in> py_lower_char ` set s \<longleftrightarrow> (\<exists>x \<in> set s. py_lower_char x = CHR ''.'')"
    unfolding image_iff by (metis)
  then show ?thesis by (simp add: py_lower_def)
qed

lemma py_drop_last_append [simp]:
  "length ys = k \<Longrightarrow> py_drop_last k (xs @ ys) = xs"
  by (simp add: py_drop_last_def)

lemma length_nat_str_pos: "0 < length (nat_str n)"
  by (subst nat_str.simps) simp

section \<open>Decimal digits\<close>

lemma of_char_digit_char: "k < 10 \<Longrightarrow> (of_char (digit_char k) :: nat) = 48 + k"
  by (simp add: digit_char_def of_char_of)

lemma char_eq_of_char: "c = d \<longleftrightarrow> (of_char c :: nat) = of_char d"
  by (simp add: of_char_eq_iff)

lemma digit_char_0: "digit_char 0 = CHR ''0''"
  by (simp add: char_eq_of_char of_char_digit_char)

lemma nat_str_small: "n < 10 \<Longrightarrow> nat_str n = [digit_char n]"
  by (subst nat_str.simps) simp

lemma nat_str_big: "\<not> n < 10 \<Longrightarrow> nat_str n = nat_str (n div 10) @ [digit_char (n mod 10)]"
  by (subst nat_str.simps) simp

lemma digs_zero: "digs k 0 = replicate k CHR ''0''"
  by (induction k) (simp_all add: digit_char_0 replicate_append_same)

lemma length_nat_str_le: "n < 10 ^ k \<Longrightarrow> 0 < k \<Longrightarrow> length (nat_str n) \<le> k"
proof (induction k arbitrary: n)
  case 0
  then show ?case by simp
next
  case (Suc k)
  show ?case
  proof (cases "n < 10")
    case True
    then show ?thesis by (simp add: nat_str_small)
  next
    case False
    then have "n div 10 < 10 ^ k" "0 < k"
      using Suc.prems by (auto simp: less_mult_imp_div_less mult.commute intro: Nat.gr0I)
    then show ?thesis
      using Suc.IH [of "n div 10"] False by (simp add: nat_str_big)
  qed
qed

text \<open>\<open>'%0wd' % n\<close> is the \<open>w\<close>-digit representation of \<open>n\<close> when \<open>n\<close> fits.\<close>

lemma zpad_digs: "n < 10 ^ w \<Longrightarrow> 0 < w \<Longrightarrow> zpad w n = digs w n"
proof (induction w arbitrary: n)
  case 0
  then show ?case by simp
next
  case (Suc k)
  show ?case
  proof (cases "n < 10")
    case True
    then show ?thesis by (simp add: zpad_def pad_left_def nat_str_small digs_zero)
  next
    case False
    then have lt: "n div 10 < 10 ^ k" and k: "0 < k"
      using Suc.prems by (auto simp: less_mult_imp_div_less mult.commute intro: Nat.gr0I)
    have "length (nat_str (n div 10)) \<le> k"
      using length_nat_str_le [OF lt k] .
    then have "zpad (Suc k) n = zpad k (n div 10) @ [digit_char (n mod 10)]"
      using False by (simp add: zpad_def pad_left_def nat_str_big Suc_diff_le)
    then show ?thesis
      using Suc.IH [OF lt k] by simp
  qed
qed


end
