(* ===== verification/Dates.thy ===== *)
theory Dates
  imports FF_Prelude
begin

text \<open>
  The parts of Python's \<open>datetime\<close> and \<open>time\<close> modules the finder calls, modelled
  after CPython's pure-Python implementation (\<open>Lib/datetime.py\<close>, \<open>Lib/_strptime.py\<close>):
  proleptic Gregorian ordinals (\<open>_ymd2ord\<close>, \<open>_ord2ymd\<close>), naive datetimes as a
  record, \<open>datetime.timestamp()\<close>, \<open>str(datetime)\<close>, \<open>time.ctime\<close>, the
  \<open>ValueError\<close>/\<open>OverflowError\<close> of \<open>now()\<close>, of date subtraction and of
  \<open>timestamp()\<close> when a year leaves 1..9999, and
  \<open>datetime.strptime\<close> for the two formats the finder uses. Local time is taken to be
  UTC: the program only ever compares timestamps produced by the same conversion.
\<close>

section \<open>Calendar\<close>

definition is_leap :: "int \<Rightarrow> bool" where
  "is_leap y \<longleftrightarrow> y mod 4 = 0 \<and> (y mod 100 \<noteq> 0 \<or> y mod 400 = 0)"

definition days_in_month_tab :: "nat \<Rightarrow> nat" where
  "days_in_month_tab m = [0, 31, 28, 31, 30, 31, 30, 31, 31, 30, 31, 30, 31] ! m"

definition days_before_month_tab :: "nat \<Rightarrow> nat" where
  "days_before_month_tab m = [0, 0, 31, 59, 90, 120, 151, 181, 212, 243, 273, 304, 334] ! m"

definition days_in_month :: "int \<Rightarrow> nat \<Rightarrow> nat" where
  "days_in_month y m = (if m = 2 \<and> is_leap y then 29 else days_in_month_tab m)"

definition days_before_year :: "int \<Rightarrow> int" where
  "days_before_year year = (let y = year - 1 in y * 365 + y div 4 - y div 100 + y div 400)"

definition days_before_month :: "int \<Rightarrow> nat \<Rightarrow> nat" where
  "days_before_month y m = days_before_month_tab m + (if 2 < m \<and> is_leap y then 1 else 0)"

definition ymd2ord :: "int \<Rightarrow> nat \<Rightarrow> nat \<Rightarrow> int" where
  "ymd2ord y m d = days_before_year y + int (days_before_month y m) + int d"

definition ord2ymd :: "int \<Rightarrow> int \<times> nat \<times> nat" where
  "ord2ymd n0 =
     (let n = n0 - 1;
          n400 = n div 146097; n = n mod 146097;
          n100 = n div 36524; n = n mod 36524;
          n4 = n div 1461; n = n mod 1461;
          n1 = n div 365; n = n mod 365;
          year = n400 * 400 + 1 + n100 * 100 + n4 * 4 + n1
      in if n1 = 4 \<or> n100 = 4 then (year - 1, 12, 31)
         else
           (let leap = (n1 = 3 \<and> (n4 \<noteq> 24 \<or> n100 = 3));
                month = nat ((n + 50) div 32);
                preceding = int (days_before_month_tab month) + (if 2 < month \<and> leap then 1 else 0)
            in if n < preceding
               then (let month' = month - 1;
                         preceding' = preceding - int (days_in_month_tab month')
                                       - (if month' = 2 \<and> leap then 1 else 0)
                     in (year, month', nat (n - preceding' + 1)))
               else (year, month, nat (n - preceding + 1))))"

section \<open>Naive datetimes\<close>

record datetime =
  dt_year :: int
  dt_month :: nat
  dt_day :: nat
  dt_hour :: nat
  dt_minute :: nat
  dt_second :: nat
  dt_usec :: nat

definition valid_datetime :: "datetime \<Rightarrow> bool" where
  "valid_datetime d \<longleftrightarrow>
     1 \<le> dt_year d \<and> dt_year d \<le> 9999 \<and> 1 \<le> dt_month d \<and> dt_month d \<le> 12 \<and>
     1 \<le> dt_day d \<and> dt_day d \<le> days_in_month (dt_year d) (dt_month d) \<and>
     dt_hour d < 24 \<and> dt_minute d < 60 \<and> dt_second d < 60 \<and> dt_usec d < 1000000"

text \<open>\<open>datetime(1970, 1, 1).toordinal()\<close>.\<close>

abbreviation epoch_ord :: int where
  "epoch_ord \<equiv> 719163"

definition dt_timestamp :: "datetime \<Rightarrow> timestamp" where
  "dt_timestamp d =
     ((ymd2ord (dt_year d) (dt_month d) (dt_day d) - epoch_ord) * 86400
       + int (dt_hour d) * 3600 + int (dt_minute d) * 60 + int (dt_second d)) * usec_per_sec
     + int (dt_usec d)"

definition dt_of_timestamp :: "timestamp \<Rightarrow> datetime" where
  "dt_of_timestamp t =
     (let secs = t div usec_per_sec; days = secs div 86400; sod = nat (secs mod 86400);
          (y, m, d) = ord2ymd (days + epoch_ord)
      in \<lparr>dt_year = y, dt_month = m, dt_day = d, dt_hour = sod div 3600,
          dt_minute = sod mod 3600 div 60, dt_second = sod mod 60,
          dt_usec = nat (t mod usec_per_sec)\<rparr>)"

text \<open>\<open>dt.replace(hour=h, minute=mi, second=s)\<close> and the same with \<open>microsecond\<close>.\<close>

definition dt_replace_hms :: "nat \<Rightarrow> nat \<Rightarrow> nat \<Rightarrow> datetime \<Rightarrow> datetime" where
  "dt_replace_hms h mi s d = d\<lparr>dt_hour := h, dt_minute := mi, dt_second := s\<rparr>"

definition dt_replace_hmsu :: "nat \<Rightarrow> nat \<Rightarrow> nat \<Rightarrow> nat \<Rightarrow> datetime \<Rightarrow> datetime" where
  "dt_replace_hmsu h mi s u d = (dt_replace_hms h mi s d)\<lparr>dt_usec := u\<rparr>"

text \<open>\<open>dt - timedelta(days=k)\<close>: the date moves by \<open>k\<close> ordinals, the time is kept.\<close>

definition dt_minus_days :: "datetime \<Rightarrow> nat \<Rightarrow> datetime" where
  "dt_minus_days d k =
     (let (y, m, dd) = ord2ymd (ymd2ord (dt_year d) (dt_month d) (dt_day d) - int k)
      in d\<lparr>dt_year := y, dt_month := m, dt_day := dd\<rparr>)"

text \<open>\<open>dt.toordinal()\<close>.\<close>

abbreviation dt_ord :: "datetime \<Rightarrow> int" where
  "dt_ord d \<equiv> ymd2ord (dt_year d) (dt_month d) (dt_day d)"

text \<open>
  \<open>datetime.now()\<close>, i.e. \<open>fromtimestamp(time.time())\<close>: the clock's local date,
  and \<open>ValueError\<close> from the constructor when its year is outside 1..9999.
\<close>

definition dt_now :: "timestamp \<Rightarrow> py_error + datetime" where
  "dt_now t =
     (let d = dt_of_timestamp t
      in if 1 \<le> dt_year d \<and> dt_year d \<le> 9999 then Inr d
         else Inl (ValueError ''year must be in 1..9999''))"

text \<open>
  \<open>dt - timedelta(days=k)\<close> through \<open>datetime.__add__\<close>: the result's ordinal must
  satisfy \<open>0 < delta.days <= _MAXORDINAL\<close>, otherwise \<open>OverflowError\<close>.
\<close>

definition dt_sub_days :: "datetime \<Rightarrow> nat \<Rightarrow> py_error + datetime" where
  "dt_sub_days d k =
     (let n = dt_ord d - int k
      in if 0 < n \<and> n \<le> 3652059 then Inr (dt_minus_days d k)
         else Inl (OverflowError ''result out of range''))"

text \<open>
  \<open>dt.timestamp()\<close> of a naive datetime, through \<open>_mktime\<close>: with local time UTC,
  \<open>local(t)\<close> and then \<open>local(t - 24 * 3600)\<close> (the search for an earlier fold)
  convert back to datetimes, so the day before the date must also have a year in
  1..9999: the date 0001-01-01 raises \<open>ValueError\<close>.
\<close>

definition dt_timestamp_py :: "datetime \<Rightarrow> py_error + timestamp" where
  "dt_timestamp_py d =
     (if 1 < dt_ord d \<and> dt_ord d \<le> 3652059 then Inr (dt_timestamp d)
      else Inl (ValueError ''year 0 is out of range''))"

text \<open>The clocks whose \<open>now()\<close> has a year in 1..9999, and the datetimes whose
  \<open>timestamp()\<close> returns.\<close>

definition now_ok :: "timestamp \<Rightarrow> bool" where
  "now_ok t \<longleftrightarrow> -62135596800000000 \<le> t \<and> t < 253402300800000000"

definition timestamp_ok :: "datetime \<Rightarrow> bool" where
  "timestamp_ok d \<longleftrightarrow> 1 < dt_ord d \<and> dt_ord d \<le> 3652059"

text \<open>\<open>str(dt)\<close>, i.e. \<open>dt.isoformat(' ')\<close>: microseconds only when non-zero.\<close>

definition dt_str :: "datetime \<Rightarrow> string" where
  "dt_str d =
     zpad 4 (nat (dt_year d)) @ ''-'' @ zpad 2 (dt_month d) @ ''-'' @ zpad 2 (dt_day d) @ '' '' @
     zpad 2 (dt_hour d) @ '':'' @ zpad 2 (dt_minute d) @ '':'' @ zpad 2 (dt_second d) @
     (if dt_usec d = 0 then [] else ''.'' @ zpad 6 (dt_usec d))"

section \<open>time.ctime\<close>

definition wday_name :: "nat \<Rightarrow> string" where
  "wday_name w = [''Sun'', ''Mon'', ''Tue'', ''Wed'', ''Thu'', ''Fri'', ''Sat''] ! w"

definition mon_name :: "nat \<Rightarrow> string" where
  "mon_name m = [''???'', ''Jan'', ''Feb'', ''Mar'', ''Apr'', ''May'', ''Jun'', ''Jul'', ''Aug'',
                 ''Sep'', ''Oct'', ''Nov'', ''Dec''] ! m"

text \<open>
  \<open>time.ctime(t)\<close> formats \<open>localtime(floor(t))\<close> with C's
  \<open>"%s %s%3d %.2d:%.2d:%.2d %d"\<close>: weekday, month, the day padded to width 3.
\<close>

definition ctime_str :: "timestamp \<Rightarrow> string" where
  "ctime_str t =
     (let d = dt_of_timestamp t;
          w = nat ((ymd2ord (dt_year d) (dt_month d) (dt_day d)) mod 7)
      in wday_name w @ '' '' @ mon_name (dt_month d) @ pad_left CHR '' '' 3 (nat_str (dt_day d)) @
         '' '' @ zpad 2 (dt_hour d) @ '':'' @ zpad 2 (dt_minute d) @ '':'' @ zpad 2 (dt_second d) @
         '' '' @ nat_str (nat (dt_year d)))"


section \<open>datetime.strptime\<close>

text \<open>
  \<open>_strptime\<close> turns the format into a regular expression (each directive into a
  fixed alternation of digit patterns, each run of whitespace into \<open>\s+\<close>, every other
  character into itself), takes the first match that \<open>re.match\<close> finds, raises
  \<open>ValueError\<close> when there is none or when input is left over, and then builds the
  datetime, which raises \<open>ValueError\<close> for a day, year or second out of range.
  Backtracking is modelled by lists of successes: the first element of
  \<open>match_items\<close> is the match the regex engine returns. Only the directives the finder
  uses (\<open>%Y %m %d %H %M %S\<close>) are modelled.
\<close>

datatype cclass = CLit char | CRange char char

datatype fmt_item = FDir char | FLit char | FSpace

definition is_space :: "char \<Rightarrow> bool" where
  "is_space c \<longleftrightarrow> (of_char c :: nat) \<in> {9, 10, 11, 12, 13, 28, 29, 30, 31, 32}"

fun cclass_ok :: "cclass \<Rightarrow> char \<Rightarrow> bool" where
  "cclass_ok (CLit a) c \<longleftrightarrow> c = a"
| "cclass_ok (CRange a b) c \<longleftrightarrow> a \<le> c \<and> c \<le> b"

fun match_seq :: "cclass list \<Rightarrow> string \<Rightarrow> (string \<times> string) option" where
  "match_seq [] s = Some ([], s)"
| "match_seq (k # ks) [] = None"
| "match_seq (k # ks) (c # s) =
     (if cclass_ok k c then map_option (\<lambda>(xs, r). (c # xs, r)) (match_seq ks s) else None)"

abbreviation dig :: cclass where
  "dig \<equiv> CRange CHR ''0'' CHR ''9''"

fun directive_alts :: "char \<Rightarrow> cclass list list" where
  "directive_alts c =
     (if c = CHR ''Y'' then [[dig, dig, dig, dig]]
      else if c = CHR ''m'' then
        [[CLit CHR ''1'', CRange CHR ''0'' CHR ''2''], [CLit CHR ''0'', CRange CHR ''1'' CHR ''9''],
         [CRange CHR ''1'' CHR ''9'']]
      else if c = CHR ''d'' then
        [[CLit CHR ''3'', CRange CHR ''0'' CHR ''1''], [CRange CHR ''1'' CHR ''2'', dig],
         [CLit CHR ''0'', CRange CHR ''1'' CHR ''9''], [CRange CHR ''1'' CHR ''9''],
         [CLit CHR '' '', CRange CHR ''1'' CHR ''9'']]
      else if c = CHR ''H'' then
        [[CLit CHR ''2'', CRange CHR ''0'' CHR ''3''], [CRange CHR ''0'' CHR ''1'', dig], [dig]]
      else if c = CHR ''M'' then [[CRange CHR ''0'' CHR ''5'', dig], [dig]]
      else if c = CHR ''S'' then
        [[CLit CHR ''6'', CRange CHR ''0'' CHR ''1''], [CRange CHR ''0'' CHR ''5'', dig], [dig]]
      else [])"

fun compile_chars :: "string \<Rightarrow> py_error + fmt_item list" where
  "compile_chars [] = Inr []"
| "compile_chars [c] =
     (if c = CHR ''%'' then Inl (ValueError ''stray % in format'')
      else if is_space c then Inr [FSpace] else Inr [FLit c])"
| "compile_chars (c # d # rest) =
     (if c = CHR ''%'' then
        (if d = CHR ''%'' then map_sum id (Cons (FLit CHR ''%'')) (compile_chars rest)
         else if directive_alts d = [] then Inl (ValueError ''bad directive in format'')
         else map_sum id (Cons (FDir d)) (compile_chars rest))
      else if is_space c then map_sum id (Cons FSpace) (compile_chars (d # rest))
      else map_sum id (Cons (FLit c)) (compile_chars (d # rest)))"

text \<open>A run of whitespace in the format becomes one \<open>\s+\<close>.\<close>

fun collapse_spaces :: "fmt_item list \<Rightarrow> fmt_item list" where
  "collapse_spaces (FSpace # FSpace # xs) = collapse_spaces (FSpace # xs)"
| "collapse_spaces (x # xs) = x # collapse_spaces xs"
| "collapse_spaces [] = []"

definition compile_fmt :: "string \<Rightarrow> py_error + fmt_item list" where
  "compile_fmt f = map_sum id collapse_spaces (compile_chars f)"

definition digits_val :: "string \<Rightarrow> nat" where
  "digits_val cs = foldl (\<lambda>acc c. 10 * acc + (of_char c - 48)) 0 (filter (\<lambda>c. c \<noteq> CHR '' '') cs)"

fun match_item :: "fmt_item \<Rightarrow> string \<Rightarrow> ((char \<times> nat) list \<times> string) list" where
  "match_item (FDir c) s =
     concat (map (\<lambda>alt. case match_seq alt s of None \<Rightarrow> []
                                  | Some (cs, r) \<Rightarrow> [([(c, digits_val cs)], r)])
                 (directive_alts c))"
| "match_item (FLit a) s =
     (case s of [] \<Rightarrow> [] | x # r \<Rightarrow> if py_lower_char x = py_lower_char a then [([], r)] else [])"
| "match_item FSpace s =
     map (\<lambda>k. ([], drop k s)) (rev [1..<Suc (length (takeWhile is_space s))])"

fun match_items :: "fmt_item list \<Rightarrow> string \<Rightarrow> ((char \<times> nat) list \<times> string) list" where
  "match_items [] s = [([], s)]"
| "match_items (i # is) s =
     concat (map (\<lambda>(vs, r). map (\<lambda>(ws, r'). (vs @ ws, r')) (match_items is r)) (match_item i s))"

definition field_val :: "char \<Rightarrow> nat \<Rightarrow> (char \<times> nat) list \<Rightarrow> nat" where
  "field_val c dflt vs = (case map_of (rev vs) c of None \<Rightarrow> dflt | Some v \<Rightarrow> v)"

definition build_datetime :: "(char \<times> nat) list \<Rightarrow> datetime" where
  "build_datetime vs =
     \<lparr>dt_year = int (field_val CHR ''Y'' 1900 vs), dt_month = field_val CHR ''m'' 1 vs,
      dt_day = field_val CHR ''d'' 1 vs, dt_hour = field_val CHR ''H'' 0 vs,
      dt_minute = field_val CHR ''M'' 0 vs, dt_second = field_val CHR ''S'' 0 vs, dt_usec = 0\<rparr>"

definition strptime :: "string \<Rightarrow> string \<Rightarrow> py_error + datetime" where
  "strptime s fmt =
     (case compile_fmt fmt of
        Inl e \<Rightarrow> Inl e
      | Inr items \<Rightarrow>
          (case match_items items s of
             [] \<Rightarrow> Inl (ValueError ''time data does not match format'')
           | (vs, rest) # _ \<Rightarrow>
               if rest \<noteq> [] then Inl (ValueError ''unconverted data remains'')
               else if valid_datetime (build_datetime vs) then Inr (build_datetime vs)
               else Inl (ValueError ''datetime field out of range'')))"


section \<open>Lemmas\<close>

lemma match_item_fields:
  "(vs, r) \<in> set (match_item i s) \<Longrightarrow> fst ` set vs \<subseteq> {c. i = FDir c}"
  by (cases i) (auto split: option.splits list.splits if_splits)

lemma match_items_fields:
  "(vs, r) \<in> set (match_items is s) \<Longrightarrow> fst ` set vs \<subseteq> {c. FDir c \<in> set is}"
proof (induction "is" arbitrary: s vs r)
  case Nil
  then show ?case by simp
next
  case (Cons i "is")
  from Cons.prems obtain vs1 r1 vs2 where
    m1: "(vs1, r1) \<in> set (match_item i s)" and m2: "(vs2, r) \<in> set (match_items is r1)"
    and vs: "vs = vs1 @ vs2"
    by auto
  have "fst ` set vs1 \<subseteq> {c. i = FDir c}" by (rule match_item_fields [OF m1])
  moreover have "fst ` set vs2 \<subseteq> {c. FDir c \<in> set is}" by (rule Cons.IH [OF m2])
  ultimately show ?case using vs by auto
qed

lemma field_val_absent:
  shows "c \<notin> fst ` set vs \<Longrightarrow> field_val c dflt vs = dflt"
proof -
  assume "c \<notin> fst ` set vs"
  then have "map_of (rev vs) c = None"
    by (simp add: map_of_eq_None_iff)
  then show ?thesis by (simp add: field_val_def)
qed

lemma compile_fmt_date_only:
  "compile_fmt ''%Y-%m-%d'' = Inr [FDir CHR ''Y'', FLit CHR ''-'', FDir CHR ''m'', FLit CHR ''-'', FDir CHR ''d'']"
  by (simp add: compile_fmt_def is_space_def)

lemma compile_fmt_date_time:
  "compile_fmt ''%Y-%m-%d %H:%M:%S'' =
     Inr [FDir CHR ''Y'', FLit CHR ''-'', FDir CHR ''m'', FLit CHR ''-'', FDir CHR ''d'', FSpace,
          FDir CHR ''H'', FLit CHR '':'', FDir CHR ''M'', FLit CHR '':'', FDir CHR ''S'']"
  by (simp add: compile_fmt_def is_space_def)

text \<open>A date-only format leaves the time of day at midnight.\<close>

lemma strptime_date_only_midnight:
  assumes "strptime s ''%Y-%m-%d'' = Inr d"
  shows "dt_hour d = 0 \<and> dt_minute d = 0 \<and> dt_second d = 0 \<and> dt_usec d = 0"
proof -
  let ?is = "[FDir CHR ''Y'', FLit CHR ''-'', FDir CHR ''m'', FLit CHR ''-'', FDir CHR ''d'']"
  obtain vs rest more where ml: "match_items ?is s = (vs, rest) # more" and d: "d = build_datetime vs"
  proof (cases "match_items ?is s")
    case Nil
    then show ?thesis using assms by (simp add: strptime_def compile_fmt_date_only del: match_items.simps)
  next
    case (Cons x more)
    then show ?thesis
      using assms that
      by (cases x) (simp add: strptime_def compile_fmt_date_only split: if_splits del: match_items.simps)
  qed
  then have m: "(vs, rest) \<in> set (match_items ?is s)"
    by simp
  have "fst ` set vs \<subseteq> {CHR ''Y'', CHR ''m'', CHR ''d''}"
    using match_items_fields [OF m] by auto
  then have "CHR ''H'' \<notin> fst ` set vs" "CHR ''M'' \<notin> fst ` set vs" "CHR ''S'' \<notin> fst ` set vs"
    by auto
  then show ?thesis
    using d by (simp add: build_datetime_def field_val_absent)
qed

lemma dt_timestamp_replace_hms:
  "dt_timestamp (dt_replace_hms h mi s d) =
     dt_timestamp (dt_replace_hmsu 0 0 0 0 d) + (int h * 3600 + int mi * 60 + int s) * usec_per_sec + int (dt_usec d)"
  by (simp add: dt_timestamp_def dt_replace_hms_def dt_replace_hmsu_def algebra_simps)

section \<open>Parsing what \<open>str(datetime)\<close> prints\<close>

lemma is_space_digit: "k < 10 \<Longrightarrow> \<not> is_space (digit_char k)"
  by (simp add: is_space_def of_char_digit_char)

lemma digit_char_not_space: "k < 10 \<Longrightarrow> digit_char k \<noteq> CHR '' ''"
  by (simp add: char_eq_of_char of_char_digit_char)

lemma digits_val_snoc:
  "k < 10 \<Longrightarrow> digits_val (xs @ [digit_char k]) = 10 * digits_val xs + k"
  by (simp add: digits_val_def digit_char_not_space of_char_digit_char)

lemma digits_val_digs: "digits_val (digs w n) = n mod 10 ^ w"
proof (induction w arbitrary: n)
  case 0
  then show ?case by (simp add: digits_val_def)
next
  case (Suc w)
  then show ?case
    by (simp add: digits_val_snoc mod_mult2_eq [of n 10 "10 ^ w"])
qed

lemma dig_digit: "k < 10 \<Longrightarrow> cclass_ok dig (digit_char k)"
  by (simp add: less_eq_char_def of_char_digit_char)

lemma match_seq_append:
  "match_seq (ks1 @ ks2) s =
     (case match_seq ks1 s of None \<Rightarrow> None
      | Some (xs, r) \<Rightarrow> map_option (\<lambda>(ys, r'). (xs @ ys, r')) (match_seq ks2 r))"
proof (induction ks1 arbitrary: s)
  case Nil
  then show ?case by (simp add: option.map_id)
next
  case (Cons k ks)
  then show ?case
    by (cases s) (auto simp: option.map_comp comp_def case_prod_unfold split: option.splits)
qed

lemma match_seq_digs: "match_seq (replicate w dig) (digs w n @ rest) = Some (digs w n, rest)"
proof (induction w arbitrary: n rest)
  case 0
  then show ?case by simp
next
  case (Suc w)
  have "replicate (Suc w) dig = replicate w dig @ [dig]"
    by (simp add: replicate_append_same)
  then show ?case
    using Suc.IH [of "n div 10" "digit_char (n mod 10) # rest"]
    by (simp add: match_seq_append less_eq_char_def of_char_digit_char)
qed

lemma digs_two: "v < 100 \<Longrightarrow> digs 2 v = [digit_char (v div 10), digit_char (v mod 10)]"
  by (simp add: numeral_2_eq_2)

lemma match_item_month:
  assumes "1 \<le> v" and "v \<le> 12"
  shows "\<exists>more. match_item (FDir CHR ''m'') (digs 2 v @ rest) = ([(CHR ''m'', v)], rest) # more"
proof -
  have dv: "digits_val [digit_char (v div 10), digit_char (v mod 10)] = v"
    using digits_val_snoc [of "v mod 10" "[digit_char (v div 10)]"] digits_val_snoc [of "v div 10" "[]"]
      assms by (simp add: digits_val_def)
  show ?thesis
    using assms dv
    by (auto simp: digs_two less_eq_char_def char_eq_of_char [of "digit_char _"] of_char_digit_char; presburger)
qed

lemma two_digits_val:
  "v < 100 \<Longrightarrow> digits_val [digit_char (v div 10), digit_char (v mod 10)] = v"
  using digits_val_snoc [of "v mod 10" "[digit_char (v div 10)]"] digits_val_snoc [of "v div 10" "[]"]
  by (simp add: digits_val_def)

lemma match_item_day:
  assumes "1 \<le> v" and "v \<le> 31"
  shows "\<exists>more. match_item (FDir CHR ''d'') (digs 2 v @ rest) = ([(CHR ''d'', v)], rest) # more"
  using assms two_digits_val [of v]
  by (auto simp: digs_two less_eq_char_def char_eq_of_char [of "digit_char _"] of_char_digit_char; presburger)

lemma match_item_hour:
  assumes "v < 24"
  shows "\<exists>more. match_item (FDir CHR ''H'') (digs 2 v @ rest) = ([(CHR ''H'', v)], rest) # more"
  using assms two_digits_val [of v]
  by (auto simp: digs_two less_eq_char_def char_eq_of_char [of "digit_char _"] of_char_digit_char; presburger)

lemma match_item_minute:
  assumes "v < 60"
  shows "\<exists>more. match_item (FDir CHR ''M'') (digs 2 v @ rest) = ([(CHR ''M'', v)], rest) # more"
  using assms two_digits_val [of v]
  by (auto simp: digs_two less_eq_char_def char_eq_of_char [of "digit_char _"] of_char_digit_char; presburger)

lemma match_item_second:
  assumes "v < 60"
  shows "\<exists>more. match_item (FDir CHR ''S'') (digs 2 v @ rest) = ([(CHR ''S'', v)], rest) # more"
  using assms two_digits_val [of v]
  by (auto simp: digs_two less_eq_char_def char_eq_of_char [of "digit_char _"] of_char_digit_char; presburger)

lemma match_item_year:
  "match_item (FDir CHR ''Y'') (digs 4 v @ rest) = [([(CHR ''Y'', v mod 10000)], rest)]"
proof -
  have "[dig, dig, dig, dig] = replicate 4 dig" by (simp add: numeral_eq_Suc)
  then show ?thesis
    using match_seq_digs [of 4 v rest] by (simp add: digits_val_digs)
qed

lemma days_in_month_le_31: "m \<le> 12 \<Longrightarrow> days_in_month y m \<le> 31"
proof -
  assume "m \<le> 12"
  then have "m \<in> set [0..<13]" by simp
  then show ?thesis
    by (auto simp: days_in_month_def days_in_month_tab_def upt_rec)
qed

lemma match_item_space_digs:
  "v < 100 \<Longrightarrow> match_item FSpace (CHR '' '' # digs 2 v @ rest) = [([], digs 2 v @ rest)]"
  by (simp add: digs_two is_space_digit) (simp add: is_space_def)

lemma strptime_dt_str:
  assumes v: "valid_datetime d" and u: "dt_usec d = 0"
  shows "strptime (dt_str d) ''%Y-%m-%d %H:%M:%S'' = Inr d"
proof -
  define y where "y = nat (dt_year d)"
  have yb: "y < 10 ^ 4" "int y = dt_year d"
    using v by (auto simp: y_def valid_datetime_def)
  have dm: "days_in_month (dt_year d) (dt_month d) \<le> 31"
    using v by (simp add: valid_datetime_def days_in_month_le_31)
  have b: "1 \<le> dt_month d" "dt_month d \<le> 12" "1 \<le> dt_day d" "dt_day d \<le> 31"
    "dt_hour d < 24" "dt_minute d < 60" "dt_second d < 60"
    using v dm by (auto simp: valid_datetime_def)
  have str: "dt_str d = digs 4 y @ CHR ''-'' # digs 2 (dt_month d) @ CHR ''-'' # digs 2 (dt_day d) @
      CHR '' '' # digs 2 (dt_hour d) @ CHR '':'' # digs 2 (dt_minute d) @ CHR '':'' # digs 2 (dt_second d)"
    using b yb u by (simp add: dt_str_def y_def zpad_digs)
  obtain mS where S: "match_item (FDir CHR ''S'') (digs 2 (dt_second d)) = [([(CHR ''S'', dt_second d)], [])] @ mS"
    using match_item_second [OF b(7), of "[]"] by auto
  obtain mM where M: "match_item (FDir CHR ''M'') (digs 2 (dt_minute d) @ CHR '':'' # digs 2 (dt_second d)) =
      [([(CHR ''M'', dt_minute d)], CHR '':'' # digs 2 (dt_second d))] @ mM"
    using match_item_minute [OF b(6)] by auto
  obtain mH where H: "match_item (FDir CHR ''H'')
      (digs 2 (dt_hour d) @ CHR '':'' # digs 2 (dt_minute d) @ CHR '':'' # digs 2 (dt_second d)) =
      [([(CHR ''H'', dt_hour d)], CHR '':'' # digs 2 (dt_minute d) @ CHR '':'' # digs 2 (dt_second d))] @ mH"
    using match_item_hour [OF b(5)] by auto
  obtain md where D: "match_item (FDir CHR ''d'')
      (digs 2 (dt_day d) @ CHR '' '' # digs 2 (dt_hour d) @ CHR '':'' # digs 2 (dt_minute d) @
       CHR '':'' # digs 2 (dt_second d)) =
      [([(CHR ''d'', dt_day d)], CHR '' '' # digs 2 (dt_hour d) @ CHR '':'' # digs 2 (dt_minute d) @
       CHR '':'' # digs 2 (dt_second d))] @ md"
    using match_item_day [OF b(3,4)] by auto
  obtain mm where Mo: "match_item (FDir CHR ''m'')
      (digs 2 (dt_month d) @ CHR ''-'' # digs 2 (dt_day d) @ CHR '' '' # digs 2 (dt_hour d) @
       CHR '':'' # digs 2 (dt_minute d) @ CHR '':'' # digs 2 (dt_second d)) =
      [([(CHR ''m'', dt_month d)], CHR ''-'' # digs 2 (dt_day d) @ CHR '' '' # digs 2 (dt_hour d) @
       CHR '':'' # digs 2 (dt_minute d) @ CHR '':'' # digs 2 (dt_second d))] @ mm"
    using match_item_month [OF b(1,2)] by auto
  have sp: "match_item FSpace (CHR '' '' # digs 2 (dt_hour d) @ CHR '':'' # digs 2 (dt_minute d) @
       CHR '':'' # digs 2 (dt_second d)) =
      [([], digs 2 (dt_hour d) @ CHR '':'' # digs 2 (dt_minute d) @ CHR '':'' # digs 2 (dt_second d))]"
    using b(5) by (intro match_item_space_digs) simp
  have ym: "y mod 10000 = y" using yb by simp
  let ?vs = "[(CHR ''Y'', y), (CHR ''m'', dt_month d), (CHR ''d'', dt_day d), (CHR ''H'', dt_hour d),
              (CHR ''M'', dt_minute d), (CHR ''S'', dt_second d)]"
  have mi: "\<exists>more. match_items [FDir CHR ''Y'', FLit CHR ''-'', FDir CHR ''m'', FLit CHR ''-'', FDir CHR ''d'', FSpace,
          FDir CHR ''H'', FLit CHR '':'', FDir CHR ''M'', FLit CHR '':'', FDir CHR ''S''] (dt_str d) =
        (?vs, []) # more"
    by (simp add: str S M H D Mo sp match_item_year ym del: match_item.simps(1) match_item.simps(3))
  have bd: "build_datetime ?vs = d"
    using yb u by (cases d) (simp add: build_datetime_def field_val_def)
  show ?thesis
    using mi v bd by (auto simp: strptime_def compile_fmt_date_time simp del: match_items.simps)
qed

end
