(* ===== verification/Calendar.thy ===== *)
theory Calendar
  imports Dates
begin

text \<open>
  The calendar arithmetic of CPython's \<open>datetime\<close> that the finder relies on: the
  optimised \<open>_ord2ymd\<close> (400-, 100-, 4- and 1-year cycles, then a month guess
  corrected once) yields a valid date whose \<open>_ymd2ord\<close> is the ordinal it started
  from. From this, \<open>fromtimestamp(t)\<close> is day \<open>t div 86400000000\<close> after the epoch,
  \<open>timestamp()\<close> of a datetime replaced to a time of day, and of midnight \<open>k\<close> days
  back, are computed from the clock. Years 1 to 9999 are the ordinals 1 to 3652059,
  which decides when \<open>now()\<close> and the subtraction raise.
\<close>

text \<open>The month-and-day step of \<open>_ord2ymd\<close> for a day \<open>n\<close> of the year (from 0), and
  what it should produce.\<close>

definition month_of_day :: "bool \<Rightarrow> int \<Rightarrow> nat \<times> nat" where
  "month_of_day leap n =
     (let month = nat ((n + 50) div 32);
          preceding = int (days_before_month_tab month) + (if 2 < month \<and> leap then 1 else 0)
      in if n < preceding
         then (let month' = month - 1;
                   preceding' = preceding - int (days_in_month_tab month')
                                 - (if month' = 2 \<and> leap then 1 else 0)
               in (month', nat (n - preceding' + 1)))
         else (month, nat (n - preceding + 1)))"

definition month_ok :: "bool \<Rightarrow> int \<Rightarrow> bool" where
  "month_ok leap n =
     (case month_of_day leap n of
        (m, d) \<Rightarrow> 1 \<le> m \<and> m \<le> 12 \<and> 1 \<le> d \<and> d \<le> (if m = 2 \<and> leap then 29 else days_in_month_tab m) \<and>
                  int (days_before_month_tab m) + (if 2 < m \<and> leap then 1 else 0) + int d - 1 = n)"

section \<open>Lemmas\<close>

lemma mod_cycle: "0 \<le> r \<Longrightarrow> r < k \<Longrightarrow> (k * x + r) mod k = (r::int)"
  by (simp add: add.commute)

lemma is_leap_cycle:
  fixes q a b c :: int
  assumes a: "0 \<le> a" "a < 4" and b: "0 \<le> b" "b < 25" and c: "0 \<le> c" "c < 4"
  shows "is_leap (400 * q + 100 * a + 4 * b + c + 1) \<longleftrightarrow> c = 3 \<and> (b \<noteq> 24 \<or> a = 3)"
proof (cases "c = 3")
  case False
  have "(400 * q + 100 * a + 4 * b + c + 1) mod 4 = c + 1"
    using mod_cycle [of "c + 1" 4 "100 * q + 25 * a + b"] c False by (simp add: algebra_simps)
  then show ?thesis using c False by (simp add: is_leap_def)
next
  case c3: True
  have m4: "(400 * q + 100 * a + 4 * b + c + 1) mod 4 = 0"
    using mod_cycle [of 0 4 "100 * q + 25 * a + b + 1"] c3 by (simp add: algebra_simps)
  show ?thesis
  proof (cases "b = 24")
    case False
    have "(400 * q + 100 * a + 4 * b + c + 1) mod 100 = 4 * b + 4"
      using mod_cycle [of "4 * b + 4" 100 "4 * q + a"] b False c3 by (simp add: algebra_simps)
    then show ?thesis using m4 b False c3 by (simp add: is_leap_def)
  next
    case b24: True
    have m100: "(400 * q + 100 * a + 4 * b + c + 1) mod 100 = 0"
      using mod_cycle [of 0 100 "4 * q + a + 1"] b24 c3 by (simp add: algebra_simps)
    have "(400 * q + 100 * a + 4 * b + c + 1) mod 400 = (if a = 3 then 0 else 100 * a + 100)"
    proof (cases "a = 3")
      case True
      then show ?thesis using mod_cycle [of 0 400 "q + 1"] b24 c3 by (simp add: algebra_simps)
    next
      case False
      then show ?thesis using mod_cycle [of "100 * a + 100" 400 q] a b24 c3 by (simp add: algebra_simps)
    qed
    then show ?thesis using m4 m100 a b24 c3 by (simp add: is_leap_def)
  qed
qed


lemma div_cycle: "0 \<le> r \<Longrightarrow> r < k \<Longrightarrow> (k * x + r) div k = (x::int)"
  by (simp add: add.commute div_pos_pos_trivial)

lemma days_before_year_cycle:
  fixes q a b c :: int
  assumes "0 \<le> a" "a < 4" "0 \<le> b" "b < 25" "0 \<le> c" "c < 4"
  shows "days_before_year (400 * q + 100 * a + 4 * b + c + 1) = 146097 * q + 36524 * a + 1461 * b + 365 * c"
proof -
  let ?y = "400 * q + 100 * a + 4 * b + c"
  have d4: "?y div 4 = 100 * q + 25 * a + b"
    using div_cycle [of c 4 "100 * q + 25 * a + b"] assms by (simp add: algebra_simps)
  have d100: "?y div 100 = 4 * q + a"
    using div_cycle [of "4 * b + c" 100 "4 * q + a"] assms by (simp add: algebra_simps)
  have d400: "?y div 400 = q"
    using div_cycle [of "100 * a + 4 * b + c" 400 q] assms by (simp add: algebra_simps)
  show ?thesis
    unfolding days_before_year_def Let_def using d4 d100 d400 by simp
qed

lemma month_ok_table: "list_all (\<lambda>k. month_ok True (int k) \<and> month_ok False (int k)) [0..<365]"
  by code_simp

lemma month_ok_range: "0 \<le> n \<Longrightarrow> n < 365 \<Longrightarrow> month_ok leap n"
proof -
  assume n: "0 \<le> n" "n < 365"
  define k where "k = nat n"
  have k: "n = int k" "k \<in> set [0..<365]" using n by (simp_all add: k_def)
  have "month_ok True (int k) \<and> month_ok False (int k)"
    using month_ok_table k(2) by (simp only: list_all_iff)
  then show ?thesis using k(1) by (cases leap) simp_all
qed

lemma ord2ymd_unfold:
  "ord2ymd n0 =
     (let q = (n0 - 1) div 146097; r = (n0 - 1) mod 146097; a = r div 36524; r1 = r mod 36524;
          b = r1 div 1461; r2 = r1 mod 1461; c = r2 div 365; e = r2 mod 365;
          year = q * 400 + 1 + a * 100 + b * 4 + c
      in if c = 4 \<or> a = 4 then (year - 1, 12, 31)
         else (year, month_of_day (c = 3 \<and> (b \<noteq> 24 \<or> a = 3)) e))"
  unfolding ord2ymd_def month_of_day_def Let_def by (simp only: if_distrib [where f = "Pair y" for y])

lemma div_le_const: "0 \<le> (x::int) \<Longrightarrow> x \<le> u \<Longrightarrow> 0 < k \<Longrightarrow> 0 \<le> x div k \<and> x div k \<le> u div k"
  by (simp add: zdiv_mono1 pos_imp_zdiv_nonneg_iff)

text \<open>The result of \<open>_ord2ymd\<close> is a valid date whose ordinal is the argument.\<close>

lemma ord2ymd_sound:
  assumes res: "ord2ymd n = (y, m, d)"
  shows "1 \<le> m \<and> m \<le> 12 \<and> 1 \<le> d \<and> d \<le> days_in_month y m \<and> ymd2ord y m d = n"
proof -
  define q where "q = (n - 1) div 146097"
  define r where "r = (n - 1) mod 146097"
  define a where "a = r div 36524"
  define r1 where "r1 = r mod 36524"
  define b where "b = r1 div 1461"
  define r2 where "r2 = r1 mod 1461"
  define c where "c = r2 div 365"
  define e where "e = r2 mod 365"
  have sums: "n - 1 = 146097 * q + r" "r = 36524 * a + r1" "r1 = 1461 * b + r2" "r2 = 365 * c + e"
    unfolding q_def r_def a_def r1_def b_def r2_def c_def e_def by simp_all
  have rng: "0 \<le> r" "r < 146097" "0 \<le> r1" "r1 < 36524" "0 \<le> r2" "r2 < 1461" "0 \<le> e" "e < 365"
    unfolding r_def r1_def r2_def e_def by simp_all
  have ra: "0 \<le> a" "a \<le> 4" using div_le_const [of r 146096 36524] rng by (simp_all add: a_def)
  have rb: "0 \<le> b" "b \<le> 24" using div_le_const [of r1 36523 1461] rng by (simp_all add: b_def)
  have rc: "0 \<le> c" "c \<le> 4" using div_le_const [of r2 1460 365] rng by (simp_all add: c_def)
  define leap where "leap = (c = 3 \<and> (b \<noteq> 24 \<or> a = 3))"
  have u: "ord2ymd n = (if c = 4 \<or> a = 4 then (q * 400 + 1 + a * 100 + b * 4 + c - 1, 12, 31)
                        else (q * 400 + 1 + a * 100 + b * 4 + c, month_of_day leap e))"
    unfolding ord2ymd_unfold Let_def q_def [symmetric] r_def [symmetric] a_def [symmetric]
      r1_def [symmetric] b_def [symmetric] r2_def [symmetric] c_def [symmetric] e_def [symmetric]
      leap_def by (rule refl)
  consider (A) "a = 4" | (C) "a \<noteq> 4" "c = 4" | (M) "a < 4" "c < 4"
    using ra rc by linarith
  then show ?thesis
  proof cases
    case A
    then have z: "r1 = 0" "b = 0" "c = 0" "e = 0" using sums rng rb rc by simp_all
    have yv: "y = 400 * q + 100 * 3 + 4 * 24 + 3 + 1" "m = 12" "d = 31" using res u A z by simp_all
    have "days_before_year y = 146097 * q + 36524 * 3 + 1461 * 24 + 365 * 3"
      unfolding yv by (rule days_before_year_cycle) simp_all
    moreover have "is_leap y" unfolding yv by (subst is_leap_cycle) simp_all
    ultimately show ?thesis
      using yv sums A z by (simp add: ymd2ord_def days_before_month_def days_in_month_def
          days_before_month_tab_def days_in_month_tab_def)
  next
    case C
    then have z: "e = 0" "a < 4" using sums rng ra by simp_all
    have "b \<noteq> 24" using sums rng C z by auto
    then have b23: "b < 24" using rb by simp
    have yv: "y = 400 * q + 100 * a + 4 * b + 3 + 1" "m = 12" "d = 31" using res u C by simp_all
    have "days_before_year y = 146097 * q + 36524 * a + 1461 * b + 365 * 3"
      unfolding yv by (rule days_before_year_cycle) (use ra rb z b23 in simp_all)
    moreover have "is_leap y" unfolding yv using ra rb z b23 by (subst is_leap_cycle) simp_all
    ultimately show ?thesis
      using yv sums C z by (simp add: ymd2ord_def days_before_month_def days_in_month_def
          days_before_month_tab_def days_in_month_tab_def)
  next
    case M
    have yv: "y = 400 * q + 100 * a + 4 * b + c + 1" "(m, d) = month_of_day leap e"
      using res u M by simp_all
    have ok: "month_ok leap e" using month_ok_range rng by simp
    have lp: "is_leap y = leap"
      unfolding yv leap_def using ra rb rc M by (subst is_leap_cycle) simp_all
    have dby: "days_before_year y = 146097 * q + 36524 * a + 1461 * b + 365 * c"
      unfolding yv by (rule days_before_year_cycle) (use ra rb rc M in simp_all)
    define x where "x = int (days_before_month_tab m) + (if 2 < m \<and> leap then 1 else 0)"
    have v: "1 \<le> m \<and> m \<le> 12 \<and> 1 \<le> d \<and> d \<le> (if m = 2 \<and> leap then 29 else days_in_month_tab m)"
      and xe: "x + int d - 1 = e"
      using ok yv(2) [symmetric] by (simp_all add: month_ok_def x_def)
    have "ymd2ord y m d = days_before_year y + x + int d"
      using lp by (simp add: ymd2ord_def days_before_month_def x_def)
    then have "ymd2ord y m d = n" using xe dby sums by linarith
    then show ?thesis using v lp by (simp add: days_in_month_def)
  qed
qed

lemma div_pred: "0 < (k::int) \<Longrightarrow> y div k = (y - 1) div k + (if y mod k = 0 then 1 else 0)"
proof -
  assume k: "0 < k"
  have y: "k * (y div k) + y mod k = y" by (rule mult_div_mod_eq)
  show ?thesis
  proof (cases "y mod k = 0")
    case True
    have e: "y - 1 = k * (y div k - 1) + (k - 1)" using y True by (simp add: algebra_simps)
    have "(k * (y div k - 1) + (k - 1)) div k = y div k - 1" by (rule div_cycle) (use k in simp_all)
    then have "(y - 1) div k = y div k - 1" by (simp only: e)
    then show ?thesis using True by simp
  next
    case False
    have e: "y - 1 = k * (y div k) + (y mod k - 1)" using y by (simp add: algebra_simps)
    have "0 \<le> y mod k" "y mod k < k" using k by simp_all
    then have "(k * (y div k) + (y mod k - 1)) div k = y div k"
      using False by (intro div_cycle) simp_all
    then have "(y - 1) div k = y div k" by (simp only: e)
    then show ?thesis using False by simp
  qed
qed

lemma leap_indicator:
  "(if y mod 4 = 0 then 1 else 0) - (if y mod 100 = 0 then 1 else 0) + (if y mod 400 = 0 then 1 else 0) =
   (if is_leap y then 1 else (0::int))"
proof -
  have a: "y mod 100 = 0" if "y mod 400 = 0"
  proof -
    have "400 dvd y" using that by (simp only: mod_eq_0_iff_dvd)
    then have "100 dvd y" by (rule dvd_trans [rotated]) simp
    then show ?thesis by (simp only: mod_eq_0_iff_dvd)
  qed
  have b: "y mod 4 = 0" if "y mod 100 = 0"
  proof -
    have "100 dvd y" using that by (simp only: mod_eq_0_iff_dvd)
    then have "4 dvd y" by (rule dvd_trans [rotated]) simp
    then show ?thesis by (simp only: mod_eq_0_iff_dvd)
  qed
  show ?thesis
    unfolding is_leap_def using a b by (cases "y mod 4 = 0"; cases "y mod 100 = 0"; cases "y mod 400 = 0") simp_all
qed

lemma days_before_year_step:
  "days_before_year (y + 1) = days_before_year y + 365 + (if is_leap y then 1 else 0)"
proof -
  define i4 where "i4 = (if y mod 4 = 0 then 1 else (0::int))"
  define i100 where "i100 = (if y mod 100 = 0 then 1 else (0::int))"
  define i400 where "i400 = (if y mod 400 = 0 then 1 else (0::int))"
  define l where "l = (if is_leap y then 1 else (0::int))"
  have e1: "days_before_year (y + 1) = y * 365 + y div 4 - y div 100 + y div 400"
    unfolding days_before_year_def Let_def by simp
  have e2: "days_before_year y = (y - 1) * 365 + (y - 1) div 4 - (y - 1) div 100 + (y - 1) div 400"
    unfolding days_before_year_def Let_def by (rule refl)
  have d: "y div 4 = (y - 1) div 4 + i4" "y div 100 = (y - 1) div 100 + i100" "y div 400 = (y - 1) div 400 + i400"
    unfolding i4_def i100_def i400_def by (simp_all only: div_pred [symmetric] zero_less_numeral)
  have "i4 - i100 + i400 = l" unfolding i4_def i100_def i400_def l_def by (rule leap_indicator)
  then have "days_before_year (y + 1) = days_before_year y + 365 + l"
    using e1 e2 d by (simp only: algebra_simps)
  then show ?thesis by (simp only: l_def)
qed

lemma days_before_year_mono: "a \<le> b \<Longrightarrow> days_before_year a + 365 * (b - a) \<le> days_before_year b"
proof -
  assume "a \<le> b"
  then obtain k where b: "b = a + int k" using zle_iff_zadd by blast
  have "days_before_year a + 365 * int k \<le> days_before_year (a + int k)"
  proof (induction k)
    case 0
    then show ?case by simp
  next
    case (Suc k)
    then show ?case using days_before_year_step [of "a + int k"] by (simp add: algebra_simps)
  qed
  then show ?thesis using b by simp
qed

lemma days_before_month_step:
  assumes "1 \<le> m" "m < 12"
  shows "days_before_month y (Suc m) = days_before_month y m + days_in_month y m"
proof -
  have "m = 1 \<or> m = 2 \<or> m = 3 \<or> m = 4 \<or> m = 5 \<or> m = 6 \<or> m = 7 \<or> m = 8 \<or> m = 9 \<or> m = 10 \<or> m = 11"
    using assms by presburger
  then show ?thesis
    by (elim disjE) (simp_all add: days_before_month_def days_in_month_def days_before_month_tab_def
        days_in_month_tab_def)
qed

lemma days_before_month_mono:
  assumes "1 \<le> m" "m < m'" "m' \<le> 12"
  shows "days_before_month y m + days_in_month y m \<le> days_before_month y m'"
  using assms
proof (induction m')
  case 0
  then show ?case by simp
next
  case (Suc k)
  show ?case
  proof (cases "m = k")
    case True
    then show ?thesis using days_before_month_step [of k y] Suc.prems by simp
  next
    case False
    then have "days_before_month y m + days_in_month y m \<le> days_before_month y k"
      using Suc by simp
    then show ?thesis using days_before_month_step [of k y] Suc.prems False by simp
  qed
qed

lemma day_of_year_bound:
  assumes "1 \<le> m" "m \<le> 12" "d \<le> days_in_month y m"
  shows "days_before_month y m + d \<le> 365 + (if is_leap y then 1 else 0)"
proof -
  have "days_before_month y m + days_in_month y m \<le> days_before_month y 12 + days_in_month y 12"
    using days_before_month_mono [of m 12 y] assms by (cases "m = 12") simp_all
  then show ?thesis using assms(3)
    by (simp add: days_before_month_def days_in_month_def days_before_month_tab_def days_in_month_tab_def)
qed

text \<open>A valid date's ordinal lies in its year.\<close>

lemma ymd2ord_in_year:
  assumes "1 \<le> m" "m \<le> 12" "1 \<le> d" "d \<le> days_in_month y m"
  shows "days_before_year y < ymd2ord y m d \<and> ymd2ord y m d \<le> days_before_year (y + 1)"
  using day_of_year_bound [OF assms(1,2,4)] days_before_year_step [of y] assms(3)
  by (simp add: ymd2ord_def split: if_splits)

lemma days_of_timestamp: "t div 1000000 div 86400 = t div (86400000000::int)"
  using zdiv_zmult2_eq [of 86400 t 1000000] by simp

text \<open>The date \<open>fromtimestamp(t)\<close> gives is day \<open>t div 86400000000\<close> after the epoch.\<close>

lemma dt_of_timestamp_ord:
  "ymd2ord (dt_year (dt_of_timestamp t)) (dt_month (dt_of_timestamp t)) (dt_day (dt_of_timestamp t)) =
   t div 86400000000 + epoch_ord"
proof -
  obtain y m d where o: "ord2ymd (t div 86400000000 + epoch_ord) = (y, m, d)" by (metis prod_cases3)
  then show ?thesis
    using ord2ymd_sound [OF o] by (simp add: dt_of_timestamp_def Let_def days_of_timestamp)
qed

lemma dt_usec_of_timestamp: "int (dt_usec (dt_of_timestamp t)) = t mod 1000000"
  by (simp add: dt_of_timestamp_def Let_def split: prod.splits)

lemma dt_minus_days_ord:
  "ymd2ord (dt_year (dt_minus_days d k)) (dt_month (dt_minus_days d k)) (dt_day (dt_minus_days d k)) =
   ymd2ord (dt_year d) (dt_month d) (dt_day d) - int k"
proof -
  obtain y m dd where o: "ord2ymd (ymd2ord (dt_year d) (dt_month d) (dt_day d) - int k) = (y, m, dd)"
    by (metis prod_cases3)
  then show ?thesis using ord2ymd_sound [OF o] by (simp add: dt_minus_days_def)
qed

text \<open>\<open>fromtimestamp(t).replace(hour=h, minute=mi, second=s).timestamp()\<close>, and midnight
  \<open>k\<close> days before \<open>fromtimestamp(t)\<close>.\<close>

lemma dt_timestamp_replace_hms_of:
  "dt_timestamp (dt_replace_hms h mi s (dt_of_timestamp t)) =
   t div 86400000000 * 86400000000 + (int h * 3600 + int mi * 60 + int s) * 1000000 + t mod 1000000"
  using dt_of_timestamp_ord [of t] dt_usec_of_timestamp [of t]
  by (simp add: dt_timestamp_def dt_replace_hms_def algebra_simps)

lemma dt_timestamp_midnight_minus_days:
  "dt_timestamp (dt_replace_hmsu 0 0 0 0 (dt_minus_days (dt_of_timestamp t) k)) =
   (t div 86400000000 - int k) * 86400000000"
  using dt_minus_days_ord [of "dt_of_timestamp t" k] dt_of_timestamp_ord [of t]
  by (simp add: dt_timestamp_def dt_replace_hmsu_def dt_replace_hms_def algebra_simps)

text \<open>Years 1 to 9999 are the ordinals 1 to 3652059.\<close>

lemma ymd2ord_year_range:
  assumes v: "1 \<le> m" "m \<le> 12" "1 \<le> d" "d \<le> days_in_month y m"
    and n: "1 \<le> ymd2ord y m d" "ymd2ord y m d \<le> 3652059"
  shows "1 \<le> y \<and> y \<le> 9999"
proof -
  have i: "days_before_year y < ymd2ord y m d" "ymd2ord y m d \<le> days_before_year (y + 1)"
    using ymd2ord_in_year [OF v] by simp_all
  have "\<not> y < 1"
  proof
    assume "y < 1"
    then have "days_before_year (y + 1) \<le> days_before_year 1"
      using days_before_year_mono [of "y + 1" 1] by simp
    then show False using i n by (simp add: days_before_year_def)
  qed
  moreover have "\<not> 9999 < y"
  proof
    assume "9999 < y"
    then have "days_before_year 10000 \<le> days_before_year y"
      using days_before_year_mono [of 10000 y] by simp
    then show False using i n by (simp add: days_before_year_def)
  qed
  ultimately show ?thesis by simp
qed

lemma ymd2ord_range:
  assumes v: "1 \<le> m" "m \<le> 12" "1 \<le> d" "d \<le> days_in_month y m"
    and y: "1 \<le> y" "y \<le> 9999"
  shows "1 \<le> ymd2ord y m d \<and> ymd2ord y m d \<le> 3652059"
proof -
  have i: "days_before_year y < ymd2ord y m d" "ymd2ord y m d \<le> days_before_year (y + 1)"
    using ymd2ord_in_year [OF v] by simp_all
  have "days_before_year 1 + 365 * (y - 1) \<le> days_before_year y"
    using days_before_year_mono [of 1 y] y by simp
  moreover have "days_before_year (y + 1) + 365 * (10000 - (y + 1)) \<le> days_before_year 10000"
    using days_before_year_mono [of "y + 1" 10000] y by simp
  moreover have "days_before_year 1 = 0" "days_before_year 10000 = 3652059"
    by (simp_all add: days_before_year_def)
  ultimately show ?thesis using i y by (simp add: algebra_simps)
qed

lemma ord2ymd_year_iff:
  assumes "ord2ymd n = (y, m, d)"
  shows "(1 \<le> y \<and> y \<le> 9999) \<longleftrightarrow> (1 \<le> n \<and> n \<le> 3652059)"
  using ord2ymd_sound [OF assms] ymd2ord_year_range [of m d y] ymd2ord_range [of m d y] by auto

text \<open>The clocks \<open>now()\<close> accepts are the days 1 to 3652059.\<close>

lemma day_div_ge: "(c::int) \<le> t div 86400000000 \<longleftrightarrow> c * 86400000000 \<le> t"
proof -
  have "t = 86400000000 * (t div 86400000000) + t mod 86400000000" by simp
  moreover have "0 \<le> t mod 86400000000" "t mod 86400000000 < 86400000000" by simp_all
  ultimately show ?thesis by linarith
qed

lemma now_ok_day:
  "now_ok t \<longleftrightarrow> 1 \<le> t div 86400000000 + epoch_ord \<and> t div 86400000000 + epoch_ord \<le> 3652059"
  using day_div_ge [of "-719162" t] day_div_ge [of 2932897 t] by (auto simp: now_ok_def)

lemma dt_now_eq:
  "dt_now t = (if now_ok t then Inr (dt_of_timestamp t) else Inl (ValueError ''year must be in 1..9999''))"
proof -
  obtain y m d where o: "ord2ymd (t div 86400000000 + epoch_ord) = (y, m, d)" by (metis prod_cases3)
  have "dt_year (dt_of_timestamp t) = y"
    using o by (simp add: dt_of_timestamp_def Let_def days_of_timestamp)
  then show ?thesis using ord2ymd_year_iff [OF o] now_ok_day [of t] by (simp add: dt_now_def)
qed

lemma dt_sub_days_eq:
  "dt_sub_days d k =
     (if 0 < dt_ord d - int k \<and> dt_ord d - int k \<le> 3652059 then Inr (dt_minus_days d k)
      else Inl (OverflowError ''result out of range''))"
  by (simp add: dt_sub_days_def Let_def)

end
