(* ===== verification/World.thy ===== *)
theory World
  imports FF_Prelude
begin

text \<open>
  The process's outside world as the finder sees it: a file system mapping absolute
  paths to inodes (regular files with their text, or directories) with their three
  timestamps, the clock, the working directory and the lines printed on stdout. The
  \<open>os\<close>, \<open>os.path\<close> and file-object calls of the program are modelled on it
  (posixpath semantics). An action is a function from the world to a result and the
  new world; an exception is an \<open>Inl\<close> result, and the world it returns keeps every
  effect made before the raise, as in Python.
\<close>

section \<open>State\<close>

datatype fkind = Regular string | Directory

record inode =
  i_kind :: fkind
  i_mtime :: timestamp
  i_ctime :: timestamp
  i_atime :: timestamp

record world =
  w_fs :: "path \<rightharpoonup> inode"
  w_clock :: timestamp
  w_cwd :: path
  w_stdout :: "string list"

type_synonym 'a io = "world \<Rightarrow> (py_error + 'a) \<times> world"

definition io_return :: "'a \<Rightarrow> 'a io" where
  "io_return a w = (Inr a, w)"

definition io_raise :: "py_error \<Rightarrow> 'a io" where
  "io_raise e w = (Inl e, w)"

definition io_bind :: "'a io \<Rightarrow> ('a \<Rightarrow> 'b io) \<Rightarrow> 'b io" where
  "io_bind m f w = (case m w of (Inl e, w') \<Rightarrow> (Inl e, w') | (Inr a, w') \<Rightarrow> f a w')"

text \<open>A result computed without touching the world, as an action.\<close>

definition io_sum :: "py_error + 'a \<Rightarrow> 'a io" where
  "io_sum r w = (r, w)"

section \<open>os.path on strings\<close>

fun split_slash :: "string \<Rightarrow> string list" where
  "split_slash [] = [[]]"
| "split_slash (x # xs) =
     (let r = split_slash xs in if x = CHR ''/'' then [] # r else (x # hd r) # tl r)"

text \<open>\<open>os.path.join(a, b)\<close> for one component.\<close>

definition os_path_join :: "path \<Rightarrow> string \<Rightarrow> path" where
  "os_path_join a b =
     (if py_startswith b ''/'' then b
      else if a = [] \<or> last a = CHR ''/'' then a @ b
      else a @ ''/'' @ b)"

text \<open>\<open>os.path.splitext(p)\<close>: the extension starts at the last dot of the last
  component, unless only dots precede it there.\<close>

definition os_path_splitext :: "path \<Rightarrow> string \<times> string" where
  "os_path_splitext p =
     (let s = py_rfind p CHR ''/''; d = py_rfind p CHR ''.''
      in if s < d \<and> list_ex (\<lambda>c. c \<noteq> CHR ''.'') (take (nat (d - s - 1)) (drop (nat (s + 1)) p))
         then (take (nat d) p, drop (nat d) p)
         else (p, []))"

definition os_path_dirname :: "path \<Rightarrow> path" where
  "os_path_dirname p =
     (let head = take (nat (py_rfind p CHR ''/'' + 1)) p
      in if head \<noteq> [] \<and> list_ex (\<lambda>c. c \<noteq> CHR ''/'') head
         then rev (dropWhile (\<lambda>c. c = CHR ''/'') (rev head)) else head)"

text \<open>\<open>os.path.normpath\<close>, component by component.\<close>

fun norm_comps :: "nat \<Rightarrow> string list \<Rightarrow> string list \<Rightarrow> string list" where
  "norm_comps slashes acc [] = acc"
| "norm_comps slashes acc (c # cs) =
     (if c = [] \<or> c = ''.'' then norm_comps slashes acc cs
      else if c \<noteq> ''..'' \<or> (slashes = 0 \<and> acc = []) \<or> (acc \<noteq> [] \<and> last acc = ''..'')
      then norm_comps slashes (acc @ [c]) cs
      else norm_comps slashes (butlast acc) cs)"

definition os_path_normpath :: "path \<Rightarrow> path" where
  "os_path_normpath p =
     (if p = [] then ''.''
      else
        let slashes = (if py_startswith p ''//'' \<and> \<not> py_startswith p ''///'' then 2
                       else if py_startswith p ''/'' then 1 else 0);
            r = replicate slashes CHR ''/'' @ py_join ''/'' (norm_comps slashes [] (split_slash p))
        in if r = [] then ''.'' else r)"

definition os_path_abspath :: "world \<Rightarrow> path \<Rightarrow> path" where
  "os_path_abspath w p =
     os_path_normpath (if py_startswith p ''/'' then p else os_path_join (w_cwd w) p)"

section \<open>Reading the file system\<close>

definition os_path_exists :: "world \<Rightarrow> path \<Rightarrow> bool" where
  "os_path_exists w p \<longleftrightarrow> w_fs w p \<noteq> None"

definition stat_field :: "(inode \<Rightarrow> timestamp) \<Rightarrow> path \<Rightarrow> timestamp io" where
  "stat_field f p w =
     (case w_fs w p of None \<Rightarrow> (Inl (FileNotFoundError p), w) | Some i \<Rightarrow> (Inr (f i), w))"

abbreviation os_path_getctime :: "path \<Rightarrow> timestamp io" where
  "os_path_getctime \<equiv> stat_field i_ctime"

abbreviation os_path_getmtime :: "path \<Rightarrow> timestamp io" where
  "os_path_getmtime \<equiv> stat_field i_mtime"

abbreviation os_path_getatime :: "path \<Rightarrow> timestamp io" where
  "os_path_getatime \<equiv> stat_field i_atime"

definition file_text :: "world \<Rightarrow> path \<Rightarrow> string option" where
  "file_text w p =
     (case w_fs w p of Some i \<Rightarrow> (case i_kind i of Regular t \<Rightarrow> Some t | Directory \<Rightarrow> None)
                     | None \<Rightarrow> None)"

definition is_dir :: "world \<Rightarrow> path \<Rightarrow> bool" where
  "is_dir w p \<longleftrightarrow> (case w_fs w p of Some i \<Rightarrow> i_kind i = Directory | None \<Rightarrow> False)"

definition is_regular :: "world \<Rightarrow> path \<Rightarrow> bool" where
  "is_regular w p \<longleftrightarrow> file_text w p \<noteq> None"

section \<open>Writing\<close>

text \<open>
  \<open>with open(p, 'a') as f: f.write(s)\<close>. Opening creates a missing file in an existing
  directory (all three times set to the clock); a write of a non-empty string moves the
  modification and change times to the clock; an empty write changes nothing.
\<close>

definition open_append_write :: "path \<Rightarrow> string \<Rightarrow> unit io" where
  "open_append_write p s w =
     (case w_fs w p of
        Some i \<Rightarrow>
          (case i_kind i of
             Directory \<Rightarrow> (Inl (IsADirectoryError p), w)
           | Regular t \<Rightarrow>
               (Inr (), if s = [] then w
                        else w\<lparr>w_fs := (w_fs w)(p \<mapsto> i\<lparr>i_kind := Regular (t @ s),
                                     i_mtime := w_clock w, i_ctime := w_clock w\<rparr>)\<rparr>))
      | None \<Rightarrow>
          if is_dir w (os_path_dirname p)
          then (Inr (), w\<lparr>w_fs := (w_fs w)(p \<mapsto> \<lparr>i_kind = Regular s, i_mtime = w_clock w,
                                          i_ctime = w_clock w, i_atime = w_clock w\<rparr>)\<rparr>)
          else (Inl (FileNotFoundError p), w))"

text \<open>\<open>with open(p, 'w') as f: f.write(s)\<close>: create or truncate, then write.\<close>

definition open_write_write :: "path \<Rightarrow> string \<Rightarrow> unit io" where
  "open_write_write p s w =
     (case w_fs w p of
        Some i \<Rightarrow>
          (case i_kind i of
             Directory \<Rightarrow> (Inl (IsADirectoryError p), w)
           | Regular t \<Rightarrow>
               (Inr (), w\<lparr>w_fs := (w_fs w)(p \<mapsto> i\<lparr>i_kind := Regular s,
                                     i_mtime := w_clock w, i_ctime := w_clock w\<rparr>)\<rparr>))
      | None \<Rightarrow>
          if is_dir w (os_path_dirname p)
          then (Inr (), w\<lparr>w_fs := (w_fs w)(p \<mapsto> \<lparr>i_kind = Regular s, i_mtime = w_clock w,
                                          i_ctime = w_clock w, i_atime = w_clock w\<rparr>)\<rparr>)
          else (Inl (FileNotFoundError p), w))"

definition py_print :: "string \<Rightarrow> unit io" where
  "py_print s w = (Inr (), w\<lparr>w_stdout := w_stdout w @ [s]\<rparr>)"

text \<open>\<open>os.chdir(p)\<close> followed by \<open>os.getcwd()\<close> (no symbolic links in the model).\<close>

definition os_chdir :: "path \<Rightarrow> unit io" where
  "os_chdir p w =
     (let q = os_path_abspath w p
      in case w_fs w q of
           None \<Rightarrow> (Inl (FileNotFoundError p), w)
         | Some i \<Rightarrow> if i_kind i = Directory then (Inr (), w\<lparr>w_cwd := q\<rparr>)
                     else (Inl (NotADirectoryError p), w))"

definition os_getcwd :: "path io" where
  "os_getcwd w = (Inr (w_cwd w), w)"


section \<open>Append-only effects\<close>

text \<open>
  \<open>grows w w'\<close>: every regular file of \<open>w\<close> is still a regular file in \<open>w'\<close> and its
  old text is a prefix of its new text. An action \<open>io_grows\<close> when every run of it,
  successful or not, only grows the world.
\<close>

definition grows :: "world \<Rightarrow> world \<Rightarrow> bool" where
  "grows w w' \<longleftrightarrow> (\<forall>p t. file_text w p = Some t \<longrightarrow> (\<exists>u. file_text w' p = Some (t @ u)))"

definition io_grows :: "'a io \<Rightarrow> bool" where
  "io_grows m \<longleftrightarrow> (\<forall>w. grows w (snd (m w)))"

section \<open>Lemmas\<close>

lemma io_bind_return [simp]: "io_bind (io_return a) f = f a"
  by (simp add: io_bind_def io_return_def fun_eq_iff)

lemma io_bind_raise [simp]: "io_bind (io_raise e) f = io_raise e"
  by (simp add: io_bind_def io_raise_def fun_eq_iff)

lemma io_bind_Inl [simp]: "m w = (Inl e, w') \<Longrightarrow> io_bind m f w = (Inl e, w')"
  by (simp add: io_bind_def)

lemma io_bind_Inr [simp]: "m w = (Inr a, w') \<Longrightarrow> io_bind m f w = f a w'"
  by (simp add: io_bind_def)

lemma io_bind_assoc: "io_bind (io_bind m f) g = io_bind m (\<lambda>x. io_bind (f x) g)"
  by (rule ext) (simp add: io_bind_def split: prod.splits sum.splits)

lemma io_return_apply [simp]: "io_return a w = (Inr a, w)"
  by (simp add: io_return_def)

lemma io_raise_apply [simp]: "io_raise e w = (Inl e, w)"
  by (simp add: io_raise_def)

lemma is_regularE:
  assumes "is_regular w p"
  obtains i t where "w_fs w p = Some i" and "i_kind i = Regular t"
  using assms by (auto simp: is_regular_def file_text_def split: option.splits fkind.splits)

text \<open>Appending to an existing regular file always succeeds.\<close>

lemma open_append_write_regular:
  "is_regular w p \<Longrightarrow> fst (open_append_write p s w) = Inr ()"
  by (erule is_regularE) (simp add: open_append_write_def)

lemma open_append_write_other [simp]:
  "q \<noteq> p \<Longrightarrow> w_fs (snd (open_append_write p s w)) q = w_fs w q"
  by (simp add: open_append_write_def split: option.splits fkind.splits)

lemma open_append_write_clock [simp]:
  "w_clock (snd (open_append_write p s w)) = w_clock w"
  by (simp add: open_append_write_def split: option.splits fkind.splits)

lemma open_append_write_stdout [simp]:
  "w_stdout (snd (open_append_write p s w)) = w_stdout w"
  by (simp add: open_append_write_def split: option.splits fkind.splits)

lemma open_append_write_cwd [simp]:
  "w_cwd (snd (open_append_write p s w)) = w_cwd w"
  by (simp add: open_append_write_def split: option.splits fkind.splits)

lemma open_append_write_keeps_regular:
  "is_regular w p \<Longrightarrow> is_regular (snd (open_append_write p s w)) p"
  by (erule is_regularE) (simp add: open_append_write_def is_regular_def file_text_def)

lemma file_text_append_regular:
  "file_text w p = Some t \<Longrightarrow> file_text (snd (open_append_write p s w)) p = Some (t @ s)"
  by (auto simp: open_append_write_def file_text_def split: option.splits fkind.splits)

lemma os_path_abspath_not_Nil [simp]: "os_path_abspath w p \<noteq> []"
  by (simp add: os_path_abspath_def os_path_normpath_def Let_def)

text \<open>The extension \<open>splitext\<close> returns is empty or a dot followed by no other dot.\<close>

lemma os_path_splitext_ext:
  "snd (os_path_splitext p) = [] \<or>
   (\<exists>ys. snd (os_path_splitext p) = CHR ''.'' # ys \<and> CHR ''.'' \<notin> set ys)"
proof (cases "CHR ''.'' \<in> set p")
  case False
  then show ?thesis
    using py_rfind_bounds [of p "CHR ''/''"]
    by (simp add: os_path_splitext_def Let_def py_rfind_notin)
next
  case True
  then obtain xs ys where p: "p = xs @ CHR ''.'' # ys" and ys: "CHR ''.'' \<notin> set ys"
    using split_list_last by metis
  then show ?thesis
    by (simp add: os_path_splitext_def Let_def py_rfind_last)
qed

lemma file_text_cong: "w_fs w' p = w_fs w p \<Longrightarrow> file_text w' p = file_text w p"
  by (simp add: file_text_def)

lemma file_text_append_other [simp]:
  "q \<noteq> p \<Longrightarrow> file_text (snd (open_append_write p s w)) q = file_text w q"
  by (simp add: file_text_def)

lemma os_path_join_same_dir:
  assumes "\<not> py_startswith a ''/''" and "\<not> py_startswith b ''/''"
  shows "os_path_join d a = os_path_join d b \<longleftrightarrow> a = b"
  using assms by (auto simp: os_path_join_def)

text \<open>Two appends to a regular file have the effect of one append of both texts.\<close>

lemma open_append_write_twice:
  assumes "is_regular w p"
  shows "snd (open_append_write p s2 (snd (open_append_write p s1 w))) =
         snd (open_append_write p (s1 @ s2) w)"
  using assms
proof (rule is_regularE)
  fix i t
  assume "w_fs w p = Some i" and "i_kind i = Regular t"
  then show ?thesis
    by (cases "s1 = []"; cases "s2 = []") (simp_all add: open_append_write_def)
qed

lemma open_append_write_Nil [simp]:
  "is_regular w p \<Longrightarrow> snd (open_append_write p [] w) = w"
  by (erule is_regularE) (simp add: open_append_write_def)


lemma grows_refl [simp]: "grows w w"
  by (auto simp: grows_def)

lemma grows_trans: "grows w1 w2 \<Longrightarrow> grows w2 w3 \<Longrightarrow> grows w1 w3"
  unfolding grows_def by (metis append.assoc)

lemma io_growsD: "io_grows m \<Longrightarrow> m w = (r, w') \<Longrightarrow> grows w w'"
  unfolding io_grows_def by (metis snd_conv)

lemma io_grows_return [simp]: "io_grows (io_return a)"
  by (simp add: io_grows_def)

lemma io_grows_raise [simp]: "io_grows (io_raise e)"
  by (simp add: io_grows_def)

lemma io_grows_bind:
  assumes "io_grows m" and "\<And>a. io_grows (f a)"
  shows "io_grows (io_bind m f)"
  unfolding io_grows_def
proof
  fix w
  obtain r w1 where m: "m w = (r, w1)" by (cases "m w")
  have g1: "grows w w1" using assms(1) m by (rule io_growsD)
  show "grows w (snd (io_bind m f w))"
  proof (cases r)
    case (Inl e)
    then show ?thesis using m g1 by (simp add: io_bind_def)
  next
    case (Inr a)
    then have "io_bind m f w = f a w1" using m by (simp add: io_bind_def)
    moreover have "grows w1 (snd (f a w1))"
      using assms(2) unfolding io_grows_def by blast
    ultimately show ?thesis using g1 by (metis grows_trans)
  qed
qed

lemma io_grows_if [simp]: "io_grows m1 \<Longrightarrow> io_grows m2 \<Longrightarrow> io_grows (if b then m1 else m2)"
  by simp

lemma io_grows_open_append_write [simp]: "io_grows (open_append_write p s)"
  by (auto simp: io_grows_def grows_def open_append_write_def file_text_def
      split: option.splits fkind.splits)

lemma open_write_write_grows:
  "\<not> os_path_exists w p \<Longrightarrow> grows w (snd (open_write_write p s w))"
  by (auto simp: grows_def open_write_write_def file_text_def os_path_exists_def
      split: option.splits fkind.splits)

lemma io_grows_py_print [simp]: "io_grows (py_print s)"
  by (simp add: io_grows_def grows_def py_print_def file_text_def)

lemma io_grows_os_chdir [simp]: "io_grows (os_chdir p)"
  by (simp add: io_grows_def grows_def os_chdir_def file_text_def Let_def split: option.splits)

lemma io_grows_os_getcwd [simp]: "io_grows os_getcwd"
  by (simp add: io_grows_def os_getcwd_def)

lemma io_grows_stat_field [simp]: "io_grows (stat_field f p)"
  by (simp add: io_grows_def stat_field_def split: option.splits)

end
