(* ===== verification/Config.thy ===== *)
theory Config
  imports Calendar World
begin

text \<open>
  The finder object and its constructor, \<open>FilesFinderByDate.__init__\<close>
  (src/files_finder_by_date.py, lines 83--109): the instance attributes as a record,
  the date-window defaults (the default start with the \<open>ValueError\<close> of \<open>now()\<close>
  and the \<open>OverflowError\<close> of the subtraction) and the end-of-day padding, and the
  normalisation of the extension filter. The attribute \<open>_extensions\<close> is assigned only when the
  \<open>extensions\<close> argument is truthy; \<open>ff_extensions = None\<close> records that the
  attribute was never assigned, so that reading it raises \<open>AttributeError\<close>.
\<close>

record finder =
  ff_root :: "path option"
  ff_output_info_to :: "path option"
  ff_start_date :: datetime
  ff_end_date :: datetime
  ff_sort_info :: bool
  ff_extensions :: "string set option"

text \<open>Python truthiness of an optional string and of an optional list.\<close>

definition str_truthy :: "string option \<Rightarrow> bool" where
  "str_truthy s \<longleftrightarrow> (case s of None \<Rightarrow> False | Some x \<Rightarrow> x \<noteq> [])"

definition list_truthy :: "'a list option \<Rightarrow> bool" where
  "list_truthy s \<longleftrightarrow> (case s of None \<Rightarrow> False | Some x \<Rightarrow> x \<noteq> [])"

text \<open>\<open>f"{'.' if not ext.startswith('.') else ''}{ext.lower()}"\<close>.\<close>

definition norm_ext :: "string \<Rightarrow> string" where
  "norm_ext ext = (if \<not> py_startswith ext ''.'' then ''.'' else []) @ py_lower ext"

definition date_format :: "bool \<Rightarrow> string" where
  "date_format include_time = (if \<not> include_time then ''%Y-%m-%d'' else ''%Y-%m-%d %H:%M:%S'')"

text \<open>
  Lines 97--99, the default start: midnight of \<open>datetime.now() - timedelta(days=7)\<close>;
  the \<open>ValueError\<close> of \<open>now()\<close> and the \<open>OverflowError\<close> of the subtraction propagate.
\<close>

definition default_start :: "timestamp \<Rightarrow> py_error + datetime" where
  "default_start clock =
     (case dt_now clock of
        Inl e \<Rightarrow> Inl e
      | Inr now \<Rightarrow>
          (case dt_sub_days now 7 of
             Inl e \<Rightarrow> Inl e
           | Inr d \<Rightarrow> Inr (dt_replace_hmsu 0 0 0 0 d)))"

text \<open>
  The constructor. \<open>datetime.datetime.now()\<close> reads the clock, and is only called
  for a date that is not given; an exception of \<open>strptime\<close> or \<open>now()\<close> propagates
  (start date first).
\<close>

definition init_finder ::
  "world \<Rightarrow> path option \<Rightarrow> string option \<Rightarrow> string option \<Rightarrow> bool \<Rightarrow> path option \<Rightarrow>
   string list option \<Rightarrow> bool \<Rightarrow> py_error + finder" where
  "init_finder w root start_date end_date include_time output_info_to extensions sort_info =
     (let fmt = date_format include_time
      in case (if str_truthy start_date then strptime (the start_date) fmt
               else default_start (w_clock w)) of
           Inl e \<Rightarrow> Inl e
         | Inr sd \<Rightarrow>
             (case (if str_truthy end_date then strptime (the end_date) fmt else dt_now (w_clock w)) of
                Inl e \<Rightarrow> Inl e
              | Inr ed \<Rightarrow>
                  Inr \<lparr>ff_root = root, ff_output_info_to = output_info_to,
                       ff_start_date = sd,
                       ff_end_date = (if \<not> include_time then dt_replace_hms 23 59 59 ed else ed),
                       ff_sort_info = sort_info,
                       ff_extensions = (if list_truthy extensions
                                        then Some (set (map norm_ext (the extensions)))
                                        else None)\<rparr>))"

section \<open>Extension normalisation\<close>

lemma norm_ext_startswith_dot: "py_startswith (norm_ext e) ''.''"
  by (cases e) (auto simp: norm_ext_def py_lower_def py_startswith_def)

lemma norm_ext_lower [simp]: "py_lower (norm_ext e) = norm_ext e"
  by (simp add: norm_ext_def py_lower_def comp_def)


lemma py_startswith_lower_dot [simp]: "py_startswith (py_lower e) ''.'' \<longleftrightarrow> py_startswith e ''.''"
  by (cases e) (simp_all add: py_lower_def)

lemma init_finder_Inr:
  assumes "init_finder w root sd ed inc out exts srt = Inr ff"
  obtains sdt edt where
    "(if str_truthy sd then strptime (the sd) (date_format inc)
      else default_start (w_clock w)) = Inr sdt"
    and "(if str_truthy ed then strptime (the ed) (date_format inc) else dt_now (w_clock w)) = Inr edt"
    and "ff_start_date ff = sdt"
    and "ff_end_date ff = (if \<not> inc then dt_replace_hms 23 59 59 edt else edt)"
    and "ff_extensions ff = (if list_truthy exts then Some (set (map norm_ext (the exts))) else None)"
  using assms that by (auto simp: init_finder_def Let_def split: sum.splits)

lemma init_finder_fields:
  assumes "init_finder w root sd ed inc out exts srt = Inr ff"
  shows "ff_root ff = root \<and> ff_output_info_to ff = out \<and> ff_sort_info ff = srt"
  using assms by (auto simp: init_finder_def Let_def split: sum.splits)

lemma date_format_False: "date_format False = ''%Y-%m-%d''"
  by (simp add: date_format_def)

lemma default_start_eq:
  "default_start t =
     (if \<not> now_ok t then Inl (ValueError ''year must be in 1..9999'')
      else if t < -62134992000000000 then Inl (OverflowError ''result out of range'')
      else Inr (dt_replace_hmsu 0 0 0 0 (dt_minus_days (dt_of_timestamp t) 7)))"
proof (cases "now_ok t")
  case True
  have "0 < t div 86400000000 + epoch_ord - 7 \<longleftrightarrow> -62134992000000000 \<le> t"
    using day_div_ge [of "-719155" t] by linarith
  moreover have "t div 86400000000 + epoch_ord - 7 \<le> 3652059"
    using True by (simp add: now_ok_day)
  ultimately show ?thesis
    using True by (simp add: default_start_def dt_now_eq dt_sub_days_eq dt_of_timestamp_ord)
next
  case False
  then show ?thesis by (simp add: default_start_def dt_now_eq)
qed

lemma default_start_midnight:
  "default_start t = Inr d \<Longrightarrow> dt_hour d = 0 \<and> dt_minute d = 0 \<and> dt_second d = 0 \<and> dt_usec d = 0"
  by (auto simp: default_start_def dt_replace_hmsu_def dt_replace_hms_def split: sum.splits)

text \<open>With neither date given the constructor returns on every clock from 0001-01-08
  to the end of year 9999.\<close>

lemma init_finder_no_dates_Inr:
  "-62134992000000000 \<le> w_clock w \<Longrightarrow> w_clock w < 253402300800000000 \<Longrightarrow>
   \<exists>ff. init_finder w root None None inc out exts srt = Inr ff"
  by (simp add: init_finder_def str_truthy_def Let_def default_start_eq dt_now_eq now_ok_def)

section \<open>Properties of the constructor\<close>

text \<open>
  C11. Extension normalisation is canonical: normalising twice changes nothing, case
  does not matter, and an extension given without its dot normalises like the same
  extension with the dot (so \<open>"TXT"\<close> and \<open>".txt"\<close> select the same files).
\<close>

theorem norm_ext_canonical:
  "norm_ext (norm_ext e) = norm_ext e \<and> norm_ext (py_lower e) = norm_ext e \<and>
   (py_startswith e ''.'' \<or> norm_ext (''.'' @ e) = norm_ext e)"
  by (cases e) (auto simp: norm_ext_def py_lower_def comp_def)

text \<open>
  C12. Without \<open>include_time\<close> the window covers whole days: the lower bound is at
  00:00:00.000000 of its day (parsed or defaulted to seven days ago) and the upper bound
  at 23:59:59 of its day.
\<close>

theorem init_date_only_window:
  assumes "init_finder w root sd ed False out exts srt = Inr ff"
  shows "dt_hour (ff_start_date ff) = 0 \<and> dt_minute (ff_start_date ff) = 0 \<and>
         dt_second (ff_start_date ff) = 0 \<and> dt_usec (ff_start_date ff) = 0 \<and>
         dt_hour (ff_end_date ff) = 23 \<and> dt_minute (ff_end_date ff) = 59 \<and>
         dt_second (ff_end_date ff) = 59"
proof -
  obtain sdt edt where s0: "(if str_truthy sd then strptime (the sd) (date_format False)
      else default_start (w_clock w)) = Inr sdt"
    and "(if str_truthy ed then strptime (the ed) (date_format False) else dt_now (w_clock w)) = Inr edt"
    and st: "ff_start_date ff = sdt" and en0: "ff_end_date ff = (if \<not> False then dt_replace_hms 23 59 59 edt else edt)"
    and "ff_extensions ff = (if list_truthy exts then Some (set (map norm_ext (the exts))) else None)"
    by (rule init_finder_Inr [OF assms])
  have s: "(if str_truthy sd then strptime (the sd) ''%Y-%m-%d''
      else default_start (w_clock w)) = Inr sdt"
    using s0 unfolding date_format_False .
  have en: "ff_end_date ff = dt_replace_hms 23 59 59 edt"
    using en0 by simp
  have "dt_hour sdt = 0 \<and> dt_minute sdt = 0 \<and> dt_second sdt = 0 \<and> dt_usec sdt = 0"
  proof (cases "str_truthy sd")
    case True
    then show ?thesis using s strptime_date_only_midnight by simp
  next
    case False
    then show ?thesis using s default_start_midnight by simp
  qed
  then show ?thesis using st en by (simp add: dt_replace_hms_def)
qed

lemma init_date_only_window_witness:
  "init_finder \<lparr>w_fs = Map.empty, w_clock = 0, w_cwd = ''/'', w_stdout = []\<rparr> None (Some ''2022-01-09'')
     (Some ''2022-01-15'') False None (Some [''md'']) False =
   Inr \<lparr>ff_root = None, ff_output_info_to = None,
        ff_start_date = \<lparr>dt_year = 2022, dt_month = 1, dt_day = 9, dt_hour = 0, dt_minute = 0,
                         dt_second = 0, dt_usec = 0\<rparr>,
        ff_end_date = \<lparr>dt_year = 2022, dt_month = 1, dt_day = 15, dt_hour = 23, dt_minute = 59,
                       dt_second = 59, dt_usec = 0\<rparr>,
        ff_sort_info = False, ff_extensions = Some {''.md''}\<rparr> \<and>
   dt_hour (ff_start_date \<lparr>ff_root = None, ff_output_info_to = None,
        ff_start_date = \<lparr>dt_year = 2022, dt_month = 1, dt_day = 9, dt_hour = 0, dt_minute = 0,
                         dt_second = 0, dt_usec = 0\<rparr>,
        ff_end_date = \<lparr>dt_year = 2022, dt_month = 1, dt_day = 15, dt_hour = 23, dt_minute = 59,
                       dt_second = 59, dt_usec = 0\<rparr>,
        ff_sort_info = False, ff_extensions = Some {''.md''}\<rparr>) = 0"
proof -
  have i: "init_finder \<lparr>w_fs = Map.empty, w_clock = 0, w_cwd = ''/'', w_stdout = []\<rparr> None (Some ''2022-01-09'')
     (Some ''2022-01-15'') False None (Some [''md'']) False =
   Inr \<lparr>ff_root = None, ff_output_info_to = None,
        ff_start_date = \<lparr>dt_year = 2022, dt_month = 1, dt_day = 9, dt_hour = 0, dt_minute = 0,
                         dt_second = 0, dt_usec = 0\<rparr>,
        ff_end_date = \<lparr>dt_year = 2022, dt_month = 1, dt_day = 15, dt_hour = 23, dt_minute = 59,
                       dt_second = 59, dt_usec = 0\<rparr>,
        ff_sort_info = False, ff_extensions = Some {''.md''}\<rparr>"
    by (simp add: init_finder_def date_format_def str_truthy_def list_truthy_def strptime_def
        compile_fmt_date_only valid_datetime_def build_datetime_def field_val_def days_in_month_def
        is_leap_def days_in_month_tab_def digits_val_def norm_ext_def dt_replace_hms_def py_simps)
  show ?thesis using i init_date_only_window [OF i] by simp
qed

text \<open>
  C13. The default end of the window: with no end date and without \<open>include_time\<close>
  (the defaults), the upper bound is not "now", as the spec states, but today at
  23:59:59, keeping the microseconds of the current time.
\<close>

theorem init_default_end_of_day:
  assumes "init_finder w root sd None False out exts srt = Inr ff"
  shows "ff_end_date ff = dt_replace_hms 23 59 59 (dt_of_timestamp (w_clock w))"
proof -
  obtain sdt edt where
    "(if str_truthy sd then strptime (the sd) (date_format False)
      else default_start (w_clock w)) = Inr sdt"
    and e: "(if str_truthy None then strptime (the None) (date_format False)
             else dt_now (w_clock w)) = Inr edt"
    and "ff_start_date ff = sdt" and en: "ff_end_date ff = (if \<not> False then dt_replace_hms 23 59 59 edt else edt)"
    and "ff_extensions ff = (if list_truthy exts then Some (set (map norm_ext (the exts))) else None)"
    by (rule init_finder_Inr [OF assms])
  then show ?thesis by (auto simp: str_truthy_def dt_now_eq split: if_splits)
qed

lemma init_default_end_of_day_witness:
  "\<exists>ff. init_finder \<lparr>w_fs = Map.empty, w_clock = 1642154400000001, w_cwd = ''/'', w_stdout = []\<rparr>
          None None None False None None False = Inr ff \<and>
        ff_end_date ff = \<lparr>dt_year = 2022, dt_month = 1, dt_day = 14, dt_hour = 23, dt_minute = 59,
                          dt_second = 59, dt_usec = 1\<rparr>"
proof -
  let ?w = "\<lparr>w_fs = Map.empty, w_clock = 1642154400000001, w_cwd = ''/'', w_stdout = []\<rparr>"
  let ?now = "dt_of_timestamp 1642154400000001"
  let ?ff = "\<lparr>ff_root = None, ff_output_info_to = None,
              ff_start_date = dt_replace_hmsu 0 0 0 0 (dt_minus_days ?now 7),
              ff_end_date = dt_replace_hms 23 59 59 ?now, ff_sort_info = False, ff_extensions = None\<rparr>"
  have i: "init_finder ?w None None None False None None False = Inr ?ff"
    by (simp add: init_finder_def str_truthy_def list_truthy_def Let_def default_start_eq dt_now_eq now_ok_def)
  have d: "?now =
      \<lparr>dt_year = 2022, dt_month = 1, dt_day = 14, dt_hour = 10, dt_minute = 0, dt_second = 0, dt_usec = 1\<rparr>"
    by (simp add: dt_of_timestamp_def ord2ymd_def Let_def days_before_month_tab_def days_in_month_tab_def)
  have "ff_end_date ?ff = \<lparr>dt_year = 2022, dt_month = 1, dt_day = 14, dt_hour = 23, dt_minute = 59,
                          dt_second = 59, dt_usec = 1\<rparr>"
    using init_default_end_of_day [OF i] d by (simp add: dt_replace_hms_def)
  then show ?thesis using i by blast
qed

text \<open>
  C22. A start date that does not parse is fatal: \<open>__init__\<close> raises the
  \<open>ValueError\<close> of \<open>strptime\<close> before the end date is even read, so no run begins.
\<close>

theorem init_start_parse_error:
  assumes "str_truthy sd" and "strptime (the sd) (date_format inc) = Inl e"
  shows "init_finder w root sd ed inc out exts srt = Inl e"
  using assms by (simp add: init_finder_def Let_def)

lemma init_start_parse_error_witness:
  "str_truthy (Some ''2022-01-14 10:00:00'') \<and>
   strptime ''2022-01-14 10:00:00'' (date_format False) = Inl (ValueError ''unconverted data remains'') \<and>
   init_finder \<lparr>w_fs = Map.empty, w_clock = 0, w_cwd = ''/'', w_stdout = []\<rparr> None
     (Some ''2022-01-14 10:00:00'') (Some ''2022-02-30'') False None None False =
   Inl (ValueError ''unconverted data remains'')"
proof -
  have h: "str_truthy (Some ''2022-01-14 10:00:00'')"
    by (simp add: str_truthy_def)
  have p: "strptime ''2022-01-14 10:00:00'' (date_format False) = Inl (ValueError ''unconverted data remains'')"
    by code_simp
  show ?thesis
    using h p init_start_parse_error [where sd = "Some ''2022-01-14 10:00:00''" and inc = False, OF h]
    by simp
qed

text \<open>
  C23. The run header's dates parse back: \<open>find_files\<close> prints the window's bounds as
  \<open>str(datetime)\<close>; for bounds without microseconds, passing those two strings back to
  \<open>__init__\<close> with \<open>include_time=True\<close> rebuilds exactly the same window.
\<close>

theorem init_header_dates_roundtrip:
  assumes "valid_datetime sd" and "dt_usec sd = 0" and "valid_datetime ed" and "dt_usec ed = 0"
  shows "init_finder w root (Some (dt_str sd)) (Some (dt_str ed)) True out exts srt =
           Inr \<lparr>ff_root = root, ff_output_info_to = out, ff_start_date = sd, ff_end_date = ed,
                ff_sort_info = srt,
                ff_extensions = (if list_truthy exts then Some (set (map norm_ext (the exts))) else None)\<rparr>"
proof -
  have "str_truthy (Some (dt_str sd))" "str_truthy (Some (dt_str ed))"
    by (simp_all add: str_truthy_def dt_str_def)
  then show ?thesis
    using strptime_dt_str [OF assms(1,2)] strptime_dt_str [OF assms(3,4)]
    by (simp add: init_finder_def Let_def date_format_def)
qed

lemma init_header_dates_roundtrip_witness:
  "valid_datetime \<lparr>dt_year = 2022, dt_month = 1, dt_day = 9, dt_hour = 0, dt_minute = 0,
                   dt_second = 0, dt_usec = 0\<rparr> \<and>
   dt_usec \<lparr>dt_year = 2022, dt_month = 1, dt_day = 9, dt_hour = 0, dt_minute = 0,
            dt_second = 0, dt_usec = 0\<rparr> = 0 \<and>
   valid_datetime \<lparr>dt_year = 2022, dt_month = 1, dt_day = 15, dt_hour = 23, dt_minute = 59,
                   dt_second = 59, dt_usec = 0\<rparr> \<and>
   dt_usec \<lparr>dt_year = 2022, dt_month = 1, dt_day = 15, dt_hour = 23, dt_minute = 59,
            dt_second = 59, dt_usec = 0\<rparr> = 0 \<and>
   init_finder \<lparr>w_fs = Map.empty, w_clock = 0, w_cwd = ''/'', w_stdout = []\<rparr> None
     (Some (dt_str \<lparr>dt_year = 2022, dt_month = 1, dt_day = 9, dt_hour = 0, dt_minute = 0,
                    dt_second = 0, dt_usec = 0\<rparr>))
     (Some (dt_str \<lparr>dt_year = 2022, dt_month = 1, dt_day = 15, dt_hour = 23, dt_minute = 59,
                    dt_second = 59, dt_usec = 0\<rparr>)) True None None False =
   Inr \<lparr>ff_root = None, ff_output_info_to = None,
        ff_start_date = \<lparr>dt_year = 2022, dt_month = 1, dt_day = 9, dt_hour = 0, dt_minute = 0,
                         dt_second = 0, dt_usec = 0\<rparr>,
        ff_end_date = \<lparr>dt_year = 2022, dt_month = 1, dt_day = 15, dt_hour = 23, dt_minute = 59,
                       dt_second = 59, dt_usec = 0\<rparr>,
        ff_sort_info = False, ff_extensions = None\<rparr>"
proof -
  have h: "valid_datetime \<lparr>dt_year = 2022, dt_month = 1, dt_day = 9, dt_hour = 0, dt_minute = 0,
                   dt_second = 0, dt_usec = 0\<rparr>"
    "dt_usec \<lparr>dt_year = 2022, dt_month = 1, dt_day = 9, dt_hour = 0, dt_minute = 0,
            dt_second = 0, dt_usec = 0\<rparr> = 0"
    "valid_datetime \<lparr>dt_year = 2022, dt_month = 1, dt_day = 15, dt_hour = 23, dt_minute = 59,
                   dt_second = 59, dt_usec = 0\<rparr>"
    "dt_usec \<lparr>dt_year = 2022, dt_month = 1, dt_day = 15, dt_hour = 23, dt_minute = 59,
            dt_second = 59, dt_usec = 0\<rparr> = 0"
    by (simp_all add: valid_datetime_def days_in_month_def days_in_month_tab_def is_leap_def)
  show ?thesis
    using h init_header_dates_roundtrip [OF h] by (simp add: list_truthy_def)
qed

text \<open>
  C30. The errors of the default constructor: with neither date given,
  \<open>FilesFinderByDate()\<close> raises exactly in these cases. Outside years 1..9999 (a
  clock before 0001-01-01 or from 10000-01-01 on) the first \<open>datetime.now()\<close>
  (line 97) raises \<open>ValueError\<close>; in the first week of year 1 the clock is accepted
  but \<open>now() - timedelta(days=7)\<close> raises \<open>OverflowError\<close>; every other clock
  gives a finder.
\<close>

theorem init_finder_clock_range:
  "init_finder w root None None inc out exts srt = Inl e \<longleftrightarrow>
   (if w_clock w < -62135596800000000 \<or> 253402300800000000 \<le> w_clock w
    then e = ValueError ''year must be in 1..9999''
    else w_clock w < -62134992000000000 \<and> e = OverflowError ''result out of range'')"
  by (auto simp: init_finder_def str_truthy_def Let_def default_start_eq dt_now_eq now_ok_def)

lemma init_finder_clock_range_witness:
  "init_finder \<lparr>w_fs = Map.empty, w_clock = -62135596800000001, w_cwd = ''/'', w_stdout = []\<rparr>
     None None None False None None False = Inl (ValueError ''year must be in 1..9999'') \<and>
   init_finder \<lparr>w_fs = Map.empty, w_clock = 253402300800000000, w_cwd = ''/'', w_stdout = []\<rparr>
     None None None False None None False = Inl (ValueError ''year must be in 1..9999'') \<and>
   init_finder \<lparr>w_fs = Map.empty, w_clock = -62134992000000001, w_cwd = ''/'', w_stdout = []\<rparr>
     None None None False None None False = Inl (OverflowError ''result out of range'') \<and>
   (\<forall>e. init_finder \<lparr>w_fs = Map.empty, w_clock = -62134992000000000, w_cwd = ''/'', w_stdout = []\<rparr>
     None None None False None None False \<noteq> Inl e)"
  using init_finder_clock_range [of "\<lparr>w_fs = Map.empty, w_clock = -62135596800000001, w_cwd = ''/'', w_stdout = []\<rparr>"]
    init_finder_clock_range [of "\<lparr>w_fs = Map.empty, w_clock = 253402300800000000, w_cwd = ''/'', w_stdout = []\<rparr>"]
    init_finder_clock_range [of "\<lparr>w_fs = Map.empty, w_clock = -62134992000000001, w_cwd = ''/'', w_stdout = []\<rparr>"]
    init_finder_clock_range [of "\<lparr>w_fs = Map.empty, w_clock = -62134992000000000, w_cwd = ''/'', w_stdout = []\<rparr>"]
  by simp

end
