(* ===== verification/Walker.thy ===== *)
theory Walker
  imports Config
begin

text \<open>
  The traversal, \<open>FilesFinderByDate._walker\<close> (src/files_finder_by_date.py, lines
  111--142). \<open>os.walk\<close> yields triples \<open>(root, dirs, files)\<close> in an order the
  operating system chooses; the model takes that listing as its argument. The two
  bounds are first converted by \<open>timestamp()\<close> (\<open>walker_window\<close>), which raises
  \<open>ValueError\<close> for a bound on 0001-01-01 (\<open>window_ok\<close> excludes it). For every
  listed file the body re-checks existence, reads the three timestamps, applies the
  extension filter (reading \<open>self._extensions\<close>, which raises \<open>AttributeError\<close> when
  the constructor never assigned it), applies the open-interval date rule, and on a
  match counts it, keeps the tuple when sorting was asked for, and appends one line to
  the report file. The loop state (\<open>files_founded\<close>, \<open>files_list\<close>) is a record.
\<close>

type_synonym match_tuple = "path \<times> timestamp \<times> timestamp \<times> timestamp"

record wstate =
  ws_found :: nat
  ws_list :: "match_tuple list"

definition in_window :: "timestamp \<Rightarrow> timestamp \<Rightarrow> timestamp \<Rightarrow> bool" where
  "in_window lo hi t \<longleftrightarrow> lo < t \<and> t < hi"

definition date_match :: "timestamp \<Rightarrow> timestamp \<Rightarrow> timestamp \<Rightarrow> timestamp \<Rightarrow> timestamp \<Rightarrow> bool" where
  "date_match lo hi mtime ctime atime \<longleftrightarrow>
     in_window lo hi mtime \<or> in_window lo hi ctime \<or> in_window lo hi atime"

definition file_ext :: "path \<Rightarrow> string" where
  "file_ext fp = py_lower (snd (os_path_splitext fp))"

text \<open>The line appended to \<open>founded_table.txt\<close> for one match.\<close>

fun table_line :: "match_tuple \<Rightarrow> string" where
  "table_line (fp, mtime, ctime, atime) =
     ''file='' @ fp @ '' | mtime='' @ ctime_str mtime @ '' | ctime='' @ ctime_str ctime @
     '' | atime='' @ ctime_str atime @ ''\<newline>''"

text \<open>The loop body from \<open>if not os.path.exists(file_path)\<close> on.\<close>

definition walk_path ::
  "finder \<Rightarrow> path \<Rightarrow> timestamp \<Rightarrow> timestamp \<Rightarrow> path \<Rightarrow> wstate \<Rightarrow> wstate io" where
  "walk_path ff write_file lo hi fp st w =
     (if \<not> os_path_exists w fp then (Inr st, w)
      else
        io_bind (os_path_getctime fp) (\<lambda>ctime.
        io_bind (os_path_getmtime fp) (\<lambda>mtime.
        io_bind (os_path_getatime fp) (\<lambda>atime.
          case ff_extensions ff of
            None \<Rightarrow> io_raise (AttributeError ''_extensions'')
          | Some exts \<Rightarrow>
              if exts \<noteq> {} \<and> file_ext fp \<notin> exts then io_return st
              else if date_match lo hi mtime ctime atime then
                io_bind (open_append_write write_file (table_line (fp, mtime, ctime, atime)))
                  (\<lambda>_. io_return
                     (st\<lparr>ws_found := Suc (ws_found st),
                         ws_list := (if ff_sort_info ff then ws_list st @ [(fp, mtime, ctime, atime)]
                                     else ws_list st)\<rparr>))
              else io_return st))) w)"

fun walk_files ::
  "finder \<Rightarrow> path \<Rightarrow> timestamp \<Rightarrow> timestamp \<Rightarrow> path \<Rightarrow> string list \<Rightarrow> wstate \<Rightarrow> wstate io" where
  "walk_files ff write_file lo hi root [] st = io_return st"
| "walk_files ff write_file lo hi root (file # files) st =
     io_bind (walk_path ff write_file lo hi (os_path_join root file) st)
       (walk_files ff write_file lo hi root files)"

fun walk_dirs ::
  "finder \<Rightarrow> path \<Rightarrow> timestamp \<Rightarrow> timestamp \<Rightarrow> (path \<times> string list \<times> string list) list \<Rightarrow>
   wstate \<Rightarrow> wstate io" where
  "walk_dirs ff write_file lo hi [] st = io_return st"
| "walk_dirs ff write_file lo hi ((root, dirs, files) # rest) st =
     io_bind (walk_files ff write_file lo hi root files st) (walk_dirs ff write_file lo hi rest)"

text \<open>Lines 113--114: the bounds as timestamps; \<open>timestamp()\<close> may raise.\<close>

definition walker_window :: "finder \<Rightarrow> (timestamp \<times> timestamp) io" where
  "walker_window ff =
     io_bind (io_sum (dt_timestamp_py (ff_start_date ff))) (\<lambda>start_date.
     io_bind (io_sum (dt_timestamp_py (ff_end_date ff))) (\<lambda>end_date.
     io_return (start_date, end_date)))"

definition walker ::
  "finder \<Rightarrow> path \<Rightarrow> (path \<times> string list \<times> string list) list \<Rightarrow>
   (nat \<times> match_tuple list option) io" where
  "walker ff write_file listing =
     io_bind (walker_window ff) (\<lambda>(lo, hi).
       io_bind (walk_dirs ff write_file lo hi listing \<lparr>ws_found = 0, ws_list = []\<rparr>)
         (\<lambda>st. io_return (ws_found st, if ff_sort_info ff then Some (ws_list st) else None)))"


section \<open>The walk as one loop over paths, and what it reports\<close>

text \<open>
  The two nested \<open>for\<close> loops visit the paths \<open>os.path.join(root, file)\<close> in listing
  order; \<open>walk_paths\<close> is that flattened loop.
\<close>

fun walk_paths ::
  "finder \<Rightarrow> path \<Rightarrow> timestamp \<Rightarrow> timestamp \<Rightarrow> path list \<Rightarrow> wstate \<Rightarrow> wstate io" where
  "walk_paths ff write_file lo hi [] st = io_return st"
| "walk_paths ff write_file lo hi (fp # fps) st =
     io_bind (walk_path ff write_file lo hi fp st) (walk_paths ff write_file lo hi fps)"

definition listed_paths :: "(path \<times> string list \<times> string list) list \<Rightarrow> path list" where
  "listed_paths listing = concat (map (\<lambda>(root, dirs, files). map (os_path_join root) files) listing)"

text \<open>
  A path is reported when it exists, its extension passes the filter (an empty set
  passes everything) and one of its timestamps lies strictly inside the window;
  \<open>tuple_of\<close> is the tuple the code builds for it.
\<close>

definition walk_hit :: "finder \<Rightarrow> timestamp \<Rightarrow> timestamp \<Rightarrow> world \<Rightarrow> path \<Rightarrow> bool" where
  "walk_hit ff lo hi w fp \<longleftrightarrow>
     (case w_fs w fp of
        None \<Rightarrow> False
      | Some i \<Rightarrow>
          (case ff_extensions ff of None \<Rightarrow> False | Some exts \<Rightarrow> exts = {} \<or> file_ext fp \<in> exts) \<and>
          date_match lo hi (i_mtime i) (i_ctime i) (i_atime i))"

definition tuple_of :: "world \<Rightarrow> path \<Rightarrow> match_tuple" where
  "tuple_of w fp =
     (case w_fs w fp of None \<Rightarrow> (fp, 0, 0, 0) | Some i \<Rightarrow> (fp, i_mtime i, i_ctime i, i_atime i))"

text \<open>The tuples the walk reports, in listing order, for the finder's own window.\<close>

definition window_lo :: "finder \<Rightarrow> timestamp" where
  "window_lo ff = dt_timestamp (ff_start_date ff)"

definition window_hi :: "finder \<Rightarrow> timestamp" where
  "window_hi ff = dt_timestamp (ff_end_date ff)"

text \<open>Both bounds have a \<open>timestamp()\<close>: neither is on 0001-01-01.\<close>

definition window_ok :: "finder \<Rightarrow> bool" where
  "window_ok ff \<longleftrightarrow> timestamp_ok (ff_start_date ff) \<and> timestamp_ok (ff_end_date ff)"

definition reported :: "finder \<Rightarrow> world \<Rightarrow> (path \<times> string list \<times> string list) list \<Rightarrow> match_tuple list" where
  "reported ff w listing =
     map (tuple_of w) (filter (walk_hit ff (window_lo ff) (window_hi ff) w) (listed_paths listing))"

text \<open>
  The loop state's invariant: with sorting on, \<open>files_founded\<close> counts the kept
  tuples; with sorting off, no tuple is kept.
\<close>

definition wstate_inv :: "finder \<Rightarrow> wstate \<Rightarrow> bool" where
  "wstate_inv ff st \<longleftrightarrow>
     (if ff_sort_info ff then ws_found st = length (ws_list st) else ws_list st = [])"

text \<open>
  A small configuration used by the witnesses: the window is the first ten seconds of
  1970, only \<open>.md\<close> files are wanted, and \<open>/out/founded_table.txt\<close> already holds a
  header. In \<open>/d\<close>, \<open>a.md\<close> was modified inside the window, \<open>b.txt\<close> has the
  wrong extension, \<open>c.md\<close> has all three timestamps on the upper bound, and
  \<open>gone.md\<close> is listed but was deleted before the walk reached it.
\<close>

definition ex_finder :: finder where
  "ex_finder =
     \<lparr>ff_root = Some ''/d'', ff_output_info_to = Some ''/out'',
      ff_start_date = \<lparr>dt_year = 1970, dt_month = 1, dt_day = 1, dt_hour = 0, dt_minute = 0,
                       dt_second = 0, dt_usec = 0\<rparr>,
      ff_end_date = \<lparr>dt_year = 1970, dt_month = 1, dt_day = 1, dt_hour = 0, dt_minute = 0,
                     dt_second = 10, dt_usec = 0\<rparr>,
      ff_sort_info = True, ff_extensions = Some {''.md''}\<rparr>"

definition ex_inode :: "fkind \<Rightarrow> timestamp \<Rightarrow> timestamp \<Rightarrow> timestamp \<Rightarrow> inode" where
  "ex_inode k m c a = \<lparr>i_kind = k, i_mtime = m, i_ctime = c, i_atime = a\<rparr>"

definition ex_world :: world where
  "ex_world =
     \<lparr>w_fs = [''/d'' \<mapsto> ex_inode Directory 0 0 0,
              ''/d/a.md'' \<mapsto> ex_inode (Regular []) 5000000 0 20000000,
              ''/d/b.txt'' \<mapsto> ex_inode (Regular []) 5000000 5000000 5000000,
              ''/d/c.md'' \<mapsto> ex_inode (Regular []) 10000000 10000000 10000000,
              ''/out'' \<mapsto> ex_inode Directory 0 0 0,
              ''/out/founded_table.txt'' \<mapsto> ex_inode (Regular ''H'') 0 0 0],
      w_clock = 30000000, w_cwd = ''/'', w_stdout = []\<rparr>"

definition ex_listing :: "(path \<times> string list \<times> string list) list" where
  "ex_listing = [(''/d'', [], [''a.md'', ''b.txt'', ''c.md'', ''gone.md''])]"

section \<open>Lemmas\<close>

lemma walk_paths_append:
  "walk_paths ff rf lo hi (xs @ ys) =
     (\<lambda>st. io_bind (walk_paths ff rf lo hi xs st) (walk_paths ff rf lo hi ys))"
proof (induction xs)
  case Nil
  show ?case by (simp add: fun_eq_iff)
next
  case (Cons fp xs)
  show ?case by (rule ext) (simp add: Cons.IH io_bind_assoc)
qed

lemma walk_files_paths:
  "walk_files ff rf lo hi root files = walk_paths ff rf lo hi (map (os_path_join root) files)"
proof (induction files)
  case Nil
  show ?case by (simp add: fun_eq_iff)
next
  case (Cons name files)
  show ?case by (rule ext) (simp add: Cons.IH)
qed

lemma walk_dirs_paths:
  "walk_dirs ff rf lo hi listing = walk_paths ff rf lo hi (listed_paths listing)"
proof (induction listing)
  case Nil
  then show ?case by (simp add: listed_paths_def fun_eq_iff)
next
  case (Cons entry listing)
  obtain root dirs files where "entry = (root, dirs, files)"
    by (cases entry) blast
  then show ?case
    by (intro ext) (simp add: Cons.IH listed_paths_def walk_files_paths walk_paths_append)
qed

lemma walk_hit_cong: "w_fs w' fp = w_fs w fp \<Longrightarrow> walk_hit ff lo hi w' fp = walk_hit ff lo hi w fp"
  by (simp add: walk_hit_def)

lemma tuple_of_cong: "w_fs w' fp = w_fs w fp \<Longrightarrow> tuple_of w' fp = tuple_of w fp"
  by (simp add: tuple_of_def)

text \<open>One step of the loop, with the extension attribute assigned.\<close>

lemma walk_path_step:
  assumes "ff_extensions ff = Some exts" and "is_regular w rf" and "fp \<noteq> rf"
  shows "walk_path ff rf lo hi fp st w =
           (if walk_hit ff lo hi w fp
            then (Inr (st\<lparr>ws_found := Suc (ws_found st),
                          ws_list := ws_list st @ (if ff_sort_info ff then [tuple_of w fp] else [])\<rparr>),
                  snd (open_append_write rf (table_line (tuple_of w fp)) w))
            else (Inr st, w))"
proof (cases "w_fs w fp")
  case None
  then show ?thesis by (simp add: walk_path_def os_path_exists_def walk_hit_def)
next
  case (Some i)
  let ?t = "(fp, i_mtime i, i_ctime i, i_atime i)"
  obtain w1 where ok: "open_append_write rf (table_line ?t) w = (Inr (), w1)"
    using open_append_write_regular [OF assms(2), of "table_line ?t"] by (metis prod.collapse)
  have body: "walk_path ff rf lo hi fp st w =
     (if exts \<noteq> {} \<and> file_ext fp \<notin> exts then (Inr st, w)
      else if date_match lo hi (i_mtime i) (i_ctime i) (i_atime i) then
        io_bind (open_append_write rf (table_line ?t))
          (\<lambda>_. io_return (st\<lparr>ws_found := Suc (ws_found st),
                 ws_list := (if ff_sort_info ff then ws_list st @ [?t] else ws_list st)\<rparr>)) w
      else (Inr st, w))"
    using Some assms(1)
    by (simp add: walk_path_def os_path_exists_def stat_field_def io_bind_def del: table_line.simps)
  have hit: "walk_hit ff lo hi w fp \<longleftrightarrow>
      \<not> (exts \<noteq> {} \<and> file_ext fp \<notin> exts) \<and> date_match lo hi (i_mtime i) (i_ctime i) (i_atime i)"
    using Some assms(1) by (auto simp: walk_hit_def)
  have tup: "tuple_of w fp = ?t"
    using Some by (simp add: tuple_of_def)
  show ?thesis
    unfolding body hit tup
    by (simp add: io_bind_def ok del: table_line.simps)
qed

text \<open>
  The whole loop, when the report file is an existing regular file that is not itself
  listed: the count grows by the number of hits, the kept tuples are the hits in
  listing order, and the report grows by their lines, exactly as one append of all of
  them would make it grow.
\<close>

lemma walk_paths_correct:
  assumes "ff_extensions ff = Some exts" and "is_regular w rf" and "rf \<notin> set fps"
  shows "walk_paths ff rf lo hi fps st w =
           (Inr (st\<lparr>ws_found := ws_found st + length (filter (walk_hit ff lo hi w) fps),
                    ws_list := ws_list st @ (if ff_sort_info ff
                                             then map (tuple_of w) (filter (walk_hit ff lo hi w) fps)
                                             else [])\<rparr>),
            snd (open_append_write rf
                   (concat (map (table_line \<circ> tuple_of w) (filter (walk_hit ff lo hi w) fps))) w))"
  using assms(2,3)
proof (induction fps arbitrary: st w)
  case Nil
  then show ?case by simp
next
  case (Cons fp fps)
  have fp: "fp \<noteq> rf" and fps: "rf \<notin> set fps" using Cons.prems by auto
  note step = walk_path_step [OF assms(1) Cons.prems(1) fp]
  show ?case
  proof (cases "walk_hit ff lo hi w fp")
    case True
    define line where "line = table_line (tuple_of w fp)"
    define w1 where "w1 = snd (open_append_write rf line w)"
    define st1 where "st1 = st\<lparr>ws_found := Suc (ws_found st),
                         ws_list := ws_list st @ (if ff_sort_info ff then [tuple_of w fp] else [])\<rparr>"
    have same: "w_fs w1 q = w_fs w q" if "q \<in> set fps" for q
      using that fps by (simp add: w1_def) (metis open_append_write_other)
    have hits: "filter (walk_hit ff lo hi w1) fps = filter (walk_hit ff lo hi w) fps"
    proof (rule filter_cong [OF refl])
      fix q
      assume "q \<in> set fps"
      then show "walk_hit ff lo hi w1 q = walk_hit ff lo hi w q"
        by (intro walk_hit_cong same)
    qed
    have tuples: "map (tuple_of w1) xs = map (tuple_of w) xs" if "set xs \<subseteq> set fps" for xs
    proof (rule map_cong [OF refl])
      fix q
      assume "q \<in> set xs"
      with that show "tuple_of w1 q = tuple_of w q"
        by (intro tuple_of_cong same) blast
    qed
    let ?H = "filter (walk_hit ff lo hi w) fps"
    have tup: "map (tuple_of w1) ?H = map (tuple_of w) ?H"
      by (rule tuples) auto
    have lines: "map (table_line \<circ> tuple_of w1) ?H = map (table_line \<circ> tuple_of w) ?H"
      by (metis tup map_map)
    have reg1: "is_regular w1 rf"
      unfolding w1_def using Cons.prems(1) by (rule open_append_write_keeps_regular)
    have first: "walk_path ff rf lo hi fp st w = (Inr st1, w1)"
      using True step by (simp add: st1_def w1_def line_def del: table_line.simps)
    have "walk_paths ff rf lo hi (fp # fps) st w = walk_paths ff rf lo hi fps st1 w1"
      by (simp add: first io_bind_def)
    also have "\<dots> = (Inr (st1\<lparr>ws_found := ws_found st1 + length (filter (walk_hit ff lo hi w) fps),
                         ws_list := ws_list st1 @ (if ff_sort_info ff
                                    then map (tuple_of w) (filter (walk_hit ff lo hi w) fps) else [])\<rparr>),
                     snd (open_append_write rf (concat (map (table_line \<circ> tuple_of w)
                           (filter (walk_hit ff lo hi w) fps))) w1))"
      using Cons.IH [OF reg1 fps, of st1] by (simp only: hits tup lines)
    also have "snd (open_append_write rf (concat (map (table_line \<circ> tuple_of w)
                  (filter (walk_hit ff lo hi w) fps))) w1) =
               snd (open_append_write rf (concat (map (table_line \<circ> tuple_of w)
                  (filter (walk_hit ff lo hi w) (fp # fps)))) w)"
      using True open_append_write_twice [OF Cons.prems(1)]
      by (simp add: w1_def line_def del: table_line.simps)
    finally show ?thesis
      using True by (simp add: st1_def comp_def del: table_line.simps)
  next
    case False
    then have "walk_paths ff rf lo hi (fp # fps) st w = walk_paths ff rf lo hi fps st w"
      using step by (simp add: io_bind_def del: table_line.simps)
    then show ?thesis
      using False Cons.IH [OF Cons.prems(1) fps] by (simp del: table_line.simps)
  qed
qed


lemma walker_window_ok: "window_ok ff \<Longrightarrow> walker_window ff = io_return (window_lo ff, window_hi ff)"
  by (simp add: walker_window_def window_ok_def timestamp_ok_def dt_timestamp_py_def io_sum_def
      window_lo_def window_hi_def fun_eq_iff io_bind_def io_return_def)

lemma walker_unfold:
  assumes "window_ok ff"
  shows "walker ff rf listing =
     io_bind (walk_paths ff rf (window_lo ff) (window_hi ff) (listed_paths listing) \<lparr>ws_found = 0, ws_list = []\<rparr>)
       (\<lambda>st. io_return (ws_found st, if ff_sort_info ff then Some (ws_list st) else None))"
  by (simp add: walker_def walker_window_ok [OF assms] walk_dirs_paths)

text \<open>A bound on 0001-01-01 makes \<open>_walker\<close> raise before the loop, on line 113 or 114.\<close>

lemma walker_not_window_ok:
  "\<not> window_ok ff \<Longrightarrow> walker ff rf listing w = (Inl (ValueError ''year 0 is out of range''), w)"
  by (auto simp: walker_def walker_window_def window_ok_def timestamp_ok_def dt_timestamp_py_def
      io_sum_def io_bind_def io_return_def)

lemma walk_path_no_ext:
  assumes "ff_extensions ff = None"
  shows "walk_path ff rf lo hi fp st w =
           (if os_path_exists w fp then (Inl (AttributeError ''_extensions''), w) else (Inr st, w))"
  using assms by (auto simp: walk_path_def os_path_exists_def stat_field_def io_bind_def)

lemma walk_paths_no_ext:
  assumes "ff_extensions ff = None"
  shows "walk_paths ff rf lo hi fps st w =
           (if list_ex (os_path_exists w) fps then (Inl (AttributeError ''_extensions''), w)
            else (Inr st, w))"
  by (induction fps) (simp_all add: walk_path_no_ext [OF assms] io_bind_def)


lemma io_grows_walk_path [simp]: "io_grows (walk_path ff rf lo hi fp st)"
  unfolding io_grows_def
proof
  fix w
  have "io_grows (io_bind (os_path_getctime fp) (\<lambda>ctime.
          io_bind (os_path_getmtime fp) (\<lambda>mtime.
          io_bind (os_path_getatime fp) (\<lambda>atime.
            case ff_extensions ff of
              None \<Rightarrow> io_raise (AttributeError ''_extensions'')
            | Some exts \<Rightarrow>
                if exts \<noteq> {} \<and> file_ext fp \<notin> exts then io_return st
                else if date_match lo hi mtime ctime atime then
                  io_bind (open_append_write rf (table_line (fp, mtime, ctime, atime)))
                    (\<lambda>_. io_return
                       (st\<lparr>ws_found := Suc (ws_found st),
                           ws_list := (if ff_sort_info ff then ws_list st @ [(fp, mtime, ctime, atime)]
                                       else ws_list st)\<rparr>))
                else io_return st))))"
    by (intro io_grows_bind io_grows_stat_field) (simp split: option.splits add: io_grows_bind)
  then show "grows w (snd (walk_path ff rf lo hi fp st w))"
    unfolding io_grows_def walk_path_def by (simp del: table_line.simps)
qed

lemma io_grows_walk_paths [simp]: "io_grows (walk_paths ff rf lo hi fps st)"
  by (induction fps arbitrary: st) (simp_all add: io_grows_bind)

lemma io_grows_walker [simp]: "io_grows (walker ff rf listing)"
proof (cases "window_ok ff")
  case True
  then show ?thesis by (simp add: walker_unfold io_grows_bind)
next
  case False
  then show ?thesis by (simp add: io_grows_def walker_not_window_ok)
qed

lemma reported_cong:
  assumes "\<And>p. p \<in> set (listed_paths listing) \<Longrightarrow> w_fs w' p = w_fs w p"
  shows "reported (ff\<lparr>ff_root := r, ff_output_info_to := out\<rparr>) w' listing = reported ff w listing"
proof -
  let ?ff = "ff\<lparr>ff_root := r, ff_output_info_to := out\<rparr>"
  have "filter (walk_hit ?ff (window_lo ?ff) (window_hi ?ff) w') (listed_paths listing) =
        filter (walk_hit ff (window_lo ff) (window_hi ff) w) (listed_paths listing)"
    using assms by (intro filter_cong refl) (simp add: walk_hit_def window_lo_def window_hi_def split: option.splits)
  moreover have "map (tuple_of w') (filter (walk_hit ff (window_lo ff) (window_hi ff) w) (listed_paths listing)) =
                 map (tuple_of w) (filter (walk_hit ff (window_lo ff) (window_hi ff) w) (listed_paths listing))"
    using assms by (intro map_cong refl) (simp add: tuple_of_def)
  ultimately show ?thesis by (simp add: reported_def)
qed

lemma walker_run:
  assumes "ff_extensions ff = Some exts" and "is_regular w rf" and "rf \<notin> set (listed_paths listing)"
    and win: "window_ok ff"
  shows "walker ff rf listing w =
           (Inr (length (reported ff w listing),
                 if ff_sort_info ff then Some (reported ff w listing) else None),
            snd (open_append_write rf (concat (map table_line (reported ff w listing))) w))"
  using walk_paths_correct [OF assms(1-3), of "window_lo ff" "window_hi ff" "\<lparr>ws_found = 0, ws_list = []\<rparr>"]
  by (simp add: walker_unfold [OF win] reported_def io_bind_def del: table_line.simps)

lemma walk_hit_update [simp]:
  "walk_hit (ff\<lparr>ff_root := r\<rparr>) = walk_hit ff"
  "walk_hit (ff\<lparr>ff_output_info_to := out\<rparr>) = walk_hit ff"
  "walk_hit (ff\<lparr>ff_sort_info := b\<rparr>) = walk_hit ff"
  by (intro ext; simp add: walk_hit_def split: option.splits)+

lemma reported_update [simp]:
  "reported (ff\<lparr>ff_root := r\<rparr>) w listing = reported ff w listing"
  "reported (ff\<lparr>ff_output_info_to := out\<rparr>) w listing = reported ff w listing"
  "reported (ff\<lparr>ff_sort_info := b\<rparr>) w listing = reported ff w listing"
  by (simp_all add: reported_def window_lo_def window_hi_def)

lemma map_fst_reported:
  "map fst (reported ff w listing) = filter (walk_hit ff (window_lo ff) (window_hi ff) w) (listed_paths listing)"
proof -
  have "map (fst \<circ> tuple_of w) xs = xs" for xs
    by (induction xs) (simp_all add: tuple_of_def split: option.splits)
  then show ?thesis by (simp add: reported_def)
qed

text \<open>What the walk reports on the example: only \<open>a.md\<close>.\<close>

lemma reported_ex:
  "reported ex_finder ex_world ex_listing = [(''/d/a.md'', 5000000, 0, 20000000)]"
  by (simp add: reported_def listed_paths_def os_path_join_def walk_hit_def tuple_of_def
      ex_finder_def ex_world_def ex_listing_def ex_inode_def window_lo_def window_hi_def
      dt_timestamp_def ymd2ord_def days_before_year_def days_before_month_def
      days_before_month_tab_def is_leap_def date_match_def in_window_def file_ext_def
      os_path_splitext_def py_simps)

lemma window_ok_update [simp]:
  "window_ok (ff\<lparr>ff_root := r\<rparr>) = window_ok ff"
  "window_ok (ff\<lparr>ff_output_info_to := out\<rparr>) = window_ok ff"
  "window_ok (ff\<lparr>ff_extensions := e\<rparr>) = window_ok ff"
  "window_ok (ff\<lparr>ff_sort_info := b\<rparr>) = window_ok ff"
  by (simp_all add: window_ok_def)

lemma ex_world_now_ok: "now_ok (w_clock ex_world)"
  by (simp add: now_ok_def ex_world_def)

lemma ex_finder_window_ok: "window_ok ex_finder"
  by (simp add: window_ok_def timestamp_ok_def ex_finder_def ymd2ord_def days_before_year_def
      days_before_month_def days_before_month_tab_def is_leap_def)

lemma ex_world_report_ok:
  "is_regular ex_world ''/out/founded_table.txt''"
  "''/out/founded_table.txt'' \<notin> set (listed_paths ex_listing)"
  by (simp_all add: ex_world_def ex_listing_def ex_inode_def is_regular_def
      file_text_def listed_paths_def os_path_join_def)

lemma walk_path_inv:
  assumes "walk_path ff rf lo hi fp st w = (Inr st', w')" and "wstate_inv ff st"
  shows "wstate_inv ff st'"
  using assms
  by (auto simp: walk_path_def io_bind_def stat_field_def wstate_inv_def
      split: option.splits if_splits sum.splits prod.splits)

lemma walk_paths_inv:
  "walk_paths ff rf lo hi fps st w = (Inr st', w') \<Longrightarrow> wstate_inv ff st \<Longrightarrow> wstate_inv ff st'"
proof (induction fps arbitrary: st w)
  case Nil
  then show ?case by simp
next
  case (Cons fp fps)
  obtain r w1 where r: "walk_path ff rf lo hi fp st w = (r, w1)" by fastforce
  show ?case
  proof (cases r)
    case (Inl e)
    then show ?thesis using Cons.prems r by simp
  next
    case (Inr st1)
    then show ?thesis
      using Cons.prems r Cons.IH [of st1 w1] walk_path_inv [of ff rf lo hi fp st w st1 w1] by simp
  qed
qed

text \<open>The extension \<open>_walker\<close> compares is empty or one dot and no other.\<close>

lemma file_ext_shape:
  "file_ext fp = [] \<or> (\<exists>ys. file_ext fp = CHR ''.'' # ys \<and> CHR ''.'' \<notin> set ys)"
proof -
  from os_path_splitext_ext [of fp] show ?thesis
  proof
    assume "snd (os_path_splitext fp) = []"
    then show ?thesis by (simp add: file_ext_def py_lower_def)
  next
    assume "\<exists>ys. snd (os_path_splitext fp) = CHR ''.'' # ys \<and> CHR ''.'' \<notin> set ys"
    then obtain ys where ys: "snd (os_path_splitext fp) = CHR ''.'' # ys" "CHR ''.'' \<notin> set ys"
      by blast
    then have "file_ext fp = CHR ''.'' # py_lower ys"
      by (simp add: file_ext_def py_lower_def)
    moreover have "CHR ''.'' \<notin> set (py_lower ys)"
      using ys(2) by simp
    ultimately show ?thesis by blast
  qed
qed

text \<open>With the filter set and the report file regular, the loop body never raises,
  whatever it reads, the report file included, and it only touches the report file.\<close>

lemma walk_path_ok:
  assumes ext: "ff_extensions ff = Some exts" and reg: "is_regular w rf"
  shows "(\<exists>st'. fst (walk_path ff rf lo hi fp st w) = Inr st') \<and>
         is_regular (snd (walk_path ff rf lo hi fp st w)) rf \<and>
         (\<forall>q. q \<noteq> rf \<longrightarrow> w_fs (snd (walk_path ff rf lo hi fp st w)) q = w_fs w q) \<and>
         w_stdout (snd (walk_path ff rf lo hi fp st w)) = w_stdout w"
proof (cases "w_fs w fp")
  case None
  then show ?thesis using reg by (simp add: walk_path_def os_path_exists_def)
next
  case (Some i)
  let ?t = "(fp, i_mtime i, i_ctime i, i_atime i)"
  define w1 where "w1 = snd (open_append_write rf (table_line ?t) w)"
  have ok: "open_append_write rf (table_line ?t) w = (Inr (), w1)"
    using open_append_write_regular [OF reg, of "table_line ?t"] unfolding w1_def by (metis prod.collapse)
  have f: "is_regular w1 rf" "\<forall>q. q \<noteq> rf \<longrightarrow> w_fs w1 q = w_fs w q" "w_stdout w1 = w_stdout w"
    using open_append_write_keeps_regular [OF reg, of "table_line ?t"] by (simp_all add: w1_def)
  show ?thesis
    using Some ext reg ok f
    by (simp add: walk_path_def os_path_exists_def stat_field_def io_bind_def del: table_line.simps)
qed

lemma walk_paths_ok:
  assumes ext: "ff_extensions ff = Some exts"
  shows "is_regular w rf \<Longrightarrow>
         (\<exists>st'. fst (walk_paths ff rf lo hi fps st w) = Inr st') \<and>
         is_regular (snd (walk_paths ff rf lo hi fps st w)) rf \<and>
         (\<forall>q. q \<noteq> rf \<longrightarrow> w_fs (snd (walk_paths ff rf lo hi fps st w)) q = w_fs w q) \<and>
         w_stdout (snd (walk_paths ff rf lo hi fps st w)) = w_stdout w"
proof (induction fps arbitrary: st w)
  case Nil
  then show ?case by simp
next
  case (Cons fp fps)
  obtain st1 w1 where p: "walk_path ff rf lo hi fp st w = (Inr st1, w1)"
    using walk_path_ok [OF ext Cons.prems, of lo hi fp st] by (metis prod.collapse)
  have f1: "is_regular w1 rf" "\<forall>q. q \<noteq> rf \<longrightarrow> w_fs w1 q = w_fs w q" "w_stdout w1 = w_stdout w"
    using walk_path_ok [OF ext Cons.prems, of lo hi fp st] p by simp_all
  show ?case
    using Cons.IH [OF f1(1), of st1] p f1 by (simp add: io_bind_def)
qed

lemma walker_ok:
  assumes ext: "ff_extensions ff = Some exts" and reg: "is_regular w rf" and win: "window_ok ff"
  shows "\<exists>n xs. fst (walker ff rf listing w) = Inr (n, if ff_sort_info ff then Some xs else None)"
    and "is_regular (snd (walker ff rf listing w)) rf"
    and "\<And>q. q \<noteq> rf \<Longrightarrow> w_fs (snd (walker ff rf listing w)) q = w_fs w q"
    and "w_stdout (snd (walker ff rf listing w)) = w_stdout w"
proof -
  let ?run = "walk_paths ff rf (window_lo ff) (window_hi ff) (listed_paths listing) \<lparr>ws_found = 0, ws_list = []\<rparr> w"
  obtain st w' where r: "?run = (Inr st, w')"
    using walk_paths_ok [OF ext reg] by (metis prod.collapse)
  have f: "is_regular w' rf" "\<forall>q. q \<noteq> rf \<longrightarrow> w_fs w' q = w_fs w q" "w_stdout w' = w_stdout w"
    using walk_paths_ok [OF ext reg] r by (metis snd_conv)+
  have wk: "walker ff rf listing w = (Inr (ws_found st, if ff_sort_info ff then Some (ws_list st) else None), w')"
    using r by (simp add: walker_unfold [OF win] io_bind_def)
  show "\<exists>n xs. fst (walker ff rf listing w) = Inr (n, if ff_sort_info ff then Some xs else None)"
    using wk by auto
  show "is_regular (snd (walker ff rf listing w)) rf" using wk f by simp
  show "\<And>q. q \<noteq> rf \<Longrightarrow> w_fs (snd (walker ff rf listing w)) q = w_fs w q" using wk f by simp
  show "w_stdout (snd (walker ff rf listing w)) = w_stdout w" using wk f by simp
qed

text \<open>The constructor with neither date given cannot fail; its bounds are midnight
  seven days before now and today at 23:59:59.\<close>

lemma init_finder_default_dates:
  "init_finder w root None None False out exts srt = Inr ff \<Longrightarrow>
   ff_start_date ff = dt_replace_hmsu 0 0 0 0 (dt_minus_days (dt_of_timestamp (w_clock w)) 7) \<and>
   ff_end_date ff = dt_replace_hms 23 59 59 (dt_of_timestamp (w_clock w))"
  by (auto simp: init_finder_def str_truthy_def Let_def default_start_eq dt_now_eq split: if_splits)

section \<open>Properties of the walk\<close>

text \<open>
  C1. Functional behaviour of \<open>_walker\<close>: when the extension attribute is set and the
  report file is an existing regular file that the listing does not contain, the walk
  succeeds, returns as count the number of listed files that exist, pass the extension
  filter and have a timestamp strictly inside the window, returns their tuples in
  listing order when sorting was requested (and \<open>None\<close> otherwise), and its only effect
  on the world is one append of their report lines, in the same order.
\<close>

theorem walker_correct:
  assumes "ff_extensions ff = Some exts" and "is_regular w rf" and "rf \<notin> set (listed_paths listing)"
    and "window_ok ff"
  shows "walker ff rf listing w =
           (Inr (length (reported ff w listing),
                 if ff_sort_info ff then Some (reported ff w listing) else None),
            snd (open_append_write rf (concat (map table_line (reported ff w listing))) w))"
  by (rule walker_run [OF assms])

lemma walker_correct_witness:
  "ff_extensions ex_finder = Some {''.md''} \<and> is_regular ex_world ''/out/founded_table.txt'' \<and>
   ''/out/founded_table.txt'' \<notin> set (listed_paths ex_listing) \<and> window_ok ex_finder \<and>
   fst (walker ex_finder ''/out/founded_table.txt'' ex_listing ex_world) =
     Inr (1, Some [(''/d/a.md'', 5000000, 0, 20000000)])"
proof -
  have hyps: "ff_extensions ex_finder = Some {''.md''}" "is_regular ex_world ''/out/founded_table.txt''"
    "''/out/founded_table.txt'' \<notin> set (listed_paths ex_listing)" "window_ok ex_finder"
    by (simp_all only: ex_world_report_ok ex_finder_window_ok not_False_eq_True) (simp add: ex_finder_def)
  show ?thesis
    using hyps walker_correct [OF hyps] reported_ex by (simp add: ex_finder_def)
qed

text \<open>
  C2. The extension attribute: when the constructor was given no extensions,
  \<open>self._extensions\<close> is never assigned, and the walk raises \<open>AttributeError\<close> at the
  first listed file that still exists (the world as it was, nothing appended); it
  succeeds only when no listed file exists.
\<close>

theorem walker_attribute_error:
  assumes "ff_extensions ff = None" and win: "window_ok ff"
  shows "walker ff rf listing w =
           (if list_ex (os_path_exists w) (listed_paths listing)
            then (Inl (AttributeError ''_extensions''), w)
            else (Inr (0, if ff_sort_info ff then Some [] else None), w))"
  by (simp add: walker_unfold [OF win] walk_paths_no_ext [OF assms(1)] io_bind_def)

lemma walker_attribute_error_witness:
  "ff_extensions (ex_finder\<lparr>ff_extensions := None\<rparr>) = None \<and>
   window_ok (ex_finder\<lparr>ff_extensions := None\<rparr>) \<and>
   walker (ex_finder\<lparr>ff_extensions := None\<rparr>) ''/out/founded_table.txt'' ex_listing ex_world =
     (Inl (AttributeError ''_extensions''), ex_world)"
  using walker_attribute_error [of "ex_finder\<lparr>ff_extensions := None\<rparr>" "''/out/founded_table.txt''"
      ex_listing ex_world] ex_finder_window_ok
  by (simp add: listed_paths_def ex_listing_def os_path_join_def os_path_exists_def ex_world_def)

text \<open>
  C3. The open-interval boundary: a file each of whose three timestamps is at or
  before the lower bound or at or after the upper bound is skipped by the loop body,
  which leaves the loop state and the world unchanged, even when a timestamp equals a
  bound exactly.
\<close>

theorem walk_path_boundary_skip:
  assumes "ff_extensions ff = Some exts" and "w_fs w fp = Some i"
    and "i_mtime i \<le> lo \<or> hi \<le> i_mtime i" and "i_ctime i \<le> lo \<or> hi \<le> i_ctime i"
    and "i_atime i \<le> lo \<or> hi \<le> i_atime i"
  shows "walk_path ff rf lo hi fp st w = (Inr st, w)"
proof -
  have "\<not> date_match lo hi (i_mtime i) (i_ctime i) (i_atime i)"
    using assms(3-5) by (auto simp: date_match_def in_window_def)
  then show ?thesis
    using assms(1,2) by (simp add: walk_path_def os_path_exists_def stat_field_def io_bind_def)
qed

lemma walk_path_boundary_skip_witness:
  "walk_path ex_finder ''/out/founded_table.txt'' 0 10000000 ''/d/c.md'' \<lparr>ws_found = 0, ws_list = []\<rparr> ex_world =
     (Inr \<lparr>ws_found = 0, ws_list = []\<rparr>, ex_world)"
  by (rule walk_path_boundary_skip [where exts = "{''.md''}" and i = "ex_inode (Regular []) 10000000 10000000 10000000"])
    (simp_all add: ex_finder_def ex_world_def ex_inode_def)

text \<open>
  C4. The extension filter: with a non-empty filter, a file whose lower-cased extension
  is not in it is skipped by the loop body whatever its timestamps.
\<close>

theorem walk_path_ext_skip:
  assumes "ff_extensions ff = Some exts" and "exts \<noteq> {}" and "file_ext fp \<notin> exts"
  shows "walk_path ff rf lo hi fp st w = (Inr st, w)"
  using assms
  by (auto simp: walk_path_def os_path_exists_def stat_field_def io_bind_def split: option.splits)

lemma walk_path_ext_skip_witness:
  "walk_path ex_finder ''/out/founded_table.txt'' 0 10000000 ''/d/b.txt'' \<lparr>ws_found = 0, ws_list = []\<rparr> ex_world =
     (Inr \<lparr>ws_found = 0, ws_list = []\<rparr>, ex_world)"
  by (rule walk_path_ext_skip [where exts = "{''.md''}"])
    (simp_all add: ex_finder_def file_ext_def os_path_splitext_def py_simps)

text \<open>
  C19. The loop state's invariant holds of every result of \<open>_walker\<close>, whatever the
  world, the listing and the report file (the report file may even be listed): with
  sorting on it returns the kept tuples and a count equal to their number; with
  sorting off it returns \<open>None\<close>.
\<close>

theorem walker_count_invariant:
  assumes "fst (walker ff rf listing w) = Inr (n, fl)"
  shows "(case fl of None \<Rightarrow> \<not> ff_sort_info ff | Some l \<Rightarrow> ff_sort_info ff \<and> n = length l)"
proof -
  have win: "window_ok ff" using assms walker_not_window_ok [of ff rf listing w] by (cases "window_ok ff") simp_all
  obtain r w' where run: "walk_paths ff rf (window_lo ff) (window_hi ff) (listed_paths listing)
                          \<lparr>ws_found = 0, ws_list = []\<rparr> w = (r, w')"
    by fastforce
  then obtain st where r: "r = Inr st"
    using assms by (cases r) (simp_all add: walker_unfold [OF win] io_bind_def)
  have "wstate_inv ff st"
    using walk_paths_inv run r by (fastforce simp: wstate_inv_def)
  then show ?thesis
    using assms run r by (auto simp: walker_unfold [OF win] io_bind_def wstate_inv_def split: if_splits)
qed

lemma walker_count_invariant_witness:
  "fst (walker ex_finder ''/out/founded_table.txt'' ex_listing ex_world) =
     Inr (1, Some [(''/d/a.md'', 5000000, 0, 20000000)]) \<and>
   (case Some [(''/d/a.md'', 5000000::int, 0::int, 20000000::int)] of
      None \<Rightarrow> \<not> ff_sort_info ex_finder
    | Some l \<Rightarrow> ff_sort_info ex_finder \<and> (1::nat) = length l)"
proof -
  have h: "fst (walker ex_finder ''/out/founded_table.txt'' ex_listing ex_world) =
     Inr (1, Some [(''/d/a.md'', 5000000, 0, 20000000)])"
    using walker_run [of ex_finder "{''.md''}" ex_world] ex_world_report_ok reported_ex ex_finder_window_ok
    by (simp add: ex_finder_def)
  then show ?thesis
    using walker_count_invariant [OF h] by simp
qed

text \<open>
  C20. A filter entry with a dot inside, such as \<open>"tar.gz"\<close>, never selects a file:
  \<open>os.path.splitext\<close> cuts at the last dot, so the extension \<open>_walker\<close> compares
  has at most one dot, at its start.
\<close>

theorem file_ext_inner_dot:
  assumes "CHR ''.'' \<in> set (tl (norm_ext e))"
  shows "file_ext fp \<noteq> norm_ext e"
proof
  assume eq: "file_ext fp = norm_ext e"
  from file_ext_shape [of fp] show False
  proof
    assume "file_ext fp = []"
    then show False
      using eq norm_ext_startswith_dot [of e] by (simp add: py_startswith_def)
  next
    assume "\<exists>ys. file_ext fp = CHR ''.'' # ys \<and> CHR ''.'' \<notin> set ys"
    then obtain ys where "file_ext fp = CHR ''.'' # ys" and "CHR ''.'' \<notin> set ys"
      by blast
    then show False
      using eq assms by (metis list.sel(3))
  qed
qed

lemma file_ext_inner_dot_witness:
  "CHR ''.'' \<in> set (tl (norm_ext ''tar.gz'')) \<and> file_ext ''/d/a.tar.gz'' = ''.gz'' \<and>
   file_ext ''/d/a.tar.gz'' \<noteq> norm_ext ''tar.gz''"
proof -
  have h: "CHR ''.'' \<in> set (tl (norm_ext ''tar.gz''))"
    by (simp add: norm_ext_def py_simps)
  moreover have "file_ext ''/d/a.tar.gz'' = ''.gz''"
    by (simp add: file_ext_def os_path_splitext_def py_simps)
  ultimately show ?thesis
    using file_ext_inner_dot [OF h, of "''/d/a.tar.gz''"] by simp
qed

text \<open>
  C21. The report file reports itself: when the walk reaches the report file (the
  output folder is inside the root, as by default), its extension is selected and its
  modification time, which the run's own header write set to the current time, lies
  inside the window (as with the default window, which ends at 23:59:59 today), the
  loop body counts it and appends a line about the report to the report.
\<close>

theorem walk_path_reports_own_output:
  assumes ext: "ff_extensions ff = Some exts" and sel: "file_ext rf \<in> exts"
    and f: "w_fs w rf = Some i" and k: "i_kind i = Regular t" and m: "in_window lo hi (i_mtime i)"
  shows "walk_path ff rf lo hi rf st w =
           (Inr (st\<lparr>ws_found := Suc (ws_found st),
                    ws_list := (if ff_sort_info ff then ws_list st @ [(rf, i_mtime i, i_ctime i, i_atime i)]
                                else ws_list st)\<rparr>),
            snd (open_append_write rf (table_line (rf, i_mtime i, i_ctime i, i_atime i)) w)) \<and>
         file_text (snd (walk_path ff rf lo hi rf st w)) rf =
           Some (t @ table_line (rf, i_mtime i, i_ctime i, i_atime i))"
proof -
  have "date_match lo hi (i_mtime i) (i_ctime i) (i_atime i)"
    using m by (simp add: date_match_def)
  then show ?thesis
    using ext sel f k
    by (simp add: walk_path_def os_path_exists_def stat_field_def io_bind_def open_append_write_def
        file_text_def del: table_line.simps)
qed

lemma walk_path_reports_own_output_witness:
  "ff_extensions (ex_finder\<lparr>ff_extensions := Some {''.txt''}\<rparr>) = Some {''.txt''} \<and>
   file_ext ''/out/founded_table.txt'' \<in> {''.txt''} \<and>
   w_fs ex_world ''/out/founded_table.txt'' = Some (ex_inode (Regular ''H'') 0 0 0) \<and>
   i_kind (ex_inode (Regular ''H'') 0 0 0) = Regular ''H'' \<and>
   in_window (-1) 10000000 (i_mtime (ex_inode (Regular ''H'') 0 0 0)) \<and>
   file_text (snd (walk_path (ex_finder\<lparr>ff_extensions := Some {''.txt''}\<rparr>) ''/out/founded_table.txt''
                     (-1) 10000000 ''/out/founded_table.txt'' \<lparr>ws_found = 0, ws_list = []\<rparr> ex_world))
     ''/out/founded_table.txt'' = Some (''H'' @ table_line (''/out/founded_table.txt'', 0, 0, 0))"
proof -
  have h: "ff_extensions (ex_finder\<lparr>ff_extensions := Some {''.txt''}\<rparr>) = Some {''.txt''}"
    "file_ext ''/out/founded_table.txt'' \<in> {''.txt''}"
    "w_fs ex_world ''/out/founded_table.txt'' = Some (ex_inode (Regular ''H'') 0 0 0)"
    "i_kind (ex_inode (Regular ''H'') 0 0 0) = Regular ''H''"
    "in_window (-1) 10000000 (i_mtime (ex_inode (Regular ''H'') 0 0 0))"
    by (simp_all add: file_ext_def os_path_splitext_def py_simps ex_world_def ex_inode_def in_window_def)
  then show ?thesis
    using conjunct2 [OF walk_path_reports_own_output [OF h, of "\<lparr>ws_found = 0, ws_list = []\<rparr>"]]
    by (simp add: ex_inode_def del: table_line.simps)
qed

text \<open>
  C29. The default window, as the numbers \<open>_walker\<close> compares with (lines 113--114):
  with neither date given and without \<open>include_time\<close>, the lower bound is midnight
  (UTC) seven days before the day of the clock, and the upper bound is 23:59:59 of that
  day plus the microseconds of the clock, in microseconds since the epoch.
\<close>

theorem default_window_timestamps:
  assumes "init_finder w root None None False out exts srt = Inr ff"
  shows "window_lo ff = (w_clock w div 86400000000 - 7) * 86400000000 \<and>
         window_hi ff = w_clock w div 86400000000 * 86400000000 + 86399000000 + w_clock w mod 1000000"
  using init_finder_default_dates [OF assms]
  by (simp add: window_lo_def window_hi_def dt_timestamp_midnight_minus_days dt_timestamp_replace_hms_of)

lemma default_window_timestamps_witness:
  "\<exists>ff. init_finder \<lparr>w_fs = Map.empty, w_clock = 1642154400000001, w_cwd = ''/'', w_stdout = []\<rparr>
          None None None False None None False = Inr ff \<and>
        window_lo ff = 1641513600000000 \<and> window_hi ff = 1642204799000001"
proof -
  obtain ff where i: "init_finder \<lparr>w_fs = Map.empty, w_clock = 1642154400000001, w_cwd = ''/'', w_stdout = []\<rparr>
          None None None False None None False = Inr ff"
    using init_finder_no_dates_Inr [of "\<lparr>w_fs = Map.empty, w_clock = 1642154400000001, w_cwd = ''/'', w_stdout = []\<rparr>"]
    by simp blast
  show ?thesis using i default_window_timestamps [OF i] by simp
qed

end
