(* ===== verification/Sorter.thy ===== *)
theory Sorter
  imports Walker
begin

text \<open>
  The optional second pass, \<open>FilesFinderByDate._sorter\<close> (src/files_finder_by_date.py,
  lines 144--165): the tuples collected by the walk are sorted with
  \<open>itemgetter(2, 1, 3, 0)\<close> as key, i.e. by creation time, then modification time,
  then access time, then path, with Python's stable \<open>list.sort\<close>; each tuple is
  rendered as a multi-line list entry and as a wide table row, and the two joined
  blocks are appended to the list file and the table file. Python compares the key
  tuples lexicographically, which is the order of \<open>HOL-Library.Product_Lexorder\<close> on
  nested pairs; paths compare as strings (\<open>HOL-Library.List_Lexorder\<close>, by
  character code).
\<close>

fun sort_key_of :: "match_tuple \<Rightarrow> timestamp \<times> timestamp \<times> timestamp \<times> path" where
  "sort_key_of (fp, mtime, ctime, atime) = (ctime, mtime, atime, fp)"

text \<open>\<open>files_list.sort(key=itemgetter(2, 1, 3, 0))\<close>: a stable sort by the key.\<close>

definition sort_files :: "match_tuple list \<Rightarrow> match_tuple list" where
  "sort_files files_list = sort_key sort_key_of files_list"

fun list_entry :: "match_tuple \<Rightarrow> string" where
  "list_entry (fp, mtime, ctime, atime) =
     ''file: '' @ fp @ ''\<newline>'' @ ''created: '' @ ctime_str ctime @ ''\<newline>'' @
     ''modified: '' @ ctime_str mtime @ ''\<newline>'' @ ''accessed: '' @ ctime_str atime @ ''\<newline>''"

text \<open>The row of the sorted table as the code writes it: \<open>i[2]\<close> under \<open>mtime=\<close>,
  \<open>i[1]\<close> under \<open>ctime=\<close>.\<close>

fun sorted_table_entry :: "match_tuple \<Rightarrow> string" where
  "sorted_table_entry (fp, mtime, ctime, atime) =
     ''file='' @ fp @ ''   |   mtime='' @ ctime_str ctime @ ''   |   ctime='' @ ctime_str mtime @
     ''   |   atime='' @ ctime_str atime"

definition sorter :: "path \<Rightarrow> path \<Rightarrow> match_tuple list \<Rightarrow> unit io" where
  "sorter list_file table_file files_list =
     (let sorted_list = sort_files files_list;
          infos_list = map list_entry sorted_list;
          infos_table = map sorted_table_entry sorted_list
      in io_bind (open_append_write list_file (py_join ''\<newline>'' infos_list @ ''\<newline>\<newline>''))
           (\<lambda>_. open_append_write table_file (py_join ''\<newline>'' infos_table)))"

section \<open>Specification of the order and of a table row\<close>

text \<open>The order the spec asks for, key by key.\<close>

fun key_le :: "match_tuple \<Rightarrow> match_tuple \<Rightarrow> bool" where
  "key_le (p1, m1, c1, a1) (p2, m2, c2, a2) \<longleftrightarrow>
     c1 < c2 \<or> (c1 = c2 \<and> (m1 < m2 \<or> (m1 = m2 \<and> (a1 < a2 \<or> (a1 = a2 \<and> p1 \<le> p2)))))"

text \<open>A row under the legend's labels: the tuple's modification, creation and access
  times in the \<open>mtime=\<close>, \<open>ctime=\<close> and \<open>atime=\<close> columns.\<close>

fun labelled_row :: "string \<Rightarrow> match_tuple \<Rightarrow> string" where
  "labelled_row sep (fp, mtime, ctime, atime) =
     ''file='' @ fp @ sep @ ''mtime='' @ ctime_str mtime @ sep @ ''ctime='' @ ctime_str ctime @
     sep @ ''atime='' @ ctime_str atime"

section \<open>Lemmas\<close>

lemma sort_key_of_le: "sort_key_of x \<le> sort_key_of y \<longleftrightarrow> key_le x y"
  by (cases x; cases y) (auto simp: less_eq_prod_def)

lemma sort_key_of_inj: "sort_key_of x = sort_key_of y \<longleftrightarrow> x = y"
  by (cases x; cases y) auto

lemma sorted_key_le: "sorted (map sort_key_of xs) \<longleftrightarrow> sorted_wrt key_le xs"
  by (simp add: sorted_map sort_key_of_le)

lemma mset_sort_files [simp]: "mset (sort_files xs) = mset xs"
  by (simp add: sort_files_def)

lemma set_sort_files [simp]: "set (sort_files xs) = set xs"
  by (simp add: sort_files_def)

lemma length_sort_files [simp]: "length (sort_files xs) = length xs"
  by (simp add: sort_files_def)


lemma io_grows_sorter [simp]: "io_grows (sorter list_file table_file xs)"
  by (simp add: sorter_def Let_def io_grows_bind)

lemma sorter_run:
  assumes "is_regular w list_file" and "is_regular w table_file" and "list_file \<noteq> table_file"
  shows "sorter list_file table_file xs w =
           (Inr (),
            snd (open_append_write table_file (py_join ''\<newline>'' (map sorted_table_entry (sort_files xs)))
              (snd (open_append_write list_file
                      (py_join ''\<newline>'' (map list_entry (sort_files xs)) @ ''\<newline>\<newline>'') w))))"
proof -
  let ?l = "py_join ''\<newline>'' (map list_entry (sort_files xs)) @ ''\<newline>\<newline>''"
  let ?t = "py_join ''\<newline>'' (map sorted_table_entry (sort_files xs))"
  obtain w1 where r1: "open_append_write list_file ?l w = (Inr (), w1)"
    using open_append_write_regular [OF assms(1)] by (metis prod.collapse)
  have w1: "w_fs w1 table_file = w_fs w table_file"
    using assms(3) open_append_write_other [of table_file list_file ?l w] r1 by simp
  have "is_regular w1 table_file"
    using assms(2) w1 by (simp add: is_regular_def file_text_def)
  then obtain w2 where r2: "open_append_write table_file ?t w1 = (Inr (), w2)"
    using open_append_write_regular by (metis prod.collapse)
  show ?thesis
    by (simp add: sorter_def Let_def io_bind_def r1 r2 del: list_entry.simps sorted_table_entry.simps)
qed


section \<open>Properties of the sorter\<close>

text \<open>
  C5. The order of the sorted reports: the sorted list holds exactly the collected
  tuples (as a multiset), with creation time non-decreasing, equal creation times
  ordered by modification time, then by access time, then by path.
\<close>

theorem sort_files_order:
  "sorted_wrt key_le (sort_files xs) \<and> mset (sort_files xs) = mset xs"
proof -
  have "sorted (map sort_key_of (sort_files xs))"
    by (simp add: sort_files_def)
  then show ?thesis by (simp add: sorted_key_le)
qed

text \<open>
  C6. Any sort meets the model: because the key ends with the whole path and repeats
  the other fields, equal keys mean equal tuples, so every list that is a permutation
  of the collected tuples and ordered by the key is the model's \<open>sort_files\<close>; Python's
  \<open>list.sort\<close> (Timsort) computes exactly this list.
\<close>

theorem sort_files_unique:
  assumes "mset ys = mset xs" and "sorted_wrt key_le ys"
  shows "sort_files xs = ys"
  unfolding sort_files_def
proof (rule properties_for_sort_key)
  show "mset ys = mset xs" by (rule assms(1))
  show "sorted (map sort_key_of ys)" using assms(2) by (simp add: sorted_key_le)
  fix k
  have "filter (\<lambda>x. sort_key_of k = sort_key_of x) zs = filter (HOL.eq k) zs" for zs
    by (simp add: sort_key_of_inj)
  then show "filter (\<lambda>x. sort_key_of k = sort_key_of x) ys = filter (\<lambda>x. sort_key_of k = sort_key_of x) xs"
    using assms(1) by (metis replicate_count_mset_eq_filter_eq)
qed

lemma sort_files_unique_witness:
  "mset [(''a'', 1, 2, 3), (''b'', 1, 5, 3)] = mset [(''b'', 1, 5, 3), (''a'', 1, 2, (3::int))] \<and>
   sorted_wrt key_le [(''a'', 1, 2, 3), (''b'', 1, 5, (3::int))] \<and>
   sort_files [(''b'', 1, 5, 3), (''a'', 1, 2, 3)] = [(''a'', 1, 2, 3), (''b'', 1, 5, 3)]"
proof -
  have m: "mset [(''a'', 1, 2, 3), (''b'', 1, 5, 3)] = mset [(''b'', 1, 5, 3), (''a'', 1, 2, (3::int))]"
    by simp
  have s: "sorted_wrt key_le [(''a'', 1, 2, 3), (''b'', 1, 5, (3::int))]"
    by simp
  show ?thesis
    using sort_files_unique [OF m s] m s by simp
qed

text \<open>
  C7. The columns of the two table reports: a row of \<open>founded_table.txt\<close> shows the
  modification, creation and access times under \<open>mtime=\<close>, \<open>ctime=\<close>, \<open>atime=\<close>, but
  a row of \<open>founded_table_sorted.txt\<close> shows the creation time under \<open>mtime=\<close> and the
  modification time under \<open>ctime=\<close>: it is the labelled row of the tuple with the two
  swapped.
\<close>

theorem table_rows_columns:
  "table_line t = labelled_row '' | '' t @ ''\<newline>'' \<and>
   sorted_table_entry (fp, mtime, ctime, atime) = labelled_row ''   |   '' (fp, ctime, mtime, atime)"
  by (cases t) simp

end
