(* ===== verification/FindFiles.thy ===== *)
theory FindFiles
  imports Sorter
begin

text \<open>
  The run driver, \<open>FilesFinderByDate.find_files\<close> (src/files_finder_by_date.py,
  lines 167--213): it resolves the output folder (against the working directory it
  started in) and the root (by changing into it), reads \<open>datetime.now()\<close> for the
  header (\<open>ValueError\<close> outside years 1..9999), writes the run header to
  \<open>founded_table.txt\<close> (a new file, or appended after three newlines), runs the walk,
  and when sorting was asked for writes the headers of the two sorted reports (the list
  report gets the header without its column legend, \<open>starting_text[:-67]\<close>) and runs
  the sorter; it ends with two lines on stdout. The updated attributes
  \<open>_root\<close> and \<open>_output_info_to\<close> are returned as the new finder.
\<close>

definition table_legend :: string where
  "table_legend = ''     file     |     modified     |'' @ ''     created     |     accessed\<newline>''"

definition starting_text :: "timestamp \<Rightarrow> finder \<Rightarrow> string" where
  "starting_text now ff =
     ''script started at: '' @ dt_str (dt_of_timestamp now) @ ''\<newline>'' @
     ''start date: '' @ dt_str (ff_start_date ff) @ ''\<newline>'' @
     ''end date: '' @ dt_str (ff_end_date ff) @ ''\<newline>'' @ table_legend"

definition list_header :: "string \<Rightarrow> string" where
  "list_header text = py_drop_last 67 text @ ''\<newline>\<newline>''"

text \<open>The pattern the code repeats for each report: create with the header, or
  append three newlines and the header.\<close>

definition write_header :: "path \<Rightarrow> string \<Rightarrow> unit io" where
  "write_header p text w =
     (if \<not> os_path_exists w p then open_write_write p text w
      else open_append_write p (''\<newline>\<newline>\<newline>'' @ text) w)"

text \<open>\<open>datetime.datetime.now()\<close> on line 179; the clock reading it converts is kept,
  and \<open>str()\<close> of it is taken in \<open>starting_text\<close>.\<close>

definition io_now :: "timestamp io" where
  "io_now w = (case dt_now (w_clock w) of Inl e \<Rightarrow> (Inl e, w) | Inr _ \<Rightarrow> (Inr (w_clock w), w))"

definition io_abspath :: "path \<Rightarrow> path io" where
  "io_abspath p w = (Inr (os_path_abspath w p), w)"

definition sort_phase :: "finder \<Rightarrow> path \<Rightarrow> string \<Rightarrow> match_tuple list option \<Rightarrow> unit io" where
  "sort_phase ff out text files_list =
     (if ff_sort_info ff then
        (let write_list_sorted = os_path_join out ''founded_list_sorted.txt'';
             write_table_sorted = os_path_join out ''founded_table_sorted.txt''
         in io_bind (write_header write_list_sorted (list_header text)) (\<lambda>_.
            io_bind (write_header write_table_sorted text) (\<lambda>_.
            sorter write_list_sorted write_table_sorted
              (case files_list of None \<Rightarrow> [] | Some l \<Rightarrow> l))))
      else io_return ())"

text \<open>Lines 168--175: the output folder (made absolute against the starting
  directory), the root (by changing into it) and the output folder's default.\<close>

definition resolve_paths :: "finder \<Rightarrow> (path \<times> path) io" where
  "resolve_paths ff =
     io_bind (if str_truthy (ff_output_info_to ff)
              then io_bind (io_abspath (the (ff_output_info_to ff))) (\<lambda>p. io_return (Some p))
              else io_return (ff_output_info_to ff)) (\<lambda>out0.
     io_bind (if str_truthy (ff_root ff) then os_chdir (the (ff_root ff)) else io_return ()) (\<lambda>_.
     io_bind os_getcwd (\<lambda>root.
     io_bind (io_abspath (if str_truthy out0 then the out0 else root)) (\<lambda>out.
     io_return (root, out)))))"

text \<open>Lines 177--213, once the folders are resolved.\<close>

definition report_run :: "finder \<Rightarrow> path \<Rightarrow> (path \<times> string list \<times> string list) list \<Rightarrow> unit io" where
  "report_run ff out listing =
     (let write_table = os_path_join out ''founded_table.txt''
      in io_bind io_now (\<lambda>now.
         let text = starting_text now ff
         in io_bind (write_header write_table text) (\<lambda>_.
            io_bind (walker ff write_table listing) (\<lambda>(files_founded, files_list).
            io_bind (sort_phase ff out text files_list) (\<lambda>_.
            io_bind (py_print (''Files founded: '' @ nat_str files_founded)) (\<lambda>_.
            py_print (''Output info to: '' @ out @ '' folder'')))))))"

definition find_files :: "finder \<Rightarrow> (path \<times> string list \<times> string list) list \<Rightarrow> finder io" where
  "find_files ff listing =
     io_bind (resolve_paths ff) (\<lambda>(root, out).
       let ff' = ff\<lparr>ff_root := Some root, ff_output_info_to := Some out\<rparr>
       in io_bind (report_run ff' out listing) (\<lambda>_. io_return ff'))"

text \<open>The header write on a report that is an existing regular file or a new file
  in an existing directory.\<close>

definition report_ok :: "world \<Rightarrow> path \<Rightarrow> bool" where
  "report_ok w p \<longleftrightarrow> is_regular w p \<or> (w_fs w p = None \<and> is_dir w (os_path_dirname p))"

definition prev_text :: "world \<Rightarrow> path \<Rightarrow> string" where
  "prev_text w p = (case file_text w p of None \<Rightarrow> [] | Some t \<Rightarrow> t @ ''\<newline>\<newline>\<newline>'')"


section \<open>Lemmas\<close>

lemma io_grows_write_header [simp]: "io_grows (write_header p text)"
  unfolding io_grows_def
proof
  fix w
  show "grows w (snd (write_header p text w))"
  proof (cases "os_path_exists w p")
    case True
    then show ?thesis
      using io_grows_open_append_write by (simp add: write_header_def io_grows_def)
  next
    case False
    then show ?thesis by (simp add: write_header_def open_write_write_grows)
  qed
qed

lemma io_grows_io_now [simp]: "io_grows io_now"
  by (simp add: io_grows_def io_now_def split: sum.splits)

lemma io_now_ok: "now_ok (w_clock w) \<Longrightarrow> io_now w = (Inr (w_clock w), w)"
  by (simp add: io_now_def dt_now_eq)

lemma io_grows_io_abspath [simp]: "io_grows (io_abspath p)"
  by (simp add: io_grows_def io_abspath_def)

lemma io_grows_sort_phase [simp]: "io_grows (sort_phase ff out text fl)"
  by (simp add: sort_phase_def Let_def io_grows_bind)

lemma io_grows_resolve_paths [simp]: "io_grows (resolve_paths ff)"
  by (simp add: resolve_paths_def io_grows_bind)

lemma io_grows_report_run [simp]: "io_grows (report_run ff out listing)"
  unfolding report_run_def Let_def
  by (intro io_grows_bind io_grows_io_now io_grows_write_header io_grows_walker)
    (simp split: prod.splits add: io_grows_bind)

lemma io_grows_find_files: "io_grows (find_files ff listing)"
  unfolding find_files_def Let_def
  by (intro io_grows_bind io_grows_resolve_paths) (simp split: prod.splits add: io_grows_bind)

lemma length_table_legend: "length table_legend = 66"
  by (simp add: table_legend_def)

lemma write_header_effect:
  assumes "report_ok w p"
  obtains w1 where "write_header p text w = (Inr (), w1)"
    and "file_text w1 p = Some (prev_text w p @ text)" and "is_regular w1 p"
    and "\<And>q. q \<noteq> p \<Longrightarrow> w_fs w1 q = w_fs w q"
    and "w_stdout w1 = w_stdout w" and "w_clock w1 = w_clock w" and "w_cwd w1 = w_cwd w"
proof (cases "w_fs w p")
  case None
  with assms have d: "is_dir w (os_path_dirname p)"
    by (auto simp: report_ok_def is_regular_def file_text_def)
  let ?w1 = "w\<lparr>w_fs := (w_fs w)(p \<mapsto> \<lparr>i_kind = Regular text, i_mtime = w_clock w,
                 i_ctime = w_clock w, i_atime = w_clock w\<rparr>)\<rparr>"
  have "write_header p text w = (Inr (), ?w1)"
    using None d by (simp add: write_header_def os_path_exists_def open_write_write_def)
  moreover have "file_text ?w1 p = Some (prev_text w p @ text)"
    using None by (simp add: file_text_def prev_text_def)
  moreover have "is_regular ?w1 p"
    by (simp add: is_regular_def file_text_def)
  ultimately show ?thesis using that by simp
next
  case (Some i)
  with assms obtain t where i: "i_kind i = Regular t"
    by (auto simp: report_ok_def is_regular_def file_text_def split: fkind.splits)
  let ?s = "''\<newline>\<newline>\<newline>'' @ text"
  let ?w1 = "w\<lparr>w_fs := (w_fs w)(p \<mapsto> i\<lparr>i_kind := Regular (t @ ?s),
                 i_mtime := w_clock w, i_ctime := w_clock w\<rparr>)\<rparr>"
  have "write_header p text w = (Inr (), ?w1)"
    using Some i by (simp add: write_header_def os_path_exists_def open_append_write_def)
  moreover have "file_text ?w1 p = Some (prev_text w p @ text)"
    using Some i by (simp add: file_text_def prev_text_def)
  moreover have "is_regular ?w1 p"
    by (simp add: is_regular_def file_text_def)
  ultimately show ?thesis using that by simp
qed

lemma resolve_paths_given_out:
  assumes "ff_root ff = None" and "ff_output_info_to ff = Some out"
    and "py_startswith out ''/''" and "os_path_normpath out = out"
  shows "resolve_paths ff w = (Inr (w_cwd w, out), w)"
proof -
  have abs: "os_path_abspath v out = out" for v
    using assms(3,4) by (simp add: os_path_abspath_def)
  have "str_truthy (Some out)"
    using assms(3) by (auto simp: str_truthy_def py_startswith_def)
  then show ?thesis
    using assms(1,2) by (simp add: resolve_paths_def io_abspath_def abs os_getcwd_def io_bind_def str_truthy_def)
qed

text \<open>The run header on the primary report, then the walk on a listing that does not
  name the report: the report ends with the header and the matches' lines, and nothing
  else changes.\<close>

lemma header_and_walk:
  assumes ext: "ff_extensions ff = Some exts"
    and rep: "report_ok w (os_path_join out ''founded_table.txt'')"
    and notlisted: "os_path_join out ''founded_table.txt'' \<notin> set (listed_paths listing)"
    and win: "window_ok ff"
  obtains w1 w2 where "write_header (os_path_join out ''founded_table.txt'') text w = (Inr (), w1)"
    and "walker ff (os_path_join out ''founded_table.txt'') listing w1 =
           (Inr (length (reported ff w listing),
                 if ff_sort_info ff then Some (reported ff w listing) else None), w2)"
    and "file_text w2 (os_path_join out ''founded_table.txt'') =
           Some (prev_text w (os_path_join out ''founded_table.txt'') @ text @
                 concat (map table_line (reported ff w listing)))"
    and "\<And>q. q \<noteq> os_path_join out ''founded_table.txt'' \<Longrightarrow> w_fs w2 q = w_fs w q"
    and "w_stdout w2 = w_stdout w"
proof -
  define rp where "rp = os_path_join out ''founded_table.txt''"
  define R where "R = reported ff w listing"
  obtain w1 where h: "write_header rp text w = (Inr (), w1)"
    and t1: "file_text w1 rp = Some (prev_text w rp @ text)" and reg: "is_regular w1 rp"
    and other: "\<And>q. q \<noteq> rp \<Longrightarrow> w_fs w1 q = w_fs w q"
    and so1: "w_stdout w1 = w_stdout w"
    using write_header_effect [OF rep [folded rp_def]] by blast
  have R1: "reported ff w1 listing = R"
  proof -
    have "reported (ff\<lparr>ff_root := ff_root ff, ff_output_info_to := ff_output_info_to ff\<rparr>) w1 listing = R"
      unfolding R_def
    proof (rule reported_cong)
      fix p
      assume "p \<in> set (listed_paths listing)"
      then have "p \<noteq> rp" using notlisted by (auto simp: rp_def)
      then show "w_fs w1 p = w_fs w p" by (rule other)
    qed
    then show ?thesis by simp
  qed
  define w2 where "w2 = snd (open_append_write rp (concat (map table_line R)) w1)"
  have walk: "walker ff rp listing w1 = (Inr (length R, if ff_sort_info ff then Some R else None), w2)"
    using walker_run [OF ext reg _ win] notlisted R1 by (simp add: rp_def w2_def del: table_line.simps)
  have t2: "file_text w2 rp = Some (prev_text w rp @ text @ concat (map table_line R))"
    using file_text_append_regular [OF t1] by (simp add: w2_def)
  have o2: "\<And>q. q \<noteq> rp \<Longrightarrow> w_fs w2 q = w_fs w q"
    using other by (simp add: w2_def)
  have so2: "w_stdout w2 = w_stdout w"
    using so1 by (simp add: w2_def)
  show ?thesis
    using h walk t2 o2 so2 unfolding rp_def R_def by (rule that)
qed

text \<open>The report phase without sorting, on a report path that is not listed.\<close>

lemma report_run_unsorted:
  assumes ext: "ff_extensions ff = Some exts" and nosort: "\<not> ff_sort_info ff"
    and rep: "report_ok w (os_path_join out ''founded_table.txt'')"
    and notlisted: "os_path_join out ''founded_table.txt'' \<notin> set (listed_paths listing)"
    and now: "now_ok (w_clock w)" and win: "window_ok ff"
  obtains w' where "report_run ff out listing w = (Inr (), w')"
    and "file_text w' (os_path_join out ''founded_table.txt'') =
           Some (prev_text w (os_path_join out ''founded_table.txt'') @ starting_text (w_clock w) ff @
                 concat (map table_line (reported ff w listing)))"
    and "w_stdout w' = w_stdout w @ [''Files founded: '' @ nat_str (length (reported ff w listing)),
                                     ''Output info to: '' @ out @ '' folder'']"
proof -
  define rp where "rp = os_path_join out ''founded_table.txt''"
  define hdr where "hdr = starting_text (w_clock w) ff"
  define R where "R = reported ff w listing"
  obtain w1 w2 where h: "write_header rp hdr w = (Inr (), w1)"
    and walk0: "walker ff rp listing w1 = (Inr (length R, if ff_sort_info ff then Some R else None), w2)"
    and t2: "file_text w2 rp = Some (prev_text w rp @ hdr @ concat (map table_line R))"
    and so2: "w_stdout w2 = w_stdout w"
    using header_and_walk [OF ext rep notlisted win, of hdr] unfolding rp_def [symmetric] R_def [symmetric]
    by blast
  have walk: "walker ff rp listing w1 = (Inr (length R, None), w2)"
    using walk0 nosort by simp
  have run: "report_run ff out listing w =
      (Inr (), w2\<lparr>w_stdout := w_stdout w2 @ [''Files founded: '' @ nat_str (length R),
                                               ''Output info to: '' @ out @ '' folder'']\<rparr>)"
    using h walk nosort
    by (simp add: report_run_def io_now_ok [OF now] sort_phase_def py_print_def io_bind_def
        rp_def [symmetric] hdr_def [symmetric] del: table_line.simps)
  show ?thesis
    using that [OF run] t2 so2 by (simp add: rp_def hdr_def R_def file_text_def del: table_line.simps)
qed

lemma report_ok_not_dir: "report_ok w p \<Longrightarrow> \<not> is_dir w p"
  by (auto simp: report_ok_def is_dir_def is_regular_def file_text_def split: option.splits fkind.splits)

lemma report_ok_update:
  assumes "report_ok w q" and "\<not> is_dir w p" and "q \<noteq> p"
    and "\<And>x. x \<noteq> p \<Longrightarrow> w_fs w' x = w_fs w x"
  shows "report_ok w' q"
proof -
  have fq: "w_fs w' q = w_fs w q" using assms(3,4) by blast
  show ?thesis
  proof (cases "is_regular w q")
    case True
    then show ?thesis using fq by (simp add: report_ok_def is_regular_def file_text_def)
  next
    case False
    then have n: "w_fs w q = None" and d: "is_dir w (os_path_dirname q)"
      using assms(1) by (auto simp: report_ok_def)
    then have "os_path_dirname q \<noteq> p" using assms(2) by auto
    then have "is_dir w' (os_path_dirname q)" using d assms(4) by (simp add: is_dir_def)
    then show ?thesis using fq n by (simp add: report_ok_def)
  qed
qed

lemma sort_phase_effect:
  assumes sort: "ff_sort_info ff"
    and lp: "report_ok w (os_path_join out ''founded_list_sorted.txt'')"
    and tp: "report_ok w (os_path_join out ''founded_table_sorted.txt'')"
  obtains w' where "sort_phase ff out text (Some xs) w = (Inr (), w')"
    and "file_text w' (os_path_join out ''founded_list_sorted.txt'') =
           Some (prev_text w (os_path_join out ''founded_list_sorted.txt'') @ list_header text @
                 py_join ''\<newline>'' (map list_entry (sort_files xs)) @ ''\<newline>\<newline>'')"
    and "file_text w' (os_path_join out ''founded_table_sorted.txt'') =
           Some (prev_text w (os_path_join out ''founded_table_sorted.txt'') @ text @
                 py_join ''\<newline>'' (map sorted_table_entry (sort_files xs)))"
    and "\<And>q. q \<noteq> os_path_join out ''founded_list_sorted.txt'' \<Longrightarrow>
              q \<noteq> os_path_join out ''founded_table_sorted.txt'' \<Longrightarrow> w_fs w' q = w_fs w q"
    and "w_stdout w' = w_stdout w"
proof -
  define l where "l = os_path_join out ''founded_list_sorted.txt''"
  define t where "t = os_path_join out ''founded_table_sorted.txt''"
  have lt: "l \<noteq> t" by (simp add: l_def t_def os_path_join_same_dir)
  define L where "L = py_join ''\<newline>'' (map list_entry (sort_files xs)) @ ''\<newline>\<newline>''"
  define T where "T = py_join ''\<newline>'' (map sorted_table_entry (sort_files xs))"
  obtain w1 where h1: "write_header l (list_header text) w = (Inr (), w1)"
    and t1: "file_text w1 l = Some (prev_text w l @ list_header text)"
    and o1: "\<And>q. q \<noteq> l \<Longrightarrow> w_fs w1 q = w_fs w q" and s1: "w_stdout w1 = w_stdout w"
    using write_header_effect [OF lp [folded l_def]] by blast
  have tp1: "report_ok w1 t"
    using report_ok_update [OF tp [folded t_def] report_ok_not_dir [OF lp [folded l_def]]] lt o1 by blast
  obtain w2 where h2: "write_header t text w1 = (Inr (), w2)"
    and t2: "file_text w2 t = Some (prev_text w1 t @ text)" and r2: "is_regular w2 t"
    and o2: "\<And>q. q \<noteq> t \<Longrightarrow> w_fs w2 q = w_fs w1 q" and s2: "w_stdout w2 = w_stdout w1"
    using write_header_effect [OF tp1] by blast
  have pt: "prev_text w1 t = prev_text w t"
    using lt by (simp add: prev_text_def file_text_cong [OF o1])
  have tl2: "file_text w2 l = Some (prev_text w l @ list_header text)"
    using lt t1 by (simp add: file_text_cong [OF o2])
  then have r1: "is_regular w2 l" by (simp add: is_regular_def)
  define w3 where "w3 = snd (open_append_write l L w2)"
  define w4 where "w4 = snd (open_append_write t T w3)"
  have run: "sort_phase ff out text (Some xs) w = (Inr (), w4)"
    using h1 h2 sorter_run [OF r1 r2 lt, of xs] sort
    by (simp add: sort_phase_def Let_def io_bind_def l_def [symmetric] t_def [symmetric]
        L_def [symmetric] T_def [symmetric] w3_def [symmetric] w4_def [symmetric])
  have fl: "file_text w4 l = Some (prev_text w l @ list_header text @ L)"
    using file_text_append_regular [OF tl2, of L] lt by (simp add: w4_def w3_def)
  have "file_text w3 t = Some (prev_text w t @ text)"
    using t2 pt lt by (simp add: w3_def)
  then have ft: "file_text w4 t = Some (prev_text w t @ text @ T)"
    by (simp add: w4_def file_text_append_regular)
  have fo: "w_fs w4 q = w_fs w q" if "q \<noteq> l" "q \<noteq> t" for q
    using that o1 o2 by (simp add: w4_def w3_def)
  have so: "w_stdout w4 = w_stdout w"
    using s1 s2 by (simp add: w4_def w3_def)
  show ?thesis
    using that [OF run] fl ft fo so by (simp add: l_def t_def L_def T_def)
qed

lemma report_run_sorted:
  assumes ext: "ff_extensions ff = Some exts" and sort: "ff_sort_info ff"
    and rep: "report_ok w (os_path_join out ''founded_table.txt'')"
    and lp: "report_ok w (os_path_join out ''founded_list_sorted.txt'')"
    and tp: "report_ok w (os_path_join out ''founded_table_sorted.txt'')"
    and notlisted: "os_path_join out ''founded_table.txt'' \<notin> set (listed_paths listing)"
    and now: "now_ok (w_clock w)" and win: "window_ok ff"
  obtains w' where "report_run ff out listing w = (Inr (), w')"
    and "file_text w' (os_path_join out ''founded_table.txt'') =
           Some (prev_text w (os_path_join out ''founded_table.txt'') @ starting_text (w_clock w) ff @
                 concat (map table_line (reported ff w listing)))"
    and "file_text w' (os_path_join out ''founded_list_sorted.txt'') =
           Some (prev_text w (os_path_join out ''founded_list_sorted.txt'') @
                 list_header (starting_text (w_clock w) ff) @
                 py_join ''\<newline>'' (map list_entry (sort_files (reported ff w listing))) @ ''\<newline>\<newline>'')"
    and "file_text w' (os_path_join out ''founded_table_sorted.txt'') =
           Some (prev_text w (os_path_join out ''founded_table_sorted.txt'') @ starting_text (w_clock w) ff @
                 py_join ''\<newline>'' (map sorted_table_entry (sort_files (reported ff w listing))))"
    and "w_stdout w' = w_stdout w @ [''Files founded: '' @ nat_str (length (reported ff w listing)),
                                     ''Output info to: '' @ out @ '' folder'']"
proof -
  define rp where "rp = os_path_join out ''founded_table.txt''"
  define l where "l = os_path_join out ''founded_list_sorted.txt''"
  define t where "t = os_path_join out ''founded_table_sorted.txt''"
  have dist: "l \<noteq> rp" "t \<noteq> rp" by (simp_all add: rp_def l_def t_def os_path_join_same_dir)
  define hdr where "hdr = starting_text (w_clock w) ff"
  define R where "R = reported ff w listing"
  obtain w1 w2 where h: "write_header rp hdr w = (Inr (), w1)"
    and walk0: "walker ff rp listing w1 = (Inr (length R, if ff_sort_info ff then Some R else None), w2)"
    and t2: "file_text w2 rp = Some (prev_text w rp @ hdr @ concat (map table_line R))"
    and o2: "\<And>q. q \<noteq> rp \<Longrightarrow> w_fs w2 q = w_fs w q" and so2: "w_stdout w2 = w_stdout w"
    using header_and_walk [OF ext rep notlisted win, of hdr] unfolding rp_def [symmetric] R_def [symmetric]
    by blast
  have walk: "walker ff rp listing w1 = (Inr (length R, Some R), w2)"
    using walk0 sort by simp
  have nd: "\<not> is_dir w rp" by (rule report_ok_not_dir [OF rep [folded rp_def]])
  have lp2: "report_ok w2 l" by (rule report_ok_update [OF lp [folded l_def] nd dist(1) o2])
  have tp2: "report_ok w2 t" by (rule report_ok_update [OF tp [folded t_def] nd dist(2) o2])
  obtain w3 where s: "sort_phase ff out hdr (Some R) w2 = (Inr (), w3)"
    and fl: "file_text w3 l = Some (prev_text w2 l @ list_header hdr @
                 py_join ''\<newline>'' (map list_entry (sort_files R)) @ ''\<newline>\<newline>'')"
    and ft: "file_text w3 t = Some (prev_text w2 t @ hdr @
                 py_join ''\<newline>'' (map sorted_table_entry (sort_files R)))"
    and o3: "\<And>q. q \<noteq> l \<Longrightarrow> q \<noteq> t \<Longrightarrow> w_fs w3 q = w_fs w2 q"
    and so3: "w_stdout w3 = w_stdout w2"
    using sort_phase_effect [OF sort lp2 [unfolded l_def] tp2 [unfolded t_def], of hdr R]
    unfolding l_def [symmetric] t_def [symmetric] by blast
  have pl: "prev_text w2 l = prev_text w l" and pt: "prev_text w2 t = prev_text w t"
    using dist by (simp_all add: prev_text_def file_text_cong [OF o2])
  have fr: "file_text w3 rp = Some (prev_text w rp @ hdr @ concat (map table_line R))"
  proof -
    have "file_text w3 rp = file_text w2 rp"
      using dist by (intro file_text_cong o3) auto
    then show ?thesis using t2 by simp
  qed
  have so: "w_stdout w3 = w_stdout w"
    using so3 so2 by simp
  have run: "report_run ff out listing w =
      (Inr (), w3\<lparr>w_stdout := w_stdout w3 @ [''Files founded: '' @ nat_str (length R),
                                               ''Output info to: '' @ out @ '' folder'']\<rparr>)"
    using h walk s
    by (simp add: report_run_def io_now_ok [OF now] py_print_def io_bind_def
        rp_def [symmetric] hdr_def [symmetric] del: table_line.simps)
  show ?thesis
    using that [OF run] fr fl ft pl pt so
    by (simp add: rp_def l_def t_def hdr_def R_def file_text_def del: table_line.simps)
qed

lemma find_files_run:
  assumes "resolve_paths ff w = (Inr (root, out), w0)"
    and "report_run (ff\<lparr>ff_root := Some root, ff_output_info_to := Some out\<rparr>) out listing w0 = (r, w')"
  shows "find_files ff listing w =
           ((case r of Inl e \<Rightarrow> Inl e | Inr _ \<Rightarrow> Inr (ff\<lparr>ff_root := Some root, ff_output_info_to := Some out\<rparr>)), w')"
  using assms by (cases r) (simp_all add: find_files_def io_bind_def Let_def)

text \<open>A run on any listing succeeds once the report files can be written; it prints
  the count and the folder last.\<close>

lemma report_run_ok:
  assumes ext: "ff_extensions ff = Some exts"
    and rep: "report_ok w (os_path_join out ''founded_table.txt'')"
    and srt: "ff_sort_info ff \<Longrightarrow> report_ok w (os_path_join out ''founded_list_sorted.txt'') \<and>
                                 report_ok w (os_path_join out ''founded_table_sorted.txt'')"
    and now: "now_ok (w_clock w)" and win: "window_ok ff"
  obtains n w' where "report_run ff out listing w = (Inr (), w')"
    and "w_stdout w' = w_stdout w @ [''Files founded: '' @ nat_str n, ''Output info to: '' @ out @ '' folder'']"
proof -
  define rp where "rp = os_path_join out ''founded_table.txt''"
  define lp where "lp = os_path_join out ''founded_list_sorted.txt''"
  define tp where "tp = os_path_join out ''founded_table_sorted.txt''"
  define hdr where "hdr = starting_text (w_clock w) ff"
  have ne: "lp \<noteq> rp" "tp \<noteq> rp" by (simp_all add: lp_def tp_def rp_def os_path_join_same_dir)
  obtain w1 where h: "write_header rp hdr w = (Inr (), w1)" and reg1: "is_regular w1 rp"
    and o1: "\<And>q. q \<noteq> rp \<Longrightarrow> w_fs w1 q = w_fs w q" and so1: "w_stdout w1 = w_stdout w"
    using write_header_effect [OF rep [folded rp_def]] by blast
  define w2 where "w2 = snd (walker ff rp listing w1)"
  obtain n xs where "fst (walker ff rp listing w1) = Inr (n, if ff_sort_info ff then Some xs else None)"
    using walker_ok(1) [where listing = listing, OF ext reg1 win] by blast
  then have wk: "walker ff rp listing w1 = (Inr (n, if ff_sort_info ff then Some xs else None), w2)"
    unfolding w2_def by (metis prod.collapse)
  have o2: "\<And>q. q \<noteq> rp \<Longrightarrow> w_fs w2 q = w_fs w1 q" and so2: "w_stdout w2 = w_stdout w1"
    unfolding w2_def using walker_ok(3,4) [where listing = listing, OF ext reg1 win] by simp_all
  have nd: "\<not> is_dir w rp" using report_ok_not_dir [OF rep [folded rp_def]] .
  have "\<exists>w3. sort_phase ff out hdr (if ff_sort_info ff then Some xs else None) w2 = (Inr (), w3) \<and>
             w_stdout w3 = w_stdout w2"
  proof (cases "ff_sort_info ff")
    case True
    have o12: "\<And>q. q \<noteq> rp \<Longrightarrow> w_fs w2 q = w_fs w q" using o1 o2 by simp
    have "report_ok w2 lp" "report_ok w2 tp"
      using srt [OF True] report_ok_update [OF _ nd _ o12] ne by (auto simp: lp_def tp_def)
    then obtain w3 where "sort_phase ff out hdr (Some xs) w2 = (Inr (), w3)" "w_stdout w3 = w_stdout w2"
      using sort_phase_effect [OF True, of w2 out hdr xs] by (metis lp_def tp_def)
    then show ?thesis using True by simp
  next
    case False
    then show ?thesis by (simp add: sort_phase_def)
  qed
  then obtain w3 where sp: "sort_phase ff out hdr (if ff_sort_info ff then Some xs else None) w2 = (Inr (), w3)"
    and so3: "w_stdout w3 = w_stdout w2" by blast
  have "report_run ff out listing w =
      (Inr (), w3\<lparr>w_stdout := w_stdout w3 @ [''Files founded: '' @ nat_str n, ''Output info to: '' @ out @ '' folder'']\<rparr>)"
    using h wk sp
    by (simp add: report_run_def io_now_ok [OF now] py_print_def io_bind_def rp_def [symmetric] hdr_def [symmetric])
  then show ?thesis using that so1 so2 so3 by simp
qed

lemma resolve_paths_given_root:
  assumes "ff_root ff = Some r" and "py_startswith r ''/''" and "os_path_normpath r = r" and "is_dir w r"
    and "ff_output_info_to ff = Some out" and "py_startswith out ''/''" and "os_path_normpath out = out"
  shows "resolve_paths ff w = (Inr (r, out), w\<lparr>w_cwd := r\<rparr>)"
proof -
  have abs: "os_path_abspath v r = r" "os_path_abspath v out = out" for v
    using assms(2,3,6,7) by (simp_all add: os_path_abspath_def)
  have "str_truthy (Some r)" "str_truthy (Some out)"
    using assms(2,6) by (auto simp: str_truthy_def py_startswith_def)
  moreover have "os_chdir r w = (Inr (), w\<lparr>w_cwd := r\<rparr>)"
    using assms(4) abs(1) by (auto simp: os_chdir_def is_dir_def split: option.splits)
  ultimately show ?thesis
    using assms(1,5) by (simp add: resolve_paths_def io_abspath_def abs os_getcwd_def io_bind_def str_truthy_def)
qed

text \<open>Resolving the folders only moves the working directory.\<close>

lemma resolve_paths_frame:
  "w_fs (snd (resolve_paths ff w)) = w_fs w \<and> w_clock (snd (resolve_paths ff w)) = w_clock w \<and>
   w_stdout (snd (resolve_paths ff w)) = w_stdout w"
  by (simp add: resolve_paths_def io_bind_def os_chdir_def io_abspath_def os_getcwd_def Let_def
      split: prod.splits sum.splits option.splits if_splits)

text \<open>A run whose walk raises, on a world that differs from the starting one only
  in the primary report, stops with the walk's exception: the report keeps the run
  header and nothing is printed.\<close>

lemma find_files_walker_raises:
  assumes root: "ff_root ff = None"
    and out: "ff_output_info_to ff = Some out" "py_startswith out ''/''" "os_path_normpath out = out"
    and rep: "report_ok w (os_path_join out ''founded_table.txt'')" and now: "now_ok (w_clock w)"
    and walk: "\<And>w1. (\<And>q. q \<noteq> os_path_join out ''founded_table.txt'' \<Longrightarrow> w_fs w1 q = w_fs w q) \<Longrightarrow>
                 walker (ff\<lparr>ff_root := Some (w_cwd w), ff_output_info_to := Some out\<rparr>)
                   (os_path_join out ''founded_table.txt'') listing w1 = (Inl e, w1)"
  shows "fst (find_files ff listing w) = Inl e \<and>
         file_text (snd (find_files ff listing w)) (os_path_join out ''founded_table.txt'') =
           Some (prev_text w (os_path_join out ''founded_table.txt'') @
                 starting_text (w_clock w) (ff\<lparr>ff_root := Some (w_cwd w), ff_output_info_to := Some out\<rparr>)) \<and>
         w_stdout (snd (find_files ff listing w)) = w_stdout w"
proof -
  define ff' where "ff' = ff\<lparr>ff_root := Some (w_cwd w), ff_output_info_to := Some out\<rparr>"
  define rp where "rp = os_path_join out ''founded_table.txt''"
  define hdr where "hdr = starting_text (w_clock w) ff'"
  obtain w1 where h: "write_header rp hdr w = (Inr (), w1)"
    and t1: "file_text w1 rp = Some (prev_text w rp @ hdr)"
    and other: "\<And>q. q \<noteq> rp \<Longrightarrow> w_fs w1 q = w_fs w q" and so1: "w_stdout w1 = w_stdout w"
    using write_header_effect [OF rep [folded rp_def]] by blast
  have wk: "walker ff' rp listing w1 = (Inl e, w1)"
    using walk [of w1] other unfolding ff'_def rp_def by blast
  have "report_run ff' out listing w = (Inl e, w1)"
    using h wk by (simp add: report_run_def io_now_ok [OF now] io_bind_def rp_def [symmetric] hdr_def [symmetric])
  then have "find_files ff listing w = (Inl e, w1)"
    using find_files_run [OF resolve_paths_given_out [OF root out]] by (simp add: ff'_def)
  then show ?thesis
    using t1 so1 by (simp add: rp_def hdr_def ff'_def)
qed

lemma strptime_first_day:
  "strptime ''0001-01-01'' (date_format False) =
     Inr \<lparr>dt_year = 1, dt_month = 1, dt_day = 1, dt_hour = 0, dt_minute = 0, dt_second = 0, dt_usec = 0\<rparr>"
  by (simp add: date_format_def strptime_def compile_fmt_date_only valid_datetime_def build_datetime_def
      field_val_def days_in_month_def is_leap_def days_in_month_tab_def digits_val_def)

section \<open>Properties of the run\<close>

text \<open>
  C8. Reports are only ever appended to: whatever the configuration and whether the run
  succeeds or stops with an exception, every file that was a regular file before the
  run is one afterwards and its old text is a prefix of its new text.
\<close>

theorem find_files_append_only:
  "file_text w p = Some t \<longrightarrow> (\<exists>u. file_text (snd (find_files ff listing w)) p = Some (t @ u))"
  using io_grows_find_files [of ff listing] by (simp add: io_grows_def grows_def)

lemma find_files_append_only_witness:
  "\<exists>u. file_text (snd (find_files ex_finder ex_listing ex_world)) ''/out/founded_table.txt'' = Some (''H'' @ u)"
proof -
  have "file_text ex_world ''/out/founded_table.txt'' = Some ''H''"
    by (simp add: file_text_def ex_world_def ex_inode_def)
  then show ?thesis
    using find_files_append_only [of ex_world "''/out/founded_table.txt''" "''H''" ex_finder ex_listing]
    by blast
qed

text \<open>
  C9. The header of the sorted list report: \<open>starting_text[:-67]\<close> removes exactly
  the 66-character column legend and the newline that ends the end-date line, so the
  list report's header is the three dated lines followed by one blank line.
\<close>

theorem list_header_drops_legend:
  "list_header (starting_text now ff) =
     ''script started at: '' @ dt_str (dt_of_timestamp now) @ ''\<newline>'' @
     ''start date: '' @ dt_str (ff_start_date ff) @ ''\<newline>'' @
     ''end date: '' @ dt_str (ff_end_date ff) @ ''\<newline>\<newline>''"
proof -
  let ?a = "''script started at: '' @ dt_str (dt_of_timestamp now) @ ''\<newline>'' @
     ''start date: '' @ dt_str (ff_start_date ff) @ ''\<newline>'' @ ''end date: '' @ dt_str (ff_end_date ff)"
  have "starting_text now ff = ?a @ (''\<newline>'' @ table_legend)"
    by (simp add: starting_text_def)
  moreover have "length (''\<newline>'' @ table_legend) = 67"
    by (simp add: length_table_legend)
  ultimately have "py_drop_last 67 (starting_text now ff) = ?a"
    by (metis py_drop_last_append)
  then show ?thesis
    by (simp add: list_header_def)
qed


text \<open>
  C10. One run, end to end, with the output folder given as a normalised absolute path,
  no root (the working directory is the root) and no sorting: the run succeeds and
  returns the finder with \<open>_root\<close> and \<open>_output_info_to\<close> resolved;
  \<open>founded_table.txt\<close> in the output folder holds its previous text followed by three
  newlines (or nothing, when it is new), the run header, and exactly the report lines of
  the matching listed files in listing order; stdout gets the count and the folder.
\<close>

theorem find_files_primary_report:
  assumes ext: "ff_extensions ff = Some exts"
    and root: "ff_root ff = None"
    and out: "ff_output_info_to ff = Some out" "py_startswith out ''/''" "os_path_normpath out = out"
    and nosort: "\<not> ff_sort_info ff"
    and rep: "report_ok w (os_path_join out ''founded_table.txt'')"
    and notlisted: "os_path_join out ''founded_table.txt'' \<notin> set (listed_paths listing)"
    and now: "now_ok (w_clock w)" and win: "window_ok ff"
  shows "fst (find_files ff listing w) = Inr (ff\<lparr>ff_root := Some (w_cwd w), ff_output_info_to := Some out\<rparr>) \<and>
         file_text (snd (find_files ff listing w)) (os_path_join out ''founded_table.txt'') =
           Some (prev_text w (os_path_join out ''founded_table.txt'') @
                 starting_text (w_clock w) (ff\<lparr>ff_root := Some (w_cwd w), ff_output_info_to := Some out\<rparr>) @
                 concat (map table_line (reported ff w listing))) \<and>
         w_stdout (snd (find_files ff listing w)) =
           w_stdout w @ [''Files founded: '' @ nat_str (length (reported ff w listing)),
                         ''Output info to: '' @ out @ '' folder'']"
proof -
  define ff' where "ff' = ff\<lparr>ff_root := Some (w_cwd w), ff_output_info_to := Some out\<rparr>"
  have ext': "ff_extensions ff' = Some exts" and nosort': "\<not> ff_sort_info ff'"
    and win': "window_ok ff'"
    using ext nosort win by (simp_all add: ff'_def)
  have R: "reported ff' w listing = reported ff w listing"
    by (simp add: ff'_def)
  obtain w' where run: "report_run ff' out listing w = (Inr (), w')"
    and t: "file_text w' (os_path_join out ''founded_table.txt'') =
           Some (prev_text w (os_path_join out ''founded_table.txt'') @ starting_text (w_clock w) ff' @
                 concat (map table_line (reported ff' w listing)))"
    and so: "w_stdout w' = w_stdout w @ [''Files founded: '' @ nat_str (length (reported ff' w listing)),
                                        ''Output info to: '' @ out @ '' folder'']"
    by (rule report_run_unsorted [OF ext' nosort' rep notlisted now win'])
  have "find_files ff listing w = (Inr ff', w')"
    using find_files_run [OF resolve_paths_given_out [OF root out] run [unfolded ff'_def]]
    by (simp add: ff'_def)
  then show ?thesis
    using t so R by (simp add: ff'_def del: table_line.simps)
qed

lemma find_files_primary_report_witness:
  "ff_extensions (ex_finder\<lparr>ff_root := None, ff_sort_info := False\<rparr>) = Some {''.md''} \<and>
   ff_root (ex_finder\<lparr>ff_root := None, ff_sort_info := False\<rparr>) = None \<and>
   ff_output_info_to (ex_finder\<lparr>ff_root := None, ff_sort_info := False\<rparr>) = Some ''/out'' \<and>
   py_startswith ''/out'' ''/'' \<and> os_path_normpath ''/out'' = ''/out'' \<and>
   \<not> ff_sort_info (ex_finder\<lparr>ff_root := None, ff_sort_info := False\<rparr>) \<and>
   report_ok ex_world (os_path_join ''/out'' ''founded_table.txt'') \<and>
   os_path_join ''/out'' ''founded_table.txt'' \<notin> set (listed_paths ex_listing) \<and>
   now_ok (w_clock ex_world) \<and> window_ok (ex_finder\<lparr>ff_root := None, ff_sort_info := False\<rparr>) \<and>
   w_stdout (snd (find_files (ex_finder\<lparr>ff_root := None, ff_sort_info := False\<rparr>) ex_listing ex_world)) =
     [''Files founded: 1'', ''Output info to: /out folder'']"
proof -
  let ?ff = "ex_finder\<lparr>ff_root := None, ff_sort_info := False\<rparr>"
  have h: "ff_extensions ?ff = Some {''.md''}" "ff_root ?ff = None" "ff_output_info_to ?ff = Some ''/out''"
    "py_startswith ''/out'' ''/''" "os_path_normpath ''/out'' = ''/out''" "\<not> ff_sort_info ?ff"
    "report_ok ex_world (os_path_join ''/out'' ''founded_table.txt'')"
    "os_path_join ''/out'' ''founded_table.txt'' \<notin> set (listed_paths ex_listing)"
    by (simp_all add: ex_finder_def py_simps os_path_normpath_def Let_def report_ok_def
        is_regular_def file_text_def ex_world_def ex_inode_def os_path_join_def listed_paths_def
        ex_listing_def)
  have "length (reported ?ff ex_world ex_listing) = 1"
    by (simp add: reported_def listed_paths_def os_path_join_def walk_hit_def tuple_of_def
        ex_finder_def ex_world_def ex_listing_def ex_inode_def window_lo_def window_hi_def
        dt_timestamp_def ymd2ord_def days_before_year_def days_before_month_def
        days_before_month_tab_def is_leap_def date_match_def in_window_def file_ext_def
        os_path_splitext_def py_simps)
  moreover have "nat_str 1 = ''1''"
    by code_simp
  ultimately show ?thesis
    using h find_files_primary_report [OF h(1-8) ex_world_now_ok] ex_world_now_ok ex_finder_window_ok
    by (simp add: ex_world_def)
qed

text \<open>
  C14. A sorted run, end to end: with sorting on, the two sorted reports get their
  headers (the list report's without the legend) and the reported tuples in sort-key
  order, rendered as list entries joined by newlines and a closing blank line, and as
  sorted-table rows joined by newlines; the primary report is as in an unsorted run.
\<close>

theorem find_files_sorted_reports:
  assumes ext: "ff_extensions ff = Some exts"
    and root: "ff_root ff = None"
    and out: "ff_output_info_to ff = Some out" "py_startswith out ''/''" "os_path_normpath out = out"
    and sort: "ff_sort_info ff"
    and rep: "report_ok w (os_path_join out ''founded_table.txt'')"
    and lp: "report_ok w (os_path_join out ''founded_list_sorted.txt'')"
    and tp: "report_ok w (os_path_join out ''founded_table_sorted.txt'')"
    and notlisted: "os_path_join out ''founded_table.txt'' \<notin> set (listed_paths listing)"
    and now: "now_ok (w_clock w)" and win: "window_ok ff"
  shows "file_text (snd (find_files ff listing w)) (os_path_join out ''founded_table.txt'') =
           Some (prev_text w (os_path_join out ''founded_table.txt'') @
                 starting_text (w_clock w) (ff\<lparr>ff_root := Some (w_cwd w), ff_output_info_to := Some out\<rparr>) @
                 concat (map table_line (reported ff w listing))) \<and>
         file_text (snd (find_files ff listing w)) (os_path_join out ''founded_list_sorted.txt'') =
           Some (prev_text w (os_path_join out ''founded_list_sorted.txt'') @
                 list_header (starting_text (w_clock w) (ff\<lparr>ff_root := Some (w_cwd w), ff_output_info_to := Some out\<rparr>)) @
                 py_join ''\<newline>'' (map list_entry (sort_files (reported ff w listing))) @ ''\<newline>\<newline>'') \<and>
         file_text (snd (find_files ff listing w)) (os_path_join out ''founded_table_sorted.txt'') =
           Some (prev_text w (os_path_join out ''founded_table_sorted.txt'') @
                 starting_text (w_clock w) (ff\<lparr>ff_root := Some (w_cwd w), ff_output_info_to := Some out\<rparr>) @
                 py_join ''\<newline>'' (map sorted_table_entry (sort_files (reported ff w listing))))"
proof -
  define ff' where "ff' = ff\<lparr>ff_root := Some (w_cwd w), ff_output_info_to := Some out\<rparr>"
  have ext': "ff_extensions ff' = Some exts" and sort': "ff_sort_info ff'"
    and win': "window_ok ff'"
    using ext sort win by (simp_all add: ff'_def)
  obtain w' where run: "report_run ff' out listing w = (Inr (), w')"
    and "file_text w' (os_path_join out ''founded_table.txt'') =
           Some (prev_text w (os_path_join out ''founded_table.txt'') @ starting_text (w_clock w) ff' @
                 concat (map table_line (reported ff' w listing)))"
    and "file_text w' (os_path_join out ''founded_list_sorted.txt'') =
           Some (prev_text w (os_path_join out ''founded_list_sorted.txt'') @
                 list_header (starting_text (w_clock w) ff') @
                 py_join ''\<newline>'' (map list_entry (sort_files (reported ff' w listing))) @ ''\<newline>\<newline>'')"
    and "file_text w' (os_path_join out ''founded_table_sorted.txt'') =
           Some (prev_text w (os_path_join out ''founded_table_sorted.txt'') @ starting_text (w_clock w) ff' @
                 py_join ''\<newline>'' (map sorted_table_entry (sort_files (reported ff' w listing))))"
    by (rule report_run_sorted [OF ext' sort' rep lp tp notlisted now win'])
  moreover have "find_files ff listing w = (Inr ff', w')"
    using find_files_run [OF resolve_paths_given_out [OF root out] run [unfolded ff'_def]]
    by (simp add: ff'_def)
  ultimately show ?thesis
    by (simp add: ff'_def del: table_line.simps list_entry.simps sorted_table_entry.simps)
qed

lemma find_files_sorted_reports_witness:
  "ff_extensions (ex_finder\<lparr>ff_root := None\<rparr>) = Some {''.md''} \<and>
   ff_root (ex_finder\<lparr>ff_root := None\<rparr>) = None \<and>
   ff_output_info_to (ex_finder\<lparr>ff_root := None\<rparr>) = Some ''/out'' \<and>
   py_startswith ''/out'' ''/'' \<and> os_path_normpath ''/out'' = ''/out'' \<and>
   ff_sort_info (ex_finder\<lparr>ff_root := None\<rparr>) \<and>
   report_ok ex_world (os_path_join ''/out'' ''founded_table.txt'') \<and>
   report_ok ex_world (os_path_join ''/out'' ''founded_list_sorted.txt'') \<and>
   report_ok ex_world (os_path_join ''/out'' ''founded_table_sorted.txt'') \<and>
   os_path_join ''/out'' ''founded_table.txt'' \<notin> set (listed_paths ex_listing) \<and>
   now_ok (w_clock ex_world) \<and> window_ok (ex_finder\<lparr>ff_root := None\<rparr>) \<and>
   file_text (snd (find_files (ex_finder\<lparr>ff_root := None\<rparr>) ex_listing ex_world))
       ''/out/founded_table_sorted.txt'' =
     Some (starting_text 30000000 (ex_finder\<lparr>ff_root := Some ''/'', ff_output_info_to := Some ''/out''\<rparr>) @
           sorted_table_entry (''/d/a.md'', 5000000, 0, 20000000))"
proof -
  let ?ff = "ex_finder\<lparr>ff_root := None\<rparr>"
  have h: "ff_extensions ?ff = Some {''.md''}" "ff_root ?ff = None" "ff_output_info_to ?ff = Some ''/out''"
    "py_startswith ''/out'' ''/''" "os_path_normpath ''/out'' = ''/out''" "ff_sort_info ?ff"
    "report_ok ex_world (os_path_join ''/out'' ''founded_table.txt'')"
    "report_ok ex_world (os_path_join ''/out'' ''founded_list_sorted.txt'')"
    "report_ok ex_world (os_path_join ''/out'' ''founded_table_sorted.txt'')"
    "os_path_join ''/out'' ''founded_table.txt'' \<notin> set (listed_paths ex_listing)"
    by (simp_all add: ex_finder_def py_simps os_path_normpath_def os_path_dirname_def Let_def
        report_ok_def is_dir_def is_regular_def file_text_def ex_world_def ex_inode_def
        os_path_join_def listed_paths_def ex_listing_def)
  have p: "prev_text ex_world ''/out/founded_table_sorted.txt'' = []"
    by (simp add: prev_text_def file_text_def ex_world_def)
  have "sort_files [(''/d/a.md'', 5000000::int, 0::int, 20000000::int)] = [(''/d/a.md'', 5000000, 0, 20000000)]"
    by (simp add: sort_files_def)
  then show ?thesis
    using h find_files_sorted_reports [OF h ex_world_now_ok] reported_ex p ex_world_now_ok ex_finder_window_ok
    by (simp add: ex_world_def os_path_join_def del: sorted_table_entry.simps)
qed

text \<open>
  C15. A run without an extension filter fails after writing the header: when the
  constructor was given no extensions and some listed file (other than the report)
  exists, \<open>find_files\<close> raises \<open>AttributeError\<close>; the primary report has received
  the run header and nothing else, and the summary is never printed.
\<close>

theorem find_files_no_filter_raises:
  assumes ext: "ff_extensions ff = None"
    and root: "ff_root ff = None"
    and out: "ff_output_info_to ff = Some out" "py_startswith out ''/''" "os_path_normpath out = out"
    and rep: "report_ok w (os_path_join out ''founded_table.txt'')"
    and notlisted: "os_path_join out ''founded_table.txt'' \<notin> set (listed_paths listing)"
    and some: "list_ex (os_path_exists w) (listed_paths listing)"
    and now: "now_ok (w_clock w)" and win: "window_ok ff"
  shows "fst (find_files ff listing w) = Inl (AttributeError ''_extensions'') \<and>
         file_text (snd (find_files ff listing w)) (os_path_join out ''founded_table.txt'') =
           Some (prev_text w (os_path_join out ''founded_table.txt'') @
                 starting_text (w_clock w) (ff\<lparr>ff_root := Some (w_cwd w), ff_output_info_to := Some out\<rparr>)) \<and>
         w_stdout (snd (find_files ff listing w)) = w_stdout w"
proof (rule find_files_walker_raises [OF root out rep now])
  fix w1 :: world
  assume other: "\<And>q. q \<noteq> os_path_join out ''founded_table.txt'' \<Longrightarrow> w_fs w1 q = w_fs w q"
  define ff' where "ff' = ff\<lparr>ff_root := Some (w_cwd w), ff_output_info_to := Some out\<rparr>"
  have "list_ex (os_path_exists w1) (listed_paths listing)"
  proof -
    obtain p where p: "p \<in> set (listed_paths listing)" "os_path_exists w p"
      using some by (auto simp: list_ex_iff)
    then have "p \<noteq> os_path_join out ''founded_table.txt''" using notlisted by auto
    then have "os_path_exists w1 p" using p(2) other [of p] by (simp add: os_path_exists_def)
    then show ?thesis using p(1) by (auto simp: list_ex_iff)
  qed
  then show "walker ff' (os_path_join out ''founded_table.txt'') listing w1 =
               (Inl (AttributeError ''_extensions''), w1)"
    using walk_paths_no_ext [of ff'] ext win by (simp add: walker_unfold io_bind_def ff'_def)
qed

lemma find_files_no_filter_raises_witness:
  "ff_extensions (ex_finder\<lparr>ff_root := None, ff_extensions := None\<rparr>) = None \<and>
   ff_root (ex_finder\<lparr>ff_root := None, ff_extensions := None\<rparr>) = None \<and>
   ff_output_info_to (ex_finder\<lparr>ff_root := None, ff_extensions := None\<rparr>) = Some ''/out'' \<and>
   py_startswith ''/out'' ''/'' \<and> os_path_normpath ''/out'' = ''/out'' \<and>
   report_ok ex_world (os_path_join ''/out'' ''founded_table.txt'') \<and>
   os_path_join ''/out'' ''founded_table.txt'' \<notin> set (listed_paths ex_listing) \<and>
   list_ex (os_path_exists ex_world) (listed_paths ex_listing) \<and>
   now_ok (w_clock ex_world) \<and> window_ok (ex_finder\<lparr>ff_root := None, ff_extensions := None\<rparr>) \<and>
   fst (find_files (ex_finder\<lparr>ff_root := None, ff_extensions := None\<rparr>) ex_listing ex_world) =
     Inl (AttributeError ''_extensions'')"
proof -
  let ?ff = "ex_finder\<lparr>ff_root := None, ff_extensions := None\<rparr>"
  have h: "ff_extensions ?ff = None" "ff_root ?ff = None" "ff_output_info_to ?ff = Some ''/out''"
    "py_startswith ''/out'' ''/''" "os_path_normpath ''/out'' = ''/out''"
    "report_ok ex_world (os_path_join ''/out'' ''founded_table.txt'')"
    "os_path_join ''/out'' ''founded_table.txt'' \<notin> set (listed_paths ex_listing)"
    "list_ex (os_path_exists ex_world) (listed_paths ex_listing)"
    by (simp_all add: ex_finder_def py_simps os_path_normpath_def Let_def report_ok_def
        is_regular_def file_text_def ex_world_def ex_inode_def os_path_join_def listed_paths_def
        ex_listing_def os_path_exists_def)
  then show ?thesis
    using find_files_no_filter_raises [OF h ex_world_now_ok] ex_world_now_ok ex_finder_window_ok by simp
qed

text \<open>
  C16. A run that matches nothing still writes the run header to the primary report
  and prints a count of zero, sorted or not.
\<close>

theorem find_files_zero_matches:
  assumes ext: "ff_extensions ff = Some exts"
    and root: "ff_root ff = None"
    and out: "ff_output_info_to ff = Some out" "py_startswith out ''/''" "os_path_normpath out = out"
    and rep: "report_ok w (os_path_join out ''founded_table.txt'')"
    and sorted: "ff_sort_info ff \<Longrightarrow> report_ok w (os_path_join out ''founded_list_sorted.txt'') \<and>
                                      report_ok w (os_path_join out ''founded_table_sorted.txt'')"
    and notlisted: "os_path_join out ''founded_table.txt'' \<notin> set (listed_paths listing)"
    and none: "reported ff w listing = []"
    and now: "now_ok (w_clock w)" and win: "window_ok ff"
  shows "file_text (snd (find_files ff listing w)) (os_path_join out ''founded_table.txt'') =
           Some (prev_text w (os_path_join out ''founded_table.txt'') @
                 starting_text (w_clock w) (ff\<lparr>ff_root := Some (w_cwd w), ff_output_info_to := Some out\<rparr>)) \<and>
         w_stdout (snd (find_files ff listing w)) = w_stdout w @ [''Files founded: 0'', ''Output info to: '' @ out @ '' folder'']"
proof -
  define ff' where "ff' = ff\<lparr>ff_root := Some (w_cwd w), ff_output_info_to := Some out\<rparr>"
  have ext': "ff_extensions ff' = Some exts" and win': "window_ok ff'"
    using ext win by (simp_all add: ff'_def)
  have z: "nat_str 0 = ''0''" by code_simp
  obtain w' where run: "report_run ff' out listing w = (Inr (), w')"
    and t: "file_text w' (os_path_join out ''founded_table.txt'') =
           Some (prev_text w (os_path_join out ''founded_table.txt'') @ starting_text (w_clock w) ff')"
    and so: "w_stdout w' = w_stdout w @ [''Files founded: 0'', ''Output info to: '' @ out @ '' folder'']"
  proof (cases "ff_sort_info ff")
    case True
    then have s': "ff_sort_info ff'" by (simp add: ff'_def)
    obtain v where "report_run ff' out listing w = (Inr (), v)"
      and "file_text v (os_path_join out ''founded_table.txt'') =
           Some (prev_text w (os_path_join out ''founded_table.txt'') @ starting_text (w_clock w) ff' @
                 concat (map table_line (reported ff' w listing)))"
      and "w_stdout v = w_stdout w @ [''Files founded: '' @ nat_str (length (reported ff' w listing)),
                                      ''Output info to: '' @ out @ '' folder'']"
      using report_run_sorted [OF ext' s' rep _ _ notlisted now win'] sorted [OF True] by blast
    then show ?thesis using that [of v] none z by (simp add: ff'_def)
  next
    case False
    then have s': "\<not> ff_sort_info ff'" by (simp add: ff'_def)
    obtain v where "report_run ff' out listing w = (Inr (), v)"
      and "file_text v (os_path_join out ''founded_table.txt'') =
           Some (prev_text w (os_path_join out ''founded_table.txt'') @ starting_text (w_clock w) ff' @
                 concat (map table_line (reported ff' w listing)))"
      and "w_stdout v = w_stdout w @ [''Files founded: '' @ nat_str (length (reported ff' w listing)),
                                      ''Output info to: '' @ out @ '' folder'']"
      by (rule report_run_unsorted [OF ext' s' rep notlisted now win'])
    then show ?thesis using that [of v] none z by (simp add: ff'_def)
  qed
  have "find_files ff listing w = (Inr ff', w')"
    using find_files_run [OF resolve_paths_given_out [OF root out] run [unfolded ff'_def]]
    by (simp add: ff'_def)
  then show ?thesis
    using t so by (simp add: ff'_def)
qed

lemma find_files_zero_matches_witness:
  "ff_extensions (ex_finder\<lparr>ff_root := None, ff_sort_info := False\<rparr>) = Some {''.md''} \<and>
   ff_root (ex_finder\<lparr>ff_root := None, ff_sort_info := False\<rparr>) = None \<and>
   ff_output_info_to (ex_finder\<lparr>ff_root := None, ff_sort_info := False\<rparr>) = Some ''/out'' \<and>
   py_startswith ''/out'' ''/'' \<and> os_path_normpath ''/out'' = ''/out'' \<and>
   report_ok ex_world (os_path_join ''/out'' ''founded_table.txt'') \<and>
   \<not> ff_sort_info (ex_finder\<lparr>ff_root := None, ff_sort_info := False\<rparr>) \<and>
   os_path_join ''/out'' ''founded_table.txt'' \<notin> set (listed_paths []) \<and>
   reported (ex_finder\<lparr>ff_root := None, ff_sort_info := False\<rparr>) ex_world [] = [] \<and>
   now_ok (w_clock ex_world) \<and> window_ok (ex_finder\<lparr>ff_root := None, ff_sort_info := False\<rparr>) \<and>
   w_stdout (snd (find_files (ex_finder\<lparr>ff_root := None, ff_sort_info := False\<rparr>) [] ex_world)) =
     [''Files founded: 0'', ''Output info to: /out folder'']"
proof -
  let ?ff = "ex_finder\<lparr>ff_root := None, ff_sort_info := False\<rparr>"
  have h: "ff_extensions ?ff = Some {''.md''}" "ff_root ?ff = None" "ff_output_info_to ?ff = Some ''/out''"
    "py_startswith ''/out'' ''/''" "os_path_normpath ''/out'' = ''/out''"
    "report_ok ex_world (os_path_join ''/out'' ''founded_table.txt'')"
    "ff_sort_info ?ff \<Longrightarrow> report_ok ex_world (os_path_join ''/out'' ''founded_list_sorted.txt'') \<and>
                           report_ok ex_world (os_path_join ''/out'' ''founded_table_sorted.txt'')"
    "os_path_join ''/out'' ''founded_table.txt'' \<notin> set (listed_paths [])"
    "reported ?ff ex_world [] = []"
    by (simp_all add: ex_finder_def py_simps os_path_normpath_def Let_def report_ok_def
        is_regular_def file_text_def ex_world_def ex_inode_def os_path_join_def listed_paths_def
        reported_def)
  then show ?thesis
    using find_files_zero_matches [OF h ex_world_now_ok] ex_world_now_ok ex_finder_window_ok
    by (simp add: ex_world_def)
qed

text \<open>
  C24. A relative output folder is resolved against the directory the process started
  in, not against the root: \<open>find_files\<close> makes it absolute before it changes into
  the root. The root becomes the working directory.
\<close>

theorem resolve_paths_relative_output:
  assumes root: "ff_root ff = Some r" "r \<noteq> []" and dir: "is_dir w (os_path_abspath w r)"
    and out: "ff_output_info_to ff = Some out" "out \<noteq> []"
  shows "resolve_paths ff w =
           (Inr (os_path_abspath w r,
                 os_path_abspath (w\<lparr>w_cwd := os_path_abspath w r\<rparr>) (os_path_abspath w out)),
            w\<lparr>w_cwd := os_path_abspath w r\<rparr>)"
proof -
  obtain i where "w_fs w (os_path_abspath w r) = Some i" and "i_kind i = Directory"
    using dir by (auto simp: is_dir_def split: option.splits)
  then have "os_chdir r w = (Inr (), w\<lparr>w_cwd := os_path_abspath w r\<rparr>)"
    by (simp add: os_chdir_def)
  moreover have "str_truthy (Some out)" "str_truthy (Some r)"
    using root out by (simp_all add: str_truthy_def)
  ultimately show ?thesis
    using root out
    by (simp add: resolve_paths_def io_abspath_def os_getcwd_def io_bind_def str_truthy_def)
qed

lemma resolve_paths_relative_output_witness:
  "ff_root (ex_finder\<lparr>ff_output_info_to := Some ''out''\<rparr>) = Some ''/d'' \<and> ''/d'' \<noteq> [] \<and>
   is_dir (ex_world\<lparr>w_cwd := ''/home''\<rparr>) (os_path_abspath (ex_world\<lparr>w_cwd := ''/home''\<rparr>) ''/d'') \<and>
   ff_output_info_to (ex_finder\<lparr>ff_output_info_to := Some ''out''\<rparr>) = Some ''out'' \<and> ''out'' \<noteq> [] \<and>
   fst (resolve_paths (ex_finder\<lparr>ff_output_info_to := Some ''out''\<rparr>) (ex_world\<lparr>w_cwd := ''/home''\<rparr>)) =
     Inr (''/d'', ''/home/out'')"
proof -
  let ?w = "ex_world\<lparr>w_cwd := ''/home''\<rparr>"
  have a: "os_path_abspath ?w ''/d'' = ''/d''" "os_path_abspath ?w ''out'' = ''/home/out''"
    "os_path_abspath (?w\<lparr>w_cwd := ''/d''\<rparr>) ''/home/out'' = ''/home/out''"
    by (simp_all add: os_path_abspath_def os_path_normpath_def os_path_join_def Let_def py_simps)
  have h: "ff_root (ex_finder\<lparr>ff_output_info_to := Some ''out''\<rparr>) = Some ''/d''" "''/d'' \<noteq> []"
    "is_dir ?w (os_path_abspath ?w ''/d'')"
    "ff_output_info_to (ex_finder\<lparr>ff_output_info_to := Some ''out''\<rparr>) = Some ''out''" "''out'' \<noteq> []"
    using a by (simp_all add: ex_finder_def is_dir_def ex_world_def ex_inode_def)
  show ?thesis
    using h resolve_paths_relative_output [OF h] a by simp
qed

text \<open>
  C25. A root that does not exist is a configuration error raised before any report is
  touched: \<open>find_files\<close> raises \<open>FileNotFoundError\<close> from \<open>os.chdir\<close> and leaves the
  world as it was.
\<close>

theorem find_files_missing_root:
  assumes "ff_root ff = Some r" and "r \<noteq> []" and "w_fs w (os_path_abspath w r) = None"
  shows "find_files ff listing w = (Inl (FileNotFoundError r), w)"
proof -
  have "os_chdir r w = (Inl (FileNotFoundError r), w)"
    using assms(3) by (simp add: os_chdir_def)
  then show ?thesis
    using assms(1,2)
    by (simp add: find_files_def resolve_paths_def io_abspath_def io_bind_def str_truthy_def
        split: option.splits)
qed

lemma find_files_missing_root_witness:
  "ff_root (ex_finder\<lparr>ff_root := Some ''/nope''\<rparr>) = Some ''/nope'' \<and> ''/nope'' \<noteq> [] \<and>
   w_fs ex_world (os_path_abspath ex_world ''/nope'') = None \<and>
   find_files (ex_finder\<lparr>ff_root := Some ''/nope''\<rparr>) ex_listing ex_world =
     (Inl (FileNotFoundError ''/nope''), ex_world)"
proof -
  have h: "ff_root (ex_finder\<lparr>ff_root := Some ''/nope''\<rparr>) = Some ''/nope''" "''/nope'' \<noteq> []"
    "w_fs ex_world (os_path_abspath ex_world ''/nope'') = None"
    by (simp_all add: os_path_abspath_def os_path_normpath_def Let_def py_simps ex_world_def)
  then show ?thesis
    using find_files_missing_root [OF h] by simp
qed

text \<open>
  C31. The first day of the calendar is accepted by the constructor and then fails the
  run: \<open>__init__\<close> parses the start date \<open>"0001-01-01"\<close> without complaint, but
  \<open>self._start_date.timestamp()\<close> in \<open>_walker\<close> (line 113) raises \<open>ValueError\<close>,
  since converting back to local time also looks at the day before, in year 0. By then
  \<open>find_files\<close> has written the run header: the primary report keeps it, with no report
  line after it, and the summary is never printed.
\<close>

theorem find_files_first_day_raises:
  assumes init: "init_finder w0 None (Some ''0001-01-01'') ed False (Some out) exts srt = Inr ff"
    and out: "py_startswith out ''/''" "os_path_normpath out = out"
    and rep: "report_ok w (os_path_join out ''founded_table.txt'')" and now: "now_ok (w_clock w)"
  shows "fst (find_files ff listing w) = Inl (ValueError ''year 0 is out of range'') \<and>
         file_text (snd (find_files ff listing w)) (os_path_join out ''founded_table.txt'') =
           Some (prev_text w (os_path_join out ''founded_table.txt'') @
                 starting_text (w_clock w) (ff\<lparr>ff_root := Some (w_cwd w), ff_output_info_to := Some out\<rparr>)) \<and>
         w_stdout (snd (find_files ff listing w)) = w_stdout w"
proof -
  obtain sdt edt where s: "(if str_truthy (Some ''0001-01-01'') then strptime (the (Some ''0001-01-01'')) (date_format False)
      else default_start (w_clock w0)) = Inr sdt"
    and "(if str_truthy ed then strptime (the ed) (date_format False) else dt_now (w_clock w0)) = Inr edt"
    and st: "ff_start_date ff = sdt"
    and "ff_end_date ff = (if \<not> False then dt_replace_hms 23 59 59 edt else edt)"
    and "ff_extensions ff = (if list_truthy exts then Some (set (map norm_ext (the exts))) else None)"
    by (rule init_finder_Inr [OF init])
  have "sdt = \<lparr>dt_year = 1, dt_month = 1, dt_day = 1, dt_hour = 0, dt_minute = 0, dt_second = 0, dt_usec = 0\<rparr>"
    using s strptime_first_day by (simp add: str_truthy_def)
  then have sd: "dt_ord (ff_start_date ff) = 1"
    using st by (simp add: ymd2ord_def days_before_year_def days_before_month_def days_before_month_tab_def)
  have fields: "ff_root ff = None" "ff_output_info_to ff = Some out"
    using init_finder_fields [OF init] by simp_all
  show ?thesis
  proof (rule find_files_walker_raises [OF fields out rep now])
    fix w1 :: world
    have "\<not> window_ok (ff\<lparr>ff_root := Some (w_cwd w), ff_output_info_to := Some out\<rparr>)"
      using sd by (simp add: window_ok_def timestamp_ok_def)
    then show "walker (ff\<lparr>ff_root := Some (w_cwd w), ff_output_info_to := Some out\<rparr>)
                 (os_path_join out ''founded_table.txt'') listing w1 = (Inl (ValueError ''year 0 is out of range''), w1)"
      by (rule walker_not_window_ok)
  qed
qed

lemma find_files_first_day_raises_witness:
  "init_finder ex_world None (Some ''0001-01-01'') (Some ''2022-01-15'') False (Some ''/out'') (Some [''md''])
     False = Inr \<lparr>ff_root = None, ff_output_info_to = Some ''/out'',
        ff_start_date = \<lparr>dt_year = 1, dt_month = 1, dt_day = 1, dt_hour = 0, dt_minute = 0,
                         dt_second = 0, dt_usec = 0\<rparr>,
        ff_end_date = \<lparr>dt_year = 2022, dt_month = 1, dt_day = 15, dt_hour = 23, dt_minute = 59,
                       dt_second = 59, dt_usec = 0\<rparr>,
        ff_sort_info = False, ff_extensions = Some {''.md''}\<rparr> \<and>
   py_startswith ''/out'' ''/'' \<and> os_path_normpath ''/out'' = ''/out'' \<and>
   report_ok ex_world (os_path_join ''/out'' ''founded_table.txt'') \<and> now_ok (w_clock ex_world) \<and>
   fst (find_files \<lparr>ff_root = None, ff_output_info_to = Some ''/out'',
        ff_start_date = \<lparr>dt_year = 1, dt_month = 1, dt_day = 1, dt_hour = 0, dt_minute = 0,
                         dt_second = 0, dt_usec = 0\<rparr>,
        ff_end_date = \<lparr>dt_year = 2022, dt_month = 1, dt_day = 15, dt_hour = 23, dt_minute = 59,
                       dt_second = 59, dt_usec = 0\<rparr>,
        ff_sort_info = False, ff_extensions = Some {''.md''}\<rparr> ex_listing ex_world) = Inl (ValueError ''year 0 is out of range'')"
proof -
  have i: "init_finder ex_world None (Some ''0001-01-01'') (Some ''2022-01-15'') False (Some ''/out'') (Some [''md''])
     False = Inr \<lparr>ff_root = None, ff_output_info_to = Some ''/out'',
        ff_start_date = \<lparr>dt_year = 1, dt_month = 1, dt_day = 1, dt_hour = 0, dt_minute = 0,
                         dt_second = 0, dt_usec = 0\<rparr>,
        ff_end_date = \<lparr>dt_year = 2022, dt_month = 1, dt_day = 15, dt_hour = 23, dt_minute = 59,
                       dt_second = 59, dt_usec = 0\<rparr>,
        ff_sort_info = False, ff_extensions = Some {''.md''}\<rparr>"
    by (simp add: init_finder_def date_format_def str_truthy_def list_truthy_def strptime_def
        compile_fmt_date_only valid_datetime_def build_datetime_def field_val_def days_in_month_def
        is_leap_def days_in_month_tab_def digits_val_def norm_ext_def dt_replace_hms_def py_simps)
  have h: "py_startswith ''/out'' ''/''" "os_path_normpath ''/out'' = ''/out''"
    "report_ok ex_world (os_path_join ''/out'' ''founded_table.txt'')"
    by (simp_all add: py_simps os_path_normpath_def Let_def report_ok_def is_regular_def file_text_def
        ex_world_def ex_inode_def os_path_join_def)
  show ?thesis
    using i h ex_world_now_ok find_files_first_day_raises [OF i h ex_world_now_ok] by simp
qed

text \<open>
  C32. A clock outside years 1..9999 stops every run before it touches a file:
  whatever the finder (its dates given, so that \<open>__init__\<close> never read the clock),
  \<open>find_files\<close> raises, either while resolving the folders or at
  \<open>datetime.datetime.now()\<close> on line 179, before the header is written; no file
  changes and nothing is printed.
\<close>

theorem find_files_clock_out_of_range:
  assumes clk: "\<not> now_ok (w_clock w)"
  shows "(\<exists>e. fst (find_files ff listing w) = Inl e) \<and>
         w_fs (snd (find_files ff listing w)) = w_fs w \<and> w_stdout (snd (find_files ff listing w)) = w_stdout w"
proof (cases "resolve_paths ff w")
  case (Pair r w0)
  have fr: "w_fs w0 = w_fs w" "w_clock w0 = w_clock w" "w_stdout w0 = w_stdout w"
    using resolve_paths_frame [of ff w] Pair by simp_all
  show ?thesis
  proof (cases r)
    case (Inl e)
    then show ?thesis using Pair fr by (simp add: find_files_def io_bind_def)
  next
    case (Inr ro)
    obtain root out where ro: "ro = (root, out)" by (cases ro)
    have "io_now w0 = (Inl (ValueError ''year must be in 1..9999''), w0)"
      using clk fr by (simp add: io_now_def dt_now_eq)
    then have "report_run (ff\<lparr>ff_root := Some root, ff_output_info_to := Some out\<rparr>) out listing w0 =
                 (Inl (ValueError ''year must be in 1..9999''), w0)"
      by (simp add: report_run_def io_bind_def Let_def)
    then show ?thesis
      using find_files_run [of ff w root out w0] Pair Inr ro fr by simp
  qed
qed

lemma find_files_clock_out_of_range_witness:
  "\<not> now_ok (w_clock (ex_world\<lparr>w_clock := 253402300800000000\<rparr>)) \<and>
   w_fs (snd (find_files ex_finder ex_listing (ex_world\<lparr>w_clock := 253402300800000000\<rparr>))) = w_fs ex_world"
proof -
  have c: "\<not> now_ok (w_clock (ex_world\<lparr>w_clock := 253402300800000000\<rparr>))"
    by (simp add: now_ok_def)
  show ?thesis
    using c find_files_clock_out_of_range [OF c, of ex_finder ex_listing] by simp
qed

text \<open>
  C34. A sorted report that cannot be opened stops the run after the walk, keeping what
  was already written (spec, section 7): when \<open>founded_list_sorted.txt\<close> in the
  output folder is a directory, a sorted run raises \<open>IsADirectoryError\<close> from its
  \<open>open()\<close>; \<open>founded_table.txt\<close> keeps the run header and every report line of
  the walk, and the summary is never printed.
\<close>

theorem find_files_sorted_report_error:
  assumes ext: "ff_extensions ff = Some exts"
    and root: "ff_root ff = None"
    and out: "ff_output_info_to ff = Some out" "py_startswith out ''/''" "os_path_normpath out = out"
    and sort: "ff_sort_info ff"
    and rep: "report_ok w (os_path_join out ''founded_table.txt'')"
    and notlisted: "os_path_join out ''founded_table.txt'' \<notin> set (listed_paths listing)"
    and now: "now_ok (w_clock w)" and win: "window_ok ff"
    and dir: "is_dir w (os_path_join out ''founded_list_sorted.txt'')"
  shows "fst (find_files ff listing w) = Inl (IsADirectoryError (os_path_join out ''founded_list_sorted.txt'')) \<and>
         file_text (snd (find_files ff listing w)) (os_path_join out ''founded_table.txt'') =
           Some (prev_text w (os_path_join out ''founded_table.txt'') @
                 starting_text (w_clock w) (ff\<lparr>ff_root := Some (w_cwd w), ff_output_info_to := Some out\<rparr>) @
                 concat (map table_line (reported ff w listing))) \<and>
         w_stdout (snd (find_files ff listing w)) = w_stdout w"
proof -
  define ff' where "ff' = ff\<lparr>ff_root := Some (w_cwd w), ff_output_info_to := Some out\<rparr>"
  define lp where "lp = os_path_join out ''founded_list_sorted.txt''"
  define hdr where "hdr = starting_text (w_clock w) ff'"
  have ext': "ff_extensions ff' = Some exts" and sort': "ff_sort_info ff'" and win': "window_ok ff'"
    and R: "reported ff' w listing = reported ff w listing"
    using ext sort win by (simp_all add: ff'_def)
  obtain w1 w2 where h: "write_header (os_path_join out ''founded_table.txt'') hdr w = (Inr (), w1)"
    and walk: "walker ff' (os_path_join out ''founded_table.txt'') listing w1 =
           (Inr (length (reported ff w listing), Some (reported ff w listing)), w2)"
    and t2: "file_text w2 (os_path_join out ''founded_table.txt'') =
           Some (prev_text w (os_path_join out ''founded_table.txt'') @ hdr @
                 concat (map table_line (reported ff w listing)))"
    and o2: "\<And>q. q \<noteq> os_path_join out ''founded_table.txt'' \<Longrightarrow> w_fs w2 q = w_fs w q"
    and so2: "w_stdout w2 = w_stdout w"
    using header_and_walk [OF ext' rep notlisted win', of hdr] sort' R by auto
  have "lp \<noteq> os_path_join out ''founded_table.txt''" by (simp add: lp_def os_path_join_same_dir)
  then have "is_dir w2 lp" using dir o2 [of lp] by (simp add: lp_def is_dir_def)
  then have "sort_phase ff' out hdr (Some (reported ff w listing)) w2 = (Inl (IsADirectoryError lp), w2)"
    using sort' by (auto simp: sort_phase_def Let_def write_header_def os_path_exists_def open_append_write_def
        io_bind_def is_dir_def lp_def [symmetric] split: option.splits)
  then have "report_run ff' out listing w = (Inl (IsADirectoryError lp), w2)"
    using h walk by (simp add: report_run_def io_now_ok [OF now] io_bind_def Let_def hdr_def [symmetric])
  then have "find_files ff listing w = (Inl (IsADirectoryError lp), w2)"
    using find_files_run [OF resolve_paths_given_out [OF root out]] by (simp add: ff'_def)
  then show ?thesis
    using t2 so2 by (simp add: lp_def hdr_def ff'_def)
qed

lemma find_files_sorted_report_error_witness:
  "ff_extensions (ex_finder\<lparr>ff_root := None\<rparr>) = Some {''.md''} \<and>
   ff_root (ex_finder\<lparr>ff_root := None\<rparr>) = None \<and>
   ff_output_info_to (ex_finder\<lparr>ff_root := None\<rparr>) = Some ''/out'' \<and>
   py_startswith ''/out'' ''/'' \<and> os_path_normpath ''/out'' = ''/out'' \<and>
   ff_sort_info (ex_finder\<lparr>ff_root := None\<rparr>) \<and>
   report_ok (ex_world\<lparr>w_fs := (w_fs ex_world)(''/out/founded_list_sorted.txt'' \<mapsto> ex_inode Directory 0 0 0)\<rparr>)
     (os_path_join ''/out'' ''founded_table.txt'') \<and>
   os_path_join ''/out'' ''founded_table.txt'' \<notin> set (listed_paths ex_listing) \<and>
   now_ok (w_clock (ex_world\<lparr>w_fs := (w_fs ex_world)(''/out/founded_list_sorted.txt'' \<mapsto> ex_inode Directory 0 0 0)\<rparr>)) \<and>
   window_ok (ex_finder\<lparr>ff_root := None\<rparr>) \<and>
   is_dir (ex_world\<lparr>w_fs := (w_fs ex_world)(''/out/founded_list_sorted.txt'' \<mapsto> ex_inode Directory 0 0 0)\<rparr>)
     (os_path_join ''/out'' ''founded_list_sorted.txt'') \<and>
   fst (find_files (ex_finder\<lparr>ff_root := None\<rparr>) ex_listing
          (ex_world\<lparr>w_fs := (w_fs ex_world)(''/out/founded_list_sorted.txt'' \<mapsto> ex_inode Directory 0 0 0)\<rparr>)) =
     Inl (IsADirectoryError ''/out/founded_list_sorted.txt'')"
proof -
  let ?ff = "ex_finder\<lparr>ff_root := None\<rparr>"
  let ?w = "ex_world\<lparr>w_fs := (w_fs ex_world)(''/out/founded_list_sorted.txt'' \<mapsto> ex_inode Directory 0 0 0)\<rparr>"
  have h: "ff_extensions ?ff = Some {''.md''}" "ff_root ?ff = None" "ff_output_info_to ?ff = Some ''/out''"
    "py_startswith ''/out'' ''/''" "os_path_normpath ''/out'' = ''/out''" "ff_sort_info ?ff"
    "report_ok ?w (os_path_join ''/out'' ''founded_table.txt'')"
    "os_path_join ''/out'' ''founded_table.txt'' \<notin> set (listed_paths ex_listing)"
    "now_ok (w_clock ?w)"
    by (simp_all add: ex_finder_def py_simps os_path_normpath_def Let_def report_ok_def now_ok_def
        is_regular_def file_text_def ex_world_def ex_inode_def os_path_join_def listed_paths_def ex_listing_def)
  have d: "is_dir ?w (os_path_join ''/out'' ''founded_list_sorted.txt'')"
    by (simp add: is_dir_def ex_inode_def os_path_join_def py_simps)
  have j: "os_path_join ''/out'' ''founded_list_sorted.txt'' = ''/out/founded_list_sorted.txt''"
    by (simp add: os_path_join_def py_simps)
  show ?thesis
    using h d ex_finder_window_ok find_files_sorted_report_error [OF h _ d] j by simp
qed

text \<open>
  C35. Runs accumulate (spec, section 8): after one unsorted run, and whatever time has
  passed or working directory is set since, a second run on the resulting file system
  leaves \<open>founded_table.txt\<close> holding the first run's text unchanged, then three
  newlines, the second run's header and the second run's report lines.
\<close>

theorem find_files_rerun_appends:
  assumes ext: "ff_extensions ff = Some exts"
    and root: "ff_root ff = None"
    and out: "ff_output_info_to ff = Some out" "py_startswith out ''/''" "os_path_normpath out = out"
    and nosort: "\<not> ff_sort_info ff"
    and rep: "report_ok w (os_path_join out ''founded_table.txt'')"
    and notlisted: "os_path_join out ''founded_table.txt'' \<notin> set (listed_paths listing)"
    and now: "now_ok (w_clock w)" and win: "window_ok ff"
    and fs: "w_fs v = w_fs (snd (find_files ff listing w))"
    and notlisted2: "os_path_join out ''founded_table.txt'' \<notin> set (listed_paths listing2)"
    and now2: "now_ok (w_clock v)"
  shows "file_text (snd (find_files ff listing2 v)) (os_path_join out ''founded_table.txt'') =
           Some (prev_text w (os_path_join out ''founded_table.txt'') @
                 starting_text (w_clock w) (ff\<lparr>ff_root := Some (w_cwd w), ff_output_info_to := Some out\<rparr>) @
                 concat (map table_line (reported ff w listing)) @ ''\<newline>\<newline>\<newline>'' @
                 starting_text (w_clock v) (ff\<lparr>ff_root := Some (w_cwd v), ff_output_info_to := Some out\<rparr>) @
                 concat (map table_line (reported ff v listing2)))"
proof -
  define rp where "rp = os_path_join out ''founded_table.txt''"
  define ff1 where "ff1 = ff\<lparr>ff_root := Some (w_cwd w), ff_output_info_to := Some out\<rparr>"
  define ff2 where "ff2 = ff\<lparr>ff_root := Some (w_cwd v), ff_output_info_to := Some out\<rparr>"
  have ff1: "ff_extensions ff1 = Some exts" "\<not> ff_sort_info ff1" "window_ok ff1"
    "reported ff1 w listing = reported ff w listing"
    using ext nosort win by (simp_all add: ff1_def)
  have ff2: "ff_extensions ff2 = Some exts" "\<not> ff_sort_info ff2" "window_ok ff2"
    "reported ff2 v listing2 = reported ff v listing2"
    using ext nosort win by (simp_all add: ff2_def)
  obtain w1 where run1: "report_run ff1 out listing w = (Inr (), w1)"
    and t1: "file_text w1 rp = Some (prev_text w rp @ starting_text (w_clock w) ff1 @
                                      concat (map table_line (reported ff1 w listing)))"
    using report_run_unsorted [OF ff1(1,2) rep notlisted now ff1(3)] unfolding rp_def by blast
  have "find_files ff listing w = (Inr ff1, w1)"
    using find_files_run [OF resolve_paths_given_out [OF root out] run1 [unfolded ff1_def]]
    by (simp add: ff1_def)
  then have tv: "file_text v rp = file_text w1 rp"
    using fs by (simp add: file_text_def)
  have rep2: "report_ok v rp"
    using tv t1 by (simp add: report_ok_def is_regular_def)
  obtain w2 where run2: "report_run ff2 out listing2 v = (Inr (), w2)"
    and t2: "file_text w2 rp = Some (prev_text v rp @ starting_text (w_clock v) ff2 @
                                      concat (map table_line (reported ff2 v listing2)))"
    using report_run_unsorted [OF ff2(1,2) rep2 [unfolded rp_def] notlisted2 now2 ff2(3)] unfolding rp_def by blast
  have "find_files ff listing2 v = (Inr ff2, w2)"
    using find_files_run [OF resolve_paths_given_out [OF root out] run2 [unfolded ff2_def]]
    by (simp add: ff2_def)
  then show ?thesis
    using t2 tv t1 ff1(4) ff2(4) by (simp add: prev_text_def rp_def [symmetric] ff1_def ff2_def)
qed

lemma find_files_rerun_appends_witness:
  "ff_extensions (ex_finder\<lparr>ff_root := None, ff_sort_info := False\<rparr>) = Some {''.md''} \<and>
   ff_root (ex_finder\<lparr>ff_root := None, ff_sort_info := False\<rparr>) = None \<and>
   ff_output_info_to (ex_finder\<lparr>ff_root := None, ff_sort_info := False\<rparr>) = Some ''/out'' \<and>
   py_startswith ''/out'' ''/'' \<and> os_path_normpath ''/out'' = ''/out'' \<and>
   \<not> ff_sort_info (ex_finder\<lparr>ff_root := None, ff_sort_info := False\<rparr>) \<and>
   report_ok ex_world (os_path_join ''/out'' ''founded_table.txt'') \<and>
   os_path_join ''/out'' ''founded_table.txt'' \<notin> set (listed_paths ex_listing) \<and>
   now_ok (w_clock ex_world) \<and> window_ok (ex_finder\<lparr>ff_root := None, ff_sort_info := False\<rparr>) \<and>
   now_ok 40000000 \<and>
   (\<exists>t. file_text (snd (find_files (ex_finder\<lparr>ff_root := None, ff_sort_info := False\<rparr>) ex_listing
             ((snd (find_files (ex_finder\<lparr>ff_root := None, ff_sort_info := False\<rparr>) ex_listing ex_world))
                \<lparr>w_clock := 40000000\<rparr>))) ''/out/founded_table.txt'' = Some (''H'' @ t))"
proof -
  let ?ff = "ex_finder\<lparr>ff_root := None, ff_sort_info := False\<rparr>"
  let ?v = "(snd (find_files ?ff ex_listing ex_world))\<lparr>w_clock := 40000000\<rparr>"
  have h: "ff_extensions ?ff = Some {''.md''}" "ff_root ?ff = None" "ff_output_info_to ?ff = Some ''/out''"
    "py_startswith ''/out'' ''/''" "os_path_normpath ''/out'' = ''/out''" "\<not> ff_sort_info ?ff"
    "report_ok ex_world (os_path_join ''/out'' ''founded_table.txt'')"
    "os_path_join ''/out'' ''founded_table.txt'' \<notin> set (listed_paths ex_listing)"
    by (simp_all add: ex_finder_def py_simps os_path_normpath_def Let_def report_ok_def
        is_regular_def file_text_def ex_world_def ex_inode_def os_path_join_def listed_paths_def
        ex_listing_def)
  have w: "window_ok ?ff" using ex_finder_window_ok by simp
  have v: "w_fs ?v = w_fs (snd (find_files ?ff ex_listing ex_world))" "now_ok (w_clock ?v)" "now_ok 40000000"
    by (simp_all add: now_ok_def)
  have p: "prev_text ex_world ''/out/founded_table.txt'' = ''H\<newline>\<newline>\<newline>''"
    by (simp add: prev_text_def file_text_def ex_world_def ex_inode_def)
  have j: "os_path_join ''/out'' ''founded_table.txt'' = ''/out/founded_table.txt''"
    by (simp add: os_path_join_def py_simps)
  show ?thesis
    using h w v ex_world_now_ok find_files_rerun_appends [OF h ex_world_now_ok w v(1) h(8) v(2)] p j
    by simp
qed

end
