(* ===== verification/OsWalk.thy ===== *)
theory OsWalk
  imports Walker "HOL-Library.Sublist"
begin

text \<open>
  \<open>os.walk(top)\<close> as CPython implements it (top-down, no \<open>onerror\<close>, no
  \<open>followlinks\<close>): a stack of directories still to visit; the directory on top is
  scanned, its entries are split into subdirectories and other files, the triple
  \<open>(top, dirs, nondirs)\<close> is yielded, and the subdirectories are pushed so that the
  first of them is visited next. A directory whose scan raises \<open>OSError\<close> (missing,
  unreadable, not a directory) is skipped without a word. The operating system's
  answer to \<open>scandir\<close> is the argument \<open>scan\<close>: the entry names of a directory in
  the order the system returns them, or \<open>None\<close> for an \<open>OSError\<close>. The model's stack
  is a list whose head is the top of Python's stack (Python pushes the reversed
  \<open>dirs\<close> and pops the last element). The model has no symbolic links, so the
  \<open>islink\<close> test never prunes a subdirectory.
\<close>

type_synonym scan = "path \<Rightarrow> string list option"
type_synonym listing = "(path \<times> string list \<times> string list) list"

definition walk_dirs_of :: "world \<Rightarrow> path \<Rightarrow> string list \<Rightarrow> string list" where
  "walk_dirs_of w dir names = filter (\<lambda>n. is_dir w (os_path_join dir n)) names"

definition walk_nondirs_of :: "world \<Rightarrow> path \<Rightarrow> string list \<Rightarrow> string list" where
  "walk_nondirs_of w dir names = filter (\<lambda>n. \<not> is_dir w (os_path_join dir n)) names"

partial_function (option) os_walk_stack :: "scan \<Rightarrow> world \<Rightarrow> path list \<Rightarrow> listing option" where
  "os_walk_stack scan w stack =
     (case stack of
        [] \<Rightarrow> Some []
      | dir # rest \<Rightarrow>
          (case scan dir of
             None \<Rightarrow> os_walk_stack scan w rest
           | Some names \<Rightarrow>
               Option.bind
                 (os_walk_stack scan w (map (os_path_join dir) (walk_dirs_of w dir names) @ rest))
                 (\<lambda>r. Some ((dir, walk_dirs_of w dir names, walk_nondirs_of w dir names) # r))))"

definition os_walk :: "scan \<Rightarrow> world \<Rightarrow> path \<Rightarrow> listing option" where
  "os_walk scan w dir = os_walk_stack scan w [dir]"

text \<open>
  \<open>_walker\<close> with its own call \<open>os.walk(self._root)\<close> (line 112): the walk over the
  tree followed by the loop over what it yields. \<open>None\<close> is a walk that does not end;
  \<open>os.walk(None)\<close> raises \<open>TypeError\<close> in \<open>os.fspath\<close>. Since the loop only
  appends to the report file, which changes no directory's entries, scanning every
  directory before the loop yields what the lazy generator yields interleaved with it.
\<close>

definition walker_tree ::
  "scan \<Rightarrow> finder \<Rightarrow> path \<Rightarrow> world \<Rightarrow> ((py_error + nat \<times> match_tuple list option) \<times> world) option" where
  "walker_tree scan ff write_file w =
     (case ff_root ff of
        None \<Rightarrow> Some (Inl (TypeError ''expected str, bytes or os.PathLike object, not NoneType''), w)
      | Some root \<Rightarrow> map_option (\<lambda>listing. walker ff write_file listing w) (os_walk scan w root))"

text \<open>
  What the system's \<open>scandir\<close> may answer: distinct names of existing entries, each
  a non-empty name without a slash.
\<close>

definition scan_sound :: "world \<Rightarrow> scan \<Rightarrow> bool" where
  "scan_sound w scan \<longleftrightarrow>
     (\<forall>p names. scan p = Some names \<longrightarrow>
        distinct names \<and>
        (\<forall>n \<in> set names. n \<noteq> [] \<and> CHR ''/'' \<notin> set n \<and> os_path_join p n \<in> dom (w_fs w)))"

text \<open>
  The directories the walk reaches from \<open>dir\<close>: \<open>dir\<close> itself, and whatever is
  reached from a subdirectory of a directory whose scan succeeds.
\<close>

inductive walk_reach :: "scan \<Rightarrow> world \<Rightarrow> path \<Rightarrow> path \<Rightarrow> bool" where
  here: "walk_reach scan w dir dir"
| down: "scan dir = Some names \<Longrightarrow> n \<in> set names \<Longrightarrow> is_dir w (os_path_join dir n) \<Longrightarrow>
         walk_reach scan w (os_path_join dir n) p \<Longrightarrow> walk_reach scan w dir p"

text \<open>The prefix every entry of directory \<open>p\<close> starts with.\<close>

definition dir_prefix :: "path \<Rightarrow> path" where
  "dir_prefix p = (if p \<noteq> [] \<and> last p = CHR ''/'' then p else p @ ''/'')"

text \<open>
  The stack's invariant: distinct non-empty paths from which no path is reached
  twice.
\<close>

definition walk_stack_ok :: "scan \<Rightarrow> world \<Rightarrow> path list \<Rightarrow> bool" where
  "walk_stack_ok scan w stack \<longleftrightarrow>
     distinct stack \<and> (\<forall>s \<in> set stack. s \<noteq> []) \<and>
     (\<forall>s1 \<in> set stack. \<forall>s2 \<in> set stack. \<forall>q.
        walk_reach scan w s1 q \<longrightarrow> walk_reach scan w s2 q \<longrightarrow> s1 = s2)"

text \<open>The triples a walk from the stack should yield.\<close>

definition walk_spec :: "scan \<Rightarrow> world \<Rightarrow> path list \<Rightarrow> (path \<times> string list \<times> string list) set" where
  "walk_spec scan w stack =
     {(p, walk_dirs_of w p names, walk_nondirs_of w p names) | p names.
        (\<exists>s \<in> set stack. walk_reach scan w s p) \<and> scan p = Some names}"

text \<open>
  The example tree of the walker's witnesses seen from \<open>/\<close>: \<open>/\<close> lists \<open>d\<close> and
  \<open>out\<close>, \<open>/d\<close> lists its three files, and \<open>/out\<close> cannot be read.
\<close>

definition ex_scan :: scan where
  "ex_scan p =
     (if p = ''/'' then Some [''d'', ''out'']
      else if p = ''/d'' then Some [''a.md'', ''b.txt'', ''c.md''] else None)"

definition ex_root_world :: world where
  "ex_root_world = ex_world\<lparr>w_fs := (w_fs ex_world)(''/'' \<mapsto> ex_inode Directory 0 0 0)\<rparr>"

section \<open>Lemmas\<close>

inductive_simps walk_reach_simps: "walk_reach scan w dir p"

lemma os_walk_stack_Nil [simp]: "os_walk_stack scan w [] = Some []"
  by (simp add: os_walk_stack.simps)

lemma os_walk_stack_None [simp]:
  "scan dir = None \<Longrightarrow> os_walk_stack scan w (dir # rest) = os_walk_stack scan w rest"
  by (simp add: os_walk_stack.simps)

lemma os_walk_stack_Some [simp]:
  "scan dir = Some names \<Longrightarrow>
   os_walk_stack scan w (dir # rest) =
     Option.bind (os_walk_stack scan w (map (os_path_join dir) (walk_dirs_of w dir names) @ rest))
       (\<lambda>r. Some ((dir, walk_dirs_of w dir names, walk_nondirs_of w dir names) # r))"
  by (subst os_walk_stack.simps) simp

lemma walk_reach_None:
  "scan dir = None \<Longrightarrow> walk_reach scan w dir p \<longleftrightarrow> p = dir"
  by (subst walk_reach_simps) auto

lemma walk_reach_Some:
  "scan dir = Some names \<Longrightarrow>
   walk_reach scan w dir p \<longleftrightarrow>
     p = dir \<or> (\<exists>c \<in> set (map (os_path_join dir) (walk_dirs_of w dir names)). walk_reach scan w c p)"
  by (subst walk_reach_simps) (auto simp: walk_dirs_of_def)

lemma walk_spec_Nil [simp]: "walk_spec scan w [] = {}"
  by (simp add: walk_spec_def)

lemma walk_spec_Cons_None:
  "scan dir = None \<Longrightarrow> walk_spec scan w (dir # rest) = walk_spec scan w rest"
  by (auto simp: walk_spec_def walk_reach_None)

lemma walk_spec_Cons_Some:
  assumes "scan dir = Some names"
  shows "walk_spec scan w (dir # rest) =
           insert (dir, walk_dirs_of w dir names, walk_nondirs_of w dir names)
             (walk_spec scan w (map (os_path_join dir) (walk_dirs_of w dir names) @ rest))"
  using assms by (auto simp: walk_spec_def walk_reach_Some [where scan = scan and dir = dir and w = w])

text \<open>A scanned name makes a strictly longer path.\<close>

lemma length_os_path_join_name:
  "n \<noteq> [] \<Longrightarrow> CHR ''/'' \<notin> set n \<Longrightarrow> length p < length (os_path_join p n)"
  by (cases n) (auto simp: os_path_join_def)

text \<open>
  The termination measure: a directory on the stack weighs \<open>L + 1 - length\<close> of its
  path, where \<open>L\<close> bounds the length of every existing path; the stack's weight is the
  multiset of its directories' weights, which each step lowers.
\<close>

text \<open>
  The walk's induction rule, which is its termination argument: a directory on the
  stack weighs \<open>L + 1 - length\<close> of its path, where \<open>L\<close> bounds the length of every
  existing path; the stack's weight is the multiset of its directories' weights, and
  each step lowers it (a scanned directory is replaced by strictly longer existing
  paths).
\<close>

lemma os_walk_stack_induct [consumes 2, case_names Nil None Some]:
  assumes fin: "finite (dom (w_fs w))" and ok: "scan_sound w scan"
    and nil: "P []"
    and none: "\<And>dir rest. scan dir = None \<Longrightarrow> P rest \<Longrightarrow> P (dir # rest)"
    and some: "\<And>dir rest names. scan dir = Some names \<Longrightarrow>
                 P (map (os_path_join dir) (walk_dirs_of w dir names) @ rest) \<Longrightarrow> P (dir # rest)"
  shows "P stack"
proof -
  define L where "L = Max (length ` dom (w_fs w))"
  define \<mu> where "\<mu> = (\<lambda>st :: path list. mset (map (\<lambda>p. Suc L - length p) st))"
  have wf: "wf (inv_image (mult {(x, y). x < (y::nat)}) \<mu>)"
    by (intro wf_inv_image wf_mult wf_less)
  show ?thesis
  proof (induction stack rule: wf_induct_rule [OF wf])
    case (1 stack)
    show ?case
    proof (cases stack)
      case Nil
      then show ?thesis by (simp add: nil)
    next
      case (Cons dir rest)
      have drop: "(\<mu> rest, \<mu> (dir # rest)) \<in> mult {(x, y). x < y}"
        using one_step_implies_mult [of "{#Suc L - length dir#}" "{#}" _ "\<mu> rest"]
        by (simp add: \<mu>_def)
      show ?thesis
      proof (cases "scan dir")
        case None
        then show ?thesis
          using 1 [of rest] drop Cons none by simp
      next
        case (Some names)
        define cs where "cs = map (os_path_join dir) (walk_dirs_of w dir names)"
        have "Suc L - length c < Suc L - length dir" if c_in: "c \<in> set cs" for c
        proof -
          obtain n where n: "n \<in> set names" and c: "c = os_path_join dir n"
            using c_in by (auto simp: cs_def walk_dirs_of_def)
          have "n \<noteq> []" "CHR ''/'' \<notin> set n" "c \<in> dom (w_fs w)"
            using ok Some n c by (auto simp: scan_sound_def)
          then have "length dir < length c" "length c \<le> L"
            using length_os_path_join_name [of n dir] fin c by (auto simp: L_def)
          then show ?thesis by arith
        qed
        then have "(\<mu> (cs @ rest), \<mu> (dir # rest)) \<in> mult {(x, y). x < y}"
          using one_step_implies_mult [of "{#Suc L - length dir#}" "mset (map (\<lambda>p. Suc L - length p) cs)"
              _ "\<mu> rest"]
          by (auto simp: \<mu>_def add.commute)
        then show ?thesis
          using 1 [of "cs @ rest"] Cons some [OF Some] by (simp add: cs_def)
      qed
    qed
  qed
qed

lemma os_walk_stack_spec:
  assumes fin: "finite (dom (w_fs w))" and ok: "scan_sound w scan"
  shows "\<exists>l. os_walk_stack scan w stack = Some l \<and> set l = walk_spec scan w stack"
  using fin ok
proof (induction stack rule: os_walk_stack_induct)
  case Nil
  then show ?case by simp
next
  case (None dir rest)
  then show ?case by (simp add: walk_spec_Cons_None)
next
  case (Some dir rest names)
  then show ?case by (auto simp: walk_spec_Cons_Some)
qed

section \<open>Each directory once\<close>

lemma prefix_dir_prefix: "prefix p (dir_prefix p)"
  by (simp add: dir_prefix_def)

lemma dir_prefix_noslash: "p \<noteq> [] \<Longrightarrow> last p \<noteq> CHR ''/'' \<Longrightarrow> dir_prefix p = p @ ''/''"
  by (simp add: dir_prefix_def)

lemma os_path_join_dir_prefix:
  "p \<noteq> [] \<Longrightarrow> n \<noteq> [] \<Longrightarrow> CHR ''/'' \<notin> set n \<Longrightarrow> os_path_join p n = dir_prefix p @ n"
  by (cases n) (auto simp: os_path_join_def dir_prefix_def)

lemma last_append_name: "n \<noteq> [] \<Longrightarrow> CHR ''/'' \<notin> set n \<Longrightarrow> last (xs @ n) \<noteq> CHR ''/''"
proof -
  assume n: "n \<noteq> []" "CHR ''/'' \<notin> set n"
  have l: "last (xs @ n) = last n" using n(1) by simp
  have "last n \<in> set n" using n(1) by simp
  then show ?thesis using l n(2) by metis
qed

lemma scan_sound_name:
  "scan_sound w scan \<Longrightarrow> scan p = Some names \<Longrightarrow> n \<in> set names \<Longrightarrow> n \<noteq> [] \<and> CHR ''/'' \<notin> set n"
  by (auto simp: scan_sound_def)

text \<open>Everything reached from \<open>c\<close> other than \<open>c\<close> lies below \<open>c\<close>'s prefix and does
  not end with a slash.\<close>

lemma walk_reach_shape:
  assumes "walk_reach scan w c q" and "scan_sound w scan" and "c \<noteq> []"
  shows "q = c \<or> (prefix (dir_prefix c) q \<and> q \<noteq> [] \<and> last q \<noteq> CHR ''/'')"
  using assms
proof (induction rule: walk_reach.induct)
  case (here scan w dir)
  then show ?case by simp
next
  case (down scan dir names n w p)
  have n: "n \<noteq> []" "CHR ''/'' \<notin> set n"
    using scan_sound_name [OF down.prems(1) down.hyps(1,2)] by auto
  define c' where "c' = os_path_join dir n"
  have c': "c' = dir_prefix dir @ n"
    using n down.prems(2) by (simp add: c'_def os_path_join_dir_prefix)
  have ne: "c' \<noteq> []" "last c' \<noteq> CHR ''/''"
    using c' n last_append_name by auto
  have "p = c' \<or> (prefix (dir_prefix c') p \<and> p \<noteq> [] \<and> last p \<noteq> CHR ''/'')"
    using down.IH [OF down.prems(1)] ne(1) by (simp add: c'_def)
  then show ?case
  proof
    assume "p = c'"
    then show ?thesis using c' ne by auto
  next
    assume h: "prefix (dir_prefix c') p \<and> p \<noteq> [] \<and> last p \<noteq> CHR ''/''"
    have "prefix (dir_prefix dir) c'" using c' by simp
    then have "prefix (dir_prefix dir) p"
      using prefix_dir_prefix [of c'] h by (meson prefix_order.trans)
    then show ?thesis using h by simp
  qed
qed

lemma walk_reach_length:
  assumes "walk_reach scan w c q" and "scan_sound w scan" and "c \<noteq> []"
  shows "length c \<le> length q"
proof -
  have "length c \<le> length (dir_prefix c)"
    by (simp add: dir_prefix_def)
  with walk_reach_shape [OF assms] show ?thesis
    by (auto dest: prefix_length_le)
qed

lemma name_slash_prefix:
  "prefix (a @ ''/'') (b @ ''/'') \<Longrightarrow> CHR ''/'' \<notin> set a \<Longrightarrow> CHR ''/'' \<notin> set b \<Longrightarrow> a = b"
proof (induction a arbitrary: b)
  case Nil
  then show ?case by (cases b) auto
next
  case (Cons x a)
  note IH = Cons.IH and P = Cons.prems
  show ?case
  proof (cases b)
    case Nil
    then show ?thesis using P by simp
  next
    case (Cons y b')
    then show ?thesis using P IH [of b'] by simp
  qed
qed

text \<open>The subtrees of two different subdirectories do not meet.\<close>

lemma walk_reach_children_disjoint:
  assumes ok: "scan_sound w scan" and d: "dir \<noteq> []" and sc: "scan dir = Some names"
    and n1: "n1 \<in> set names" and n2: "n2 \<in> set names"
    and r1: "walk_reach scan w (os_path_join dir n1) q" and r2: "walk_reach scan w (os_path_join dir n2) q"
  shows "n1 = n2"
proof -
  have s1: "n1 \<noteq> []" "CHR ''/'' \<notin> set n1" and s2: "n2 \<noteq> []" "CHR ''/'' \<notin> set n2"
    using scan_sound_name [OF ok sc n1] scan_sound_name [OF ok sc n2] by auto
  let ?d = "dir_prefix dir"
  have j: "os_path_join dir n1 = ?d @ n1" "os_path_join dir n2 = ?d @ n2"
    using d s1 s2 by (simp_all add: os_path_join_dir_prefix)
  have p1: "dir_prefix (?d @ n1) = ?d @ n1 @ ''/''" and p2: "dir_prefix (?d @ n2) = ?d @ n2 @ ''/''"
    using s1 s2 last_append_name by (simp_all add: dir_prefix_noslash)
  have q1: "q = ?d @ n1 \<or> prefix (?d @ n1 @ ''/'') q"
    using walk_reach_shape [OF r1 ok] j p1 s1 by auto
  have q2: "q = ?d @ n2 \<or> prefix (?d @ n2 @ ''/'') q"
    using walk_reach_shape [OF r2 ok] j p2 s2 by auto
  have no: "\<not> prefix (?d @ a @ ''/'') (?d @ b)" if "CHR ''/'' \<notin> set b" for a b
  proof
    assume "prefix (?d @ a @ ''/'') (?d @ b)"
    then have "prefix (a @ ''/'') b" by simp
    then have "set (a @ ''/'') \<subseteq> set b" by (rule set_mono_prefix)
    then show False using that by simp
  qed
  from q1 q2 show ?thesis
  proof (elim disjE)
    assume "q = ?d @ n1" "q = ?d @ n2"
    then show ?thesis by simp
  next
    assume "q = ?d @ n1" "prefix (?d @ n2 @ ''/'') q"
    then show ?thesis using no [OF s1(2), of n2] by simp
  next
    assume "prefix (?d @ n1 @ ''/'') q" "q = ?d @ n2"
    then show ?thesis using no [OF s2(2), of n1] by simp
  next
    assume a: "prefix (?d @ n1 @ ''/'') q" and b: "prefix (?d @ n2 @ ''/'') q"
    have "prefix (?d @ n1 @ ''/'') (?d @ n2 @ ''/'') \<or> prefix (?d @ n2 @ ''/'') (?d @ n1 @ ''/'')"
      by (rule prefix_same_cases [OF a b])
    then have "prefix (n1 @ ''/'') (n2 @ ''/'') \<or> prefix (n2 @ ''/'') (n1 @ ''/'')"
      by simp
    then show ?thesis
      using name_slash_prefix [of n1 n2] name_slash_prefix [of n2 n1] s1 s2 by auto
  qed
qed

lemma walk_child_reach:
  "scan dir = Some names \<Longrightarrow> c \<in> set (map (os_path_join dir) (walk_dirs_of w dir names)) \<Longrightarrow>
   walk_reach scan w c q \<Longrightarrow> walk_reach scan w dir q"
  by (auto simp: walk_dirs_of_def intro: walk_reach.down)

lemma walk_child_longer:
  "scan_sound w scan \<Longrightarrow> scan dir = Some names \<Longrightarrow>
   c \<in> set (map (os_path_join dir) (walk_dirs_of w dir names)) \<Longrightarrow> length dir < length c"
  by (auto simp: walk_dirs_of_def dest: scan_sound_name intro: length_os_path_join_name)

lemma walk_stack_ok_None: "walk_stack_ok scan w (dir # rest) \<Longrightarrow> walk_stack_ok scan w rest"
  by (auto simp: walk_stack_ok_def)

lemma walk_stack_ok_Some:
  assumes ok: "scan_sound w scan" and st: "walk_stack_ok scan w (dir # rest)"
    and sc: "scan dir = Some names"
  shows "walk_stack_ok scan w (map (os_path_join dir) (walk_dirs_of w dir names) @ rest)"
proof -
  define cs where "cs = map (os_path_join dir) (walk_dirs_of w dir names)"
  have d: "dir \<noteq> []" "dir \<notin> set rest" and ne: "\<forall>s \<in> set rest. s \<noteq> []" and dr: "distinct rest"
    and I: "\<And>s1 s2 q. s1 \<in> set (dir # rest) \<Longrightarrow> s2 \<in> set (dir # rest) \<Longrightarrow>
              walk_reach scan w s1 q \<Longrightarrow> walk_reach scan w s2 q \<Longrightarrow> s1 = s2"
    using st by (auto simp: walk_stack_ok_def)
  have names: "distinct names" "\<And>n. n \<in> set names \<Longrightarrow> n \<noteq> [] \<and> CHR ''/'' \<notin> set n"
    using ok sc by (auto simp: scan_sound_def)
  have "inj_on (os_path_join dir) (set names)"
    using d(1) names(2) by (auto simp: inj_on_def os_path_join_dir_prefix)
  then have csd: "distinct cs"
    using names(1) by (auto simp: cs_def walk_dirs_of_def distinct_map intro: inj_on_subset)
  have up: "walk_reach scan w dir q" if "c \<in> set cs" "walk_reach scan w c q" for c q
    using walk_child_reach [where scan = scan and dir = dir, OF sc] that by (simp add: cs_def)
  have cs_rest: "c \<notin> set rest" if "c \<in> set cs" for c
  proof
    assume "c \<in> set rest"
    then have "dir = c" using I [of dir c c] up [OF that walk_reach.here] walk_reach.here by simp
    then show False using \<open>c \<in> set rest\<close> d(2) by simp
  qed
  have cne: "c \<noteq> []" if "c \<in> set cs" for c
    using walk_child_longer [OF ok sc] that by (fastforce simp: cs_def)
  have disj: "s1 = s2" if m: "s1 \<in> set (cs @ rest)" "s2 \<in> set (cs @ rest)"
      and r: "walk_reach scan w s1 q" "walk_reach scan w s2 q" for s1 s2 q
  proof -
    consider "s1 \<in> set cs" "s2 \<in> set cs" | "s1 \<in> set cs" "s2 \<in> set rest"
      | "s1 \<in> set rest" "s2 \<in> set cs" | "s1 \<in> set rest" "s2 \<in> set rest"
      using m by auto
    then show ?thesis
    proof cases
      case 1
      then obtain n1 n2 where "n1 \<in> set names" "s1 = os_path_join dir n1"
        "n2 \<in> set names" "s2 = os_path_join dir n2"
        by (auto simp: cs_def walk_dirs_of_def)
      then show ?thesis
        using walk_reach_children_disjoint [OF ok d(1) sc] r by blast
    next
      case 2
      then have "dir = s2" using I [of dir s2 q] up [of s1 q] r by simp
      then show ?thesis using 2 d(2) by simp
    next
      case 3
      then have "dir = s1" using I [of dir s1 q] up [of s2 q] r by simp
      then show ?thesis using 3 d(2) by simp
    next
      case 4
      then show ?thesis using I r by simp
    qed
  qed
  show ?thesis
    unfolding walk_stack_ok_def cs_def [symmetric]
    using csd cs_rest dr ne cne disj by auto
qed

lemma walk_stack_ok_top:
  assumes ok: "scan_sound w scan" and st: "walk_stack_ok scan w (dir # rest)"
    and sc: "scan dir = Some names"
    and s: "s \<in> set (map (os_path_join dir) (walk_dirs_of w dir names) @ rest)"
  shows "\<not> walk_reach scan w s dir"
proof
  assume r: "walk_reach scan w s dir"
  show False
  proof (cases "s \<in> set rest")
    case True
    then have "s = dir"
      using st r walk_reach.here [of scan w dir] by (auto simp: walk_stack_ok_def)
    then show False using True st by (simp add: walk_stack_ok_def)
  next
    case False
    then have c: "s \<in> set (map (os_path_join dir) (walk_dirs_of w dir names))" using s by simp
    then have lt: "length dir < length s" by (rule walk_child_longer [OF ok sc])
    then have "s \<noteq> []" by auto
    then have "length s \<le> length dir" by (rule walk_reach_length [OF r ok])
    then show False using lt by simp
  qed
qed

text \<open>The walk yields every directory at most once.\<close>

lemma os_walk_stack_distinct:
  assumes fin: "finite (dom (w_fs w))" and ok: "scan_sound w scan"
  shows "walk_stack_ok scan w stack \<Longrightarrow> os_walk_stack scan w stack = Some l \<Longrightarrow> distinct (map fst l)"
  using fin ok
proof (induction stack arbitrary: l rule: os_walk_stack_induct)
  case Nil
  then show ?case by simp
next
  case (None dir rest)
  then show ?case using walk_stack_ok_None by simp
next
  case (Some dir rest names)
  define cs where "cs = map (os_path_join dir) (walk_dirs_of w dir names)"
  obtain l' where l': "os_walk_stack scan w (cs @ rest) = Some l'"
    and l: "l = (dir, walk_dirs_of w dir names, walk_nondirs_of w dir names) # l'"
    using Some.prems(2) Some.hyps by (cases "os_walk_stack scan w (cs @ rest)") (auto simp: cs_def)
  have st': "walk_stack_ok scan w (cs @ rest)"
    unfolding cs_def by (rule walk_stack_ok_Some [OF ok Some.prems(1) Some.hyps])
  have "set l' = walk_spec scan w (cs @ rest)"
    using os_walk_stack_spec [OF fin ok, of "cs @ rest"] l' by auto
  then have "dir \<notin> fst ` set l'"
    using walk_stack_ok_top [OF ok Some.prems(1) Some.hyps] by (auto simp: walk_spec_def cs_def)
  then show ?case
    using Some.IH [OF st' [unfolded cs_def] l' [unfolded cs_def]] l by simp
qed

lemma split_at_last_sep:
  assumes "xs @ ys = xs' @ ys'" and "xs \<noteq> []" "last xs = c" and "xs' \<noteq> []" "last xs' = c"
    and "c \<notin> set ys" "c \<notin> set ys'"
  shows "xs = xs'"
proof -
  obtain us where "xs = xs' @ us \<and> us @ ys = ys' \<or> xs @ us = xs' \<and> ys = us @ ys'"
    using assms(1) by (auto simp: append_eq_append_conv2)
  then show ?thesis
  proof
    assume h: "xs = xs' @ us \<and> us @ ys = ys'"
    show ?thesis
    proof (cases "us = []")
      case True
      then show ?thesis using h by simp
    next
      case False
      then have "last us = c" using h assms(3) by simp
      then have "c \<in> set ys'" using h last_in_set [OF False] by auto
      then show ?thesis using assms(7) by simp
    qed
  next
    assume h: "xs @ us = xs' \<and> ys = us @ ys'"
    show ?thesis
    proof (cases "us = []")
      case True
      then show ?thesis using h by simp
    next
      case False
      then have "last us = c" using h assms(5) by (metis last_appendR)
      then have "c \<in> set ys" using h last_in_set [OF False] by auto
      then show ?thesis using assms(6) by simp
    qed
  qed
qed

lemma dir_prefix_last: "p \<noteq> [] \<Longrightarrow> dir_prefix p \<noteq> [] \<and> last (dir_prefix p) = CHR ''/''"
  by (simp add: dir_prefix_def)

text \<open>Two directories reached from the same root have different prefixes.\<close>

lemma dir_prefix_reach_inj:
  assumes ok: "scan_sound w scan" and r: "r \<noteq> []"
    and p: "walk_reach scan w r p" and p': "walk_reach scan w r p'"
    and eq: "dir_prefix p = dir_prefix p'"
  shows "p = p'"
proof -
  have below: "False" if "walk_reach scan w r q" "q \<noteq> r" "dir_prefix r = dir_prefix q" for q
  proof -
    have q: "prefix (dir_prefix r) q" "q \<noteq> []" "last q \<noteq> CHR ''/''"
      using walk_reach_shape [OF that(1) ok r] that(2) by auto
    then have "prefix (q @ ''/'') q" using that(3) by (simp add: dir_prefix_noslash)
    then show False by (auto dest: prefix_length_le)
  qed
  have sp: "p = r \<or> (p \<noteq> [] \<and> last p \<noteq> CHR ''/'')" and sp': "p' = r \<or> (p' \<noteq> [] \<and> last p' \<noteq> CHR ''/'')"
    using walk_reach_shape [OF p ok r] walk_reach_shape [OF p' ok r] by auto
  show ?thesis
  proof (cases "p = r \<or> p' = r")
    case True
    then show ?thesis using below [OF p] below [OF p'] eq by auto
  next
    case False
    then show ?thesis using sp sp' eq by (simp add: dir_prefix_noslash)
  qed
qed

text \<open>A listing whose directories are distinct and whose entry paths determine
  directory and name lists every path once.\<close>

lemma distinct_listed_concat:
  assumes "distinct (map fst l)" and "\<And>p ds fs. (p, ds, fs) \<in> set l \<Longrightarrow> distinct fs"
    and "\<And>p ds fs p' ds' fs' n n'. (p, ds, fs) \<in> set l \<Longrightarrow> (p', ds', fs') \<in> set l \<Longrightarrow>
           n \<in> set fs \<Longrightarrow> n' \<in> set fs' \<Longrightarrow> g p n = g p' n' \<Longrightarrow> p = p' \<and> n = n'"
  shows "distinct (concat (map (\<lambda>(p, ds, fs). map (g p) fs) l))"
  using assms
proof (induction l)
  case Nil
  then show ?case by simp
next
  case (Cons e l)
  obtain p ds fs where e: "e = (p, ds, fs)" by (cases e) auto
  have inj: "inj_on (g p) (set fs)"
    using Cons.prems(3) [of p ds fs p ds fs] e by (auto simp: inj_on_def)
  have out: "g p n \<noteq> g p' n'" if "n \<in> set fs" "(p', ds', fs') \<in> set l" "n' \<in> set fs'" for n p' ds' fs' n'
  proof
    assume "g p n = g p' n'"
    then have "p = p'" using Cons.prems(3) [of p ds fs p' ds' fs' n n'] that e by auto
    then show False using Cons.prems(1) that(2) e by force
  qed
  have "distinct (concat (map (\<lambda>(p, ds, fs). map (g p) fs) l))"
  proof (rule Cons.IH)
    show "distinct (map fst l)" using Cons.prems(1) by simp
    show "distinct fs" if "(p, ds, fs) \<in> set l" for p ds fs
      using Cons.prems(2) that by (meson list.set_intros(2))
    show "p = p' \<and> n = n'" if "(p, ds, fs) \<in> set l" "(p', ds', fs') \<in> set l" "n \<in> set fs"
      "n' \<in> set fs'" "g p n = g p' n'" for p ds fs p' ds' fs' n n'
      using Cons.prems(3) that by (meson list.set_intros(2))
  qed
  then show ?case
    using e inj Cons.prems(2) [of p ds fs] out by (auto simp: distinct_map)
qed

lemma os_walk_listed_paths:
  assumes "set l = walk_spec scan w [dir]"
  shows "set (listed_paths l) =
           {os_path_join p n | p names n. walk_reach scan w dir p \<and> scan p = Some names \<and>
                                         n \<in> set (walk_nondirs_of w p names)}"
  unfolding listed_paths_def using assms by (auto simp: walk_spec_def; fastforce)

lemma ex_scan_facts:
  "finite (dom (w_fs ex_root_world))" "scan_sound ex_root_world ex_scan"
  by (simp_all add: ex_root_world_def ex_world_def ex_inode_def scan_sound_def ex_scan_def
      os_path_join_def)

lemma os_walk_spec:
  assumes "finite (dom (w_fs w))" and "scan_sound w scan"
  shows "\<exists>l. os_walk scan w dir = Some l \<and> set l = walk_spec scan w [dir]"
  using os_walk_stack_spec [OF assms, of "[dir]"] by (simp add: os_walk_def)

text \<open>A walk from a non-empty root lists every path once.\<close>

lemma os_walk_distinct:
  assumes fin: "finite (dom (w_fs w))" and ok: "scan_sound w scan" and r: "r \<noteq> []"
    and walk: "os_walk scan w r = Some l"
  shows "distinct (map fst l) \<and> distinct (listed_paths l)"
proof -
  have st: "walk_stack_ok scan w [r]" using r by (simp add: walk_stack_ok_def)
  have d: "distinct (map fst l)"
    using os_walk_stack_distinct [OF fin ok st] walk by (simp add: os_walk_def)
  have spec: "set l = walk_spec scan w [r]"
    using os_walk_spec [OF fin ok, of r] walk by auto
  have ent: "\<exists>names. walk_reach scan w r p \<and> scan p = Some names \<and> fs = walk_nondirs_of w p names"
    if "(p, ds, fs) \<in> set l" for p ds fs
    using that spec by (auto simp: walk_spec_def)
  have fsd: "distinct fs" if e: "(p, ds, fs) \<in> set l" for p ds fs
  proof -
    obtain names where "scan p = Some names" "fs = walk_nondirs_of w p names"
      using ent [OF e] by blast
    then show ?thesis using ok by (simp add: walk_nondirs_of_def scan_sound_def)
  qed
  have key: "p = p' \<and> n = n'"
    if e: "(p, ds, fs) \<in> set l" "(p', ds', fs') \<in> set l" and n: "n \<in> set fs" "n' \<in> set fs'"
      and j: "os_path_join p n = os_path_join p' n'" for p ds fs p' ds' fs' n n'
  proof -
    obtain names names' where a: "walk_reach scan w r p" "scan p = Some names" "fs = walk_nondirs_of w p names"
      and b: "walk_reach scan w r p'" "scan p' = Some names'" "fs' = walk_nondirs_of w p' names'"
      using ent [OF e(1)] ent [OF e(2)] by blast
    have nn: "n \<noteq> [] \<and> CHR ''/'' \<notin> set n" "n' \<noteq> [] \<and> CHR ''/'' \<notin> set n'"
      using scan_sound_name [OF ok a(2)] scan_sound_name [OF ok b(2)] a(3) b(3) n
      by (auto simp: walk_nondirs_of_def)
    have pe: "p \<noteq> []" "p' \<noteq> []"
      using walk_reach_length [OF a(1) ok r] walk_reach_length [OF b(1) ok r] r by auto
    have jj: "dir_prefix p @ n = dir_prefix p' @ n'"
      using j nn pe by (simp add: os_path_join_dir_prefix)
    have dp: "dir_prefix p = dir_prefix p'"
    proof (rule split_at_last_sep [OF jj])
      show "dir_prefix p \<noteq> []" "last (dir_prefix p) = CHR ''/''"
        using dir_prefix_last [OF pe(1)] by simp_all
      show "dir_prefix p' \<noteq> []" "last (dir_prefix p') = CHR ''/''"
        using dir_prefix_last [OF pe(2)] by simp_all
      show "CHR ''/'' \<notin> set n" "CHR ''/'' \<notin> set n'"
        using nn by simp_all
    qed
    show ?thesis
      using dir_prefix_reach_inj [OF ok r a(1) b(1) dp] jj dp by simp
  qed
  have "distinct (listed_paths l)"
    unfolding listed_paths_def by (rule distinct_listed_concat [OF d fsd key])
  then show ?thesis using d by simp
qed

section \<open>Properties of the walk over the tree\<close>

text \<open>
  C17. An unreadable root is not an error: when the scan of the root raises
  \<open>OSError\<close>, \<open>os.walk\<close> yields nothing and \<open>_walker\<close> (once its bounds have
  timestamps) returns a count of zero with the world unchanged, even when no extensions
  were given (the attribute is never read).
\<close>

theorem walker_tree_unreadable_root:
  assumes "ff_root ff = Some root" and "scan root = None" and "window_ok ff"
  shows "walker_tree scan ff rf w = Some (Inr (0, if ff_sort_info ff then Some [] else None), w)"
  using assms by (simp add: walker_tree_def os_walk_def walker_def walker_window_ok)

lemma walker_tree_unreadable_root_witness:
  "ff_root (ex_finder\<lparr>ff_root := Some ''/out'', ff_extensions := None\<rparr>) = Some ''/out'' \<and>
   ex_scan ''/out'' = None \<and> window_ok (ex_finder\<lparr>ff_root := Some ''/out'', ff_extensions := None\<rparr>) \<and>
   walker_tree ex_scan (ex_finder\<lparr>ff_root := Some ''/out'', ff_extensions := None\<rparr>)
     ''/out/founded_table.txt'' ex_root_world = Some (Inr (0, Some []), ex_root_world)"
proof -
  have h: "ff_root (ex_finder\<lparr>ff_root := Some ''/out'', ff_extensions := None\<rparr>) = Some ''/out''"
    "ex_scan ''/out'' = None" "window_ok (ex_finder\<lparr>ff_root := Some ''/out'', ff_extensions := None\<rparr>)"
    by (simp_all add: ex_scan_def ex_finder_window_ok)
  then show ?thesis
    using walker_tree_unreadable_root [where scan = ex_scan and root = "''/out''", OF h,
        of "''/out/founded_table.txt''" ex_root_world]
    by (simp add: ex_finder_def)
qed

text \<open>
  C26. No file is reported twice: for a non-empty root on a finite file system, the
  tuples \<open>_walker\<close> collects for \<open>_sorter\<close> name pairwise different paths, and
  their number is the count it returns. This rests on \<open>os.walk\<close> visiting every
  directory once and on \<open>os.path.join\<close> keeping directory and name apart.
\<close>

theorem walker_tree_reports_once:
  assumes fin: "finite (dom (w_fs w))" and sound: "scan_sound w scan"
    and root: "ff_root ff = Some r" and ne: "r \<noteq> []" and walk: "os_walk scan w r = Some l"
    and ext: "ff_extensions ff = Some exts" and reg: "is_regular w rf"
    and notlisted: "rf \<notin> set (listed_paths l)" and sort: "ff_sort_info ff" and win: "window_ok ff"
  shows "\<exists>ts w'. walker_tree scan ff rf w = Some (Inr (length ts, Some ts), w') \<and> distinct (map fst ts)"
proof -
  have "distinct (listed_paths l)"
    using os_walk_distinct [OF fin sound ne walk] by simp
  then have "distinct (map fst (reported ff w l))"
    by (simp add: map_fst_reported)
  then show ?thesis
    using walker_run [OF ext reg notlisted win] root walk sort
    by (simp add: walker_tree_def del: table_line.simps)
qed

lemma walker_tree_reports_once_witness:
  "finite (dom (w_fs ex_root_world)) \<and> scan_sound ex_root_world ex_scan \<and>
   ff_root (ex_finder\<lparr>ff_root := Some ''/''\<rparr>) = Some ''/'' \<and> ''/'' \<noteq> [] \<and>
   os_walk ex_scan ex_root_world ''/'' =
     Some [(''/'', [''d'', ''out''], []), (''/d'', [], [''a.md'', ''b.txt'', ''c.md''])] \<and>
   ff_extensions (ex_finder\<lparr>ff_root := Some ''/''\<rparr>) = Some {''.md''} \<and>
   is_regular ex_root_world ''/out/founded_table.txt'' \<and>
   ''/out/founded_table.txt'' \<notin>
     set (listed_paths [(''/'', [''d'', ''out''], []), (''/d'', [], [''a.md'', ''b.txt'', ''c.md''])]) \<and>
   ff_sort_info (ex_finder\<lparr>ff_root := Some ''/''\<rparr>) \<and> window_ok (ex_finder\<lparr>ff_root := Some ''/''\<rparr>) \<and>
   (\<exists>ts w'. walker_tree ex_scan (ex_finder\<lparr>ff_root := Some ''/''\<rparr>) ''/out/founded_table.txt''
               ex_root_world = Some (Inr (length ts, Some ts), w') \<and> distinct (map fst ts))"
proof -
  have h: "ff_root (ex_finder\<lparr>ff_root := Some ''/''\<rparr>) = Some ''/''" "''/'' \<noteq> []"
    "os_walk ex_scan ex_root_world ''/'' =
       Some [(''/'', [''d'', ''out''], []), (''/d'', [], [''a.md'', ''b.txt'', ''c.md''])]"
    "ff_extensions (ex_finder\<lparr>ff_root := Some ''/''\<rparr>) = Some {''.md''}"
    "is_regular ex_root_world ''/out/founded_table.txt''"
    "''/out/founded_table.txt'' \<notin>
       set (listed_paths [(''/'', [''d'', ''out''], []), (''/d'', [], [''a.md'', ''b.txt'', ''c.md''])])"
    "ff_sort_info (ex_finder\<lparr>ff_root := Some ''/''\<rparr>)"
    by (simp_all add: os_walk_def ex_scan_def walk_dirs_of_def walk_nondirs_of_def is_dir_def
        os_path_join_def ex_root_world_def ex_world_def ex_inode_def ex_finder_def is_regular_def
        file_text_def listed_paths_def)
  show ?thesis
    using ex_scan_facts h ex_finder_window_ok walker_tree_reports_once [OF ex_scan_facts h] by simp
qed

end
