(* ===== verification/Program.thy ===== *)
theory Program
  imports FindFiles OsWalk
begin

text \<open>
  The whole run of \<open>find_files\<close> as the code performs it: \<open>_walker\<close> calls
  \<open>os.walk(self._root)\<close> itself (line 112), after the header of
  \<open>founded_table.txt\<close> has been written (lines 184--189), so the walk sees the world
  of that moment, the report file included. The walk may in principle not end, so the
  run is an action of the type \<open>'a oio\<close>: \<open>None\<close> is a run that does not end, and
  otherwise the result and world of an \<open>io\<close> action. The system's \<open>scandir\<close> is the
  argument \<open>scandir\<close>, which answers in every world (\<open>scandir w\<close> is the
  \<open>scan\<close> of \<open>OsWalk\<close> in \<open>w\<close>). The lemmas show that this run is \<open>find_files\<close> of
  the theory \<open>FindFiles\<close> on the listing \<open>os.walk\<close> yields in the world after the
  header write, and that it ends on a finite file system, so every property of
  \<open>find_files\<close> on a listing holds for the whole program.
\<close>

type_synonym 'a oio = "world \<Rightarrow> ((py_error + 'a) \<times> world) option"

definition oio_lift :: "'a io \<Rightarrow> 'a oio" where
  "oio_lift m w = Some (m w)"

definition oio_bind :: "'a oio \<Rightarrow> ('a \<Rightarrow> 'b oio) \<Rightarrow> 'b oio" where
  "oio_bind m f w =
     (case m w of
        None \<Rightarrow> None
      | Some (Inl e, w') \<Rightarrow> Some (Inl e, w')
      | Some (Inr a, w') \<Rightarrow> f a w')"

text \<open>Lines 177--213 once the folders are resolved, with the walk of line 191 done by
  \<open>_walker\<close>'s own \<open>os.walk\<close> on the world after the header write.\<close>

definition report_run_tree :: "(world \<Rightarrow> scan) \<Rightarrow> finder \<Rightarrow> path \<Rightarrow> unit oio" where
  "report_run_tree scandir ff out =
     (let write_table = os_path_join out ''founded_table.txt''
      in oio_bind (oio_lift io_now) (\<lambda>now.
         let text = starting_text now ff
         in oio_bind (oio_lift (write_header write_table text)) (\<lambda>_.
            oio_bind (\<lambda>w. walker_tree (scandir w) ff write_table w) (\<lambda>(files_founded, files_list).
            oio_lift (io_bind (sort_phase ff out text files_list) (\<lambda>_.
                      io_bind (py_print (''Files founded: '' @ nat_str files_founded)) (\<lambda>_.
                      py_print (''Output info to: '' @ out @ '' folder''))))))))"

text \<open>\<open>find_files\<close> (lines 167--213).\<close>

definition find_files_tree :: "(world \<Rightarrow> scan) \<Rightarrow> finder \<Rightarrow> finder oio" where
  "find_files_tree scandir ff =
     oio_bind (oio_lift (resolve_paths ff)) (\<lambda>(root, out).
       let ff' = ff\<lparr>ff_root := Some root, ff_output_info_to := Some out\<rparr>
       in oio_bind (report_run_tree scandir ff' out) (\<lambda>_. oio_lift (io_return ff')))"

text \<open>
  The usage example of the class docstring (lines 72--81): the constructor with the
  example's arguments, then \<open>ff.find_files()\<close>.
\<close>

definition docstring_example :: "(world \<Rightarrow> scan) \<Rightarrow> finder oio" where
  "docstring_example scandir w =
     (case init_finder w (Some ''/home/user/Documents'') (Some ''2022-01-14 10:00:00'')
             (Some ''2022-01-15 16:36:59'') True (Some ''/home/user/Notes'') (Some [''TXT'', ''.md'']) True of
        Inl e \<Rightarrow> Some (Inl e, w)
      | Inr ff \<Rightarrow> find_files_tree scandir ff w)"

text \<open>
  A \<open>scandir\<close> for the witnesses: in every world it lists, of a fixed list of names,
  those that exist in the directory, and it fails on what is not a directory.
\<close>

definition vocab_scan :: "string list \<Rightarrow> world \<Rightarrow> scan" where
  "vocab_scan names w p =
     (if is_dir w p then Some (filter (\<lambda>n. w_fs w (os_path_join p n) \<noteq> None) names) else None)"

definition ex_names :: "string list" where
  "ex_names = [''d'', ''out'', ''a.md'', ''b.txt'', ''c.md'', ''founded_table.txt'']"

text \<open>A home directory for the docstring example: the root holds one Markdown file, the
  output folder is empty.\<close>

definition doc_world :: world where
  "doc_world =
     \<lparr>w_fs = [''/'' \<mapsto> ex_inode Directory 0 0 0, ''/home'' \<mapsto> ex_inode Directory 0 0 0,
              ''/home/user'' \<mapsto> ex_inode Directory 0 0 0,
              ''/home/user/Documents'' \<mapsto> ex_inode Directory 0 0 0,
              ''/home/user/Documents/a.md'' \<mapsto> ex_inode (Regular []) 1642158000000000 0 0,
              ''/home/user/Notes'' \<mapsto> ex_inode Directory 0 0 0],
      w_clock = 1642269600000000, w_cwd = ''/'', w_stdout = []\<rparr>"

definition doc_names :: "string list" where
  "doc_names = [''home'', ''user'', ''Documents'', ''Notes'', ''a.md'', ''founded_table.txt'',
                ''founded_list_sorted.txt'', ''founded_table_sorted.txt'']"

section \<open>Lemmas\<close>

lemma oio_bind_lift [simp]:
  "oio_bind (oio_lift m) f w = (case m w of (Inl e, w') \<Rightarrow> Some (Inl e, w') | (Inr a, w') \<Rightarrow> f a w')"
  by (simp add: oio_bind_def oio_lift_def split: prod.splits sum.splits)

lemma oio_lift_apply [simp]: "oio_lift m w = Some (m w)"
  by (simp add: oio_lift_def)

lemma vocab_scan_sound:
  assumes "distinct names" and "\<forall>n \<in> set names. n \<noteq> [] \<and> CHR ''/'' \<notin> set n"
  shows "scan_sound w (vocab_scan names w)"
  using assms by (auto simp: scan_sound_def vocab_scan_def split: if_splits)

lemma write_header_dom: "dom (w_fs (snd (write_header p t w))) \<subseteq> insert p (dom (w_fs w))"
  by (auto simp: write_header_def open_write_write_def open_append_write_def
      split: option.splits fkind.splits if_splits)

lemma resolve_paths_root:
  assumes "resolve_paths ff w = (Inr (root, out), w0)" and "w_cwd w \<noteq> []"
  shows "root \<noteq> []"
  using assms
  by (auto simp: resolve_paths_def io_bind_def os_chdir_def io_abspath_def os_getcwd_def Let_def
      split: prod.splits sum.splits option.splits if_splits)

text \<open>With the header written, the run with its own walk is the run on the walk's
  listing; a failed header write ends both the same way.\<close>

lemma report_run_tree_walk:
  assumes root: "ff_root ff = Some root"
    and hdr: "write_header (os_path_join out ''founded_table.txt'') (starting_text (w_clock w) ff) w = (Inr (), w1)"
    and walk: "os_walk (scandir w1) w1 root = Some l" and now: "now_ok (w_clock w)"
  shows "report_run_tree scandir ff out w = Some (report_run ff out l w)"
  using root hdr walk
  by (simp add: report_run_tree_def report_run_def io_now_ok [OF now] io_bind_def walker_tree_def Let_def
      oio_bind_def split: prod.splits sum.splits)

lemma report_run_tree_header_error:
  assumes "write_header (os_path_join out ''founded_table.txt'') (starting_text (w_clock w) ff) w = (Inl e, w1)"
  shows "report_run_tree scandir ff out w = Some (report_run ff out l w)"
  using assms by (simp add: report_run_tree_def report_run_def io_now_def io_bind_def Let_def split: sum.splits)

lemma report_run_tree_now_error:
  "\<not> now_ok (w_clock w) \<Longrightarrow> report_run_tree scandir ff out w = Some (report_run ff out l w)"
  by (simp add: report_run_tree_def report_run_def io_now_def dt_now_eq io_bind_def Let_def)

text \<open>On a finite file system the walk after the header ends, on a listing that names
  every path once.\<close>

lemma report_run_tree_ends_now:
  assumes root: "ff_root ff = Some root" and ne: "root \<noteq> []"
    and fin: "finite (dom (w_fs w))" and sound: "\<forall>v. scan_sound v (scandir v)"
    and now: "now_ok (w_clock w)"
  shows "\<exists>l. report_run_tree scandir ff out w = Some (report_run ff out l w) \<and> distinct (listed_paths l)"
proof (cases "write_header (os_path_join out ''founded_table.txt'') (starting_text (w_clock w) ff) w")
  case (Pair r w1)
  show ?thesis
  proof (cases r)
    case (Inl e)
    then show ?thesis
      using report_run_tree_header_error [of out w ff e w1 scandir "[]"] Pair
      by (intro exI [of _ "[]"]) (simp add: listed_paths_def)
  next
    case (Inr u)
    have "dom (w_fs w1) \<subseteq> insert (os_path_join out ''founded_table.txt'') (dom (w_fs w))"
      using write_header_dom [of "os_path_join out ''founded_table.txt''" "starting_text (w_clock w) ff" w] Pair
      by simp
    then have fin1: "finite (dom (w_fs w1))" using fin by (rule finite_subset [OF _ finite_insert [THEN iffD2]])
    have sound1: "scan_sound w1 (scandir w1)" using sound by simp
    obtain l where walk: "os_walk (scandir w1) w1 root = Some l"
      using os_walk_spec [OF fin1 sound1, of root] by blast
    have "distinct (listed_paths l)" using os_walk_distinct [OF fin1 sound1 ne walk] by simp
    then show ?thesis using report_run_tree_walk [where scandir = scandir, OF root _ walk now] Pair Inr by auto
  qed
qed

lemma report_run_tree_ends:
  assumes root: "ff_root ff = Some root" and ne: "root \<noteq> []"
    and fin: "finite (dom (w_fs w))" and sound: "\<forall>v. scan_sound v (scandir v)"
  shows "\<exists>l. report_run_tree scandir ff out w = Some (report_run ff out l w) \<and> distinct (listed_paths l)"
proof (cases "now_ok (w_clock w)")
  case True
  then show ?thesis by (rule report_run_tree_ends_now [OF root ne fin sound])
next
  case False
  then show ?thesis
    using report_run_tree_now_error [OF False, of scandir ff out "[]"]
    by (intro exI [of _ "[]"]) (simp add: listed_paths_def)
qed

lemma find_files_tree_report_run:
  assumes res: "resolve_paths ff w = (Inr (root, out), w0)"
    and run: "report_run_tree scandir (ff\<lparr>ff_root := Some root, ff_output_info_to := Some out\<rparr>) out w0 =
              Some (report_run (ff\<lparr>ff_root := Some root, ff_output_info_to := Some out\<rparr>) out l w0)"
  shows "find_files_tree scandir ff w = Some (find_files ff l w)"
proof -
  obtain r2 w2 where rr: "report_run (ff\<lparr>ff_root := Some root, ff_output_info_to := Some out\<rparr>) out l w0 = (r2, w2)"
    by fastforce
  then show ?thesis using find_files_run [OF res rr] run res
    by (cases r2) (simp_all add: find_files_tree_def oio_bind_def Let_def)
qed

text \<open>The whole run, once the folders are resolved, ends successfully when the report
  files can be written and the datetime calls return; it prints the count and the folder
  last.\<close>

lemma find_files_tree_completes:
  assumes fin: "finite (dom (w_fs w))" and sound: "\<forall>v. scan_sound v (scandir v)"
    and res: "resolve_paths ff w = (Inr (root, out), w0)" and ne: "root \<noteq> []"
    and ext: "ff_extensions ff = Some exts"
    and rep: "report_ok w0 (os_path_join out ''founded_table.txt'')"
    and srt: "ff_sort_info ff \<longrightarrow> report_ok w0 (os_path_join out ''founded_list_sorted.txt'') \<and>
                                 report_ok w0 (os_path_join out ''founded_table_sorted.txt'')"
    and now: "now_ok (w_clock w0)" and win: "window_ok ff"
  shows "\<exists>n w'. find_files_tree scandir ff w =
                  Some (Inr (ff\<lparr>ff_root := Some root, ff_output_info_to := Some out\<rparr>), w') \<and>
                w_stdout w' = w_stdout w0 @ [''Files founded: '' @ nat_str n, ''Output info to: '' @ out @ '' folder'']"
proof -
  define ff' where "ff' = ff\<lparr>ff_root := Some root, ff_output_info_to := Some out\<rparr>"
  have fin0: "finite (dom (w_fs w0))" using resolve_paths_frame [of ff w] res fin by simp
  have r': "ff_root ff' = Some root" by (simp add: ff'_def)
  obtain l where l: "report_run_tree scandir ff' out w0 = Some (report_run ff' out l w0)"
    using report_run_tree_ends [OF r' ne fin0 sound] by blast
  have ext': "ff_extensions ff' = Some exts" and win': "window_ok ff'"
    using ext win by (simp_all add: ff'_def)
  have srt': "ff_sort_info ff' \<Longrightarrow> report_ok w0 (os_path_join out ''founded_list_sorted.txt'') \<and>
                                  report_ok w0 (os_path_join out ''founded_table_sorted.txt'')"
    using srt by (simp add: ff'_def)
  obtain n w' where run: "report_run ff' out l w0 = (Inr (), w')"
    and so: "w_stdout w' = w_stdout w0 @ [''Files founded: '' @ nat_str n, ''Output info to: '' @ out @ '' folder'']"
    by (rule report_run_ok [OF ext' rep srt' now win'])
  have "find_files_tree scandir ff w = Some (Inr ff', w')"
    using res l run by (simp add: find_files_tree_def ff'_def oio_bind_def Let_def)
  then show ?thesis using so by (auto simp: ff'_def)
qed

lemma norm_ext_docstring: "norm_ext ''TXT'' = ''.txt''" "norm_ext ''.md'' = ''.md''"
  by code_simp+

lemma docstring_finder:
  "init_finder w (Some ''/home/user/Documents'') (Some ''2022-01-14 10:00:00'') (Some ''2022-01-15 16:36:59'')
     True (Some ''/home/user/Notes'') (Some [''TXT'', ''.md'']) True =
   Inr \<lparr>ff_root = Some ''/home/user/Documents'', ff_output_info_to = Some ''/home/user/Notes'',
        ff_start_date = \<lparr>dt_year = 2022, dt_month = 1, dt_day = 14, dt_hour = 10, dt_minute = 0,
                         dt_second = 0, dt_usec = 0\<rparr>,
        ff_end_date = \<lparr>dt_year = 2022, dt_month = 1, dt_day = 15, dt_hour = 16, dt_minute = 36,
                       dt_second = 59, dt_usec = 0\<rparr>,
        ff_sort_info = True, ff_extensions = Some {''.txt'', ''.md''}\<rparr>"
  using norm_ext_docstring
  by (simp add: init_finder_def date_format_def str_truthy_def list_truthy_def strptime_def
      compile_fmt_date_time valid_datetime_def build_datetime_def field_val_def days_in_month_def
      is_leap_def days_in_month_tab_def digits_val_def is_space_def py_simps)

lemma ex_vocab_facts:
  "\<forall>v. scan_sound v (vocab_scan ex_names v)" "w_cwd ex_root_world \<noteq> []"
  by (simp_all add: vocab_scan_sound ex_names_def ex_root_world_def ex_world_def)

section \<open>Properties of the whole run\<close>

text \<open>
  C27. The whole program refines the run on a listing, and the listing is the one its
  own walk produces: on a finite file system with a working directory, whatever the
  operating system's \<open>scandir\<close> answers, once the folders are resolved, the clock
  is in range and the header of \<open>founded_table.txt\<close> is written, \<open>os.walk\<close> of the
  root in the world after that write ends with a listing that names every path once,
  and \<open>find_files\<close> with \<open>_walker\<close>'s own walk does exactly what \<open>find_files\<close>
  of \<open>FindFiles\<close> does on that listing.
\<close>

theorem find_files_whole_run:
  assumes fin: "finite (dom (w_fs w))" and sound: "\<forall>v. scan_sound v (scandir v)" and cwd: "w_cwd w \<noteq> []"
    and res: "resolve_paths ff w = (Inr (root, out), w0)" and now: "now_ok (w_clock w0)"
    and hdr: "write_header (os_path_join out ''founded_table.txt'') (starting_text (w_clock w0) ff) w0 = (Inr (), w1)"
  shows "\<exists>l. os_walk (scandir w1) w1 root = Some l \<and> distinct (listed_paths l) \<and>
             find_files_tree scandir ff w = Some (find_files ff l w)"
proof -
  define ff' where "ff' = ff\<lparr>ff_root := Some root, ff_output_info_to := Some out\<rparr>"
  have fin0: "finite (dom (w_fs w0))" using resolve_paths_frame [of ff w] res fin by simp
  have "dom (w_fs w1) \<subseteq> insert (os_path_join out ''founded_table.txt'') (dom (w_fs w0))"
    using write_header_dom [of "os_path_join out ''founded_table.txt''" "starting_text (w_clock w0) ff" w0] hdr
    by simp
  then have fin1: "finite (dom (w_fs w1))" using fin0 by (rule finite_subset [OF _ finite_insert [THEN iffD2]])
  have sound1: "scan_sound w1 (scandir w1)" using sound by simp
  obtain l where walk: "os_walk (scandir w1) w1 root = Some l"
    using os_walk_spec [OF fin1 sound1, of root] by blast
  have dist: "distinct (listed_paths l)"
    using os_walk_distinct [OF fin1 sound1 resolve_paths_root [OF res cwd] walk] by simp
  have hdr': "write_header (os_path_join out ''founded_table.txt'') (starting_text (w_clock w0) ff') w0 = (Inr (), w1)"
    using hdr by (simp add: ff'_def starting_text_def)
  have "report_run_tree scandir ff' out w0 = Some (report_run ff' out l w0)"
    by (rule report_run_tree_walk [where scandir = scandir, OF _ hdr' walk now]) (simp add: ff'_def)
  then show ?thesis
    using find_files_tree_report_run [OF res] walk dist by (auto simp: ff'_def)
qed

lemma find_files_whole_run_witness:
  "\<exists>l. os_walk (vocab_scan ex_names (snd (write_header ''/out/founded_table.txt''
          (starting_text 30000000 ex_finder) (ex_root_world\<lparr>w_cwd := ''/d''\<rparr>))))
        (snd (write_header ''/out/founded_table.txt'' (starting_text 30000000 ex_finder) (ex_root_world\<lparr>w_cwd := ''/d''\<rparr>)))
        ''/d'' = Some l \<and> distinct (listed_paths l) \<and>
       find_files_tree (vocab_scan ex_names) ex_finder ex_root_world = Some (find_files ex_finder l ex_root_world)"
proof -
  let ?w0 = "ex_root_world\<lparr>w_cwd := ''/d''\<rparr>"
  have res: "resolve_paths ex_finder ex_root_world = (Inr (''/d'', ''/out''), ?w0)"
    by (rule resolve_paths_given_root)
       (simp_all add: ex_finder_def py_simps os_path_normpath_def Let_def is_dir_def ex_root_world_def
        ex_world_def ex_inode_def)
  have j: "os_path_join ''/out'' ''founded_table.txt'' = ''/out/founded_table.txt''"
    by (simp add: os_path_join_def py_simps)
  have hdr: "write_header ''/out/founded_table.txt'' (starting_text 30000000 ex_finder) ?w0 =
             (Inr (), snd (write_header ''/out/founded_table.txt'' (starting_text 30000000 ex_finder) ?w0))"
    by (simp add: write_header_def os_path_exists_def open_append_write_def ex_root_world_def ex_world_def
        ex_inode_def split: option.splits fkind.splits)
  have now: "now_ok (w_clock ?w0)" by (simp add: now_ok_def ex_root_world_def ex_world_def)
  have c: "w_clock ?w0 = 30000000" by (simp add: ex_root_world_def ex_world_def)
  show ?thesis
    using find_files_whole_run [OF ex_scan_facts(1) ex_vocab_facts res now] hdr j c by simp
qed

text \<open>
  C28. Liveness of a well-configured run: on a finite file system with a working
  directory, whatever \<open>scandir\<close> answers, a run with an extension filter, no root and
  an absolute output folder whose report files can be written always ends, and ends
  successfully: it returns the finder with the working directory as root and prints
  \<open>Files founded: n\<close> and the output folder as its last two lines. This holds even
  when the walk lists the report file itself.
\<close>

theorem find_files_whole_run_completes:
  assumes fin: "finite (dom (w_fs w))" and sound: "\<forall>v. scan_sound v (scandir v)" and cwd: "w_cwd w \<noteq> []"
    and ext: "ff_extensions ff = Some exts" and root: "ff_root ff = None"
    and out: "ff_output_info_to ff = Some out" "py_startswith out ''/''" "os_path_normpath out = out"
    and rep: "report_ok w (os_path_join out ''founded_table.txt'')"
    and srt: "ff_sort_info ff \<longrightarrow> report_ok w (os_path_join out ''founded_list_sorted.txt'') \<and>
                                 report_ok w (os_path_join out ''founded_table_sorted.txt'')"
    and now: "now_ok (w_clock w)" and win: "window_ok ff"
  shows "\<exists>n w'. find_files_tree scandir ff w =
                  Some (Inr (ff\<lparr>ff_root := Some (w_cwd w), ff_output_info_to := Some out\<rparr>), w') \<and>
                w_stdout w' = w_stdout w @ [''Files founded: '' @ nat_str n, ''Output info to: '' @ out @ '' folder'']"
  by (rule find_files_tree_completes [OF fin sound resolve_paths_given_out [OF root out] cwd ext rep srt now win])

lemma find_files_whole_run_completes_witness:
  "\<exists>n w'. find_files_tree (vocab_scan ex_names) (ex_finder\<lparr>ff_root := None\<rparr>) ex_root_world =
            Some (Inr (ex_finder\<lparr>ff_root := Some ''/'', ff_output_info_to := Some ''/out''\<rparr>), w') \<and>
          w_stdout w' = [''Files founded: '' @ nat_str n, ''Output info to: /out folder'']"
proof -
  let ?ff = "ex_finder\<lparr>ff_root := None\<rparr>"
  have h: "ff_extensions ?ff = Some {''.md''}" "ff_root ?ff = None" "ff_output_info_to ?ff = Some ''/out''"
    "py_startswith ''/out'' ''/''" "os_path_normpath ''/out'' = ''/out''"
    "report_ok ex_root_world (os_path_join ''/out'' ''founded_table.txt'')"
    "ff_sort_info ?ff \<longrightarrow> report_ok ex_root_world (os_path_join ''/out'' ''founded_list_sorted.txt'') \<and>
                         report_ok ex_root_world (os_path_join ''/out'' ''founded_table_sorted.txt'')"
    "now_ok (w_clock ex_root_world)"
    by (simp_all add: now_ok_def ex_finder_def py_simps os_path_normpath_def os_path_dirname_def Let_def
        report_ok_def is_dir_def is_regular_def file_text_def ex_root_world_def ex_world_def ex_inode_def
        os_path_join_def)
  have c: "w_cwd ex_root_world = ''/''" "w_stdout ex_root_world = []"
    by (simp_all add: ex_root_world_def ex_world_def)
  show ?thesis
    using find_files_whole_run_completes [OF ex_scan_facts(1) ex_vocab_facts h] ex_finder_window_ok c by simp
qed

text \<open>
  C33. The docstring's usage example, run as written: on a finite file system where
  \<open>/home/user/Documents\<close> is a directory and the three report files in
  \<open>/home/user/Notes\<close> can be written, whatever \<open>scandir\<close> answers, the
  constructor (which parses both dates, so never reads the clock) and then
  \<open>find_files()\<close> end successfully; the run prints \<open>Files founded: n\<close> and
  \<open>Output info to: /home/user/Notes folder\<close> as its last two lines.
\<close>

theorem docstring_example_completes:
  assumes fin: "finite (dom (w_fs w))" and sound: "\<forall>v. scan_sound v (scandir v)"
    and docs: "is_dir w ''/home/user/Documents''"
    and rep: "report_ok w ''/home/user/Notes/founded_table.txt''"
    and lp: "report_ok w ''/home/user/Notes/founded_list_sorted.txt''"
    and tp: "report_ok w ''/home/user/Notes/founded_table_sorted.txt''"
    and now: "now_ok (w_clock w)"
  shows "\<exists>ff n w'. docstring_example scandir w = Some (Inr ff, w') \<and>
                   w_stdout w' = w_stdout w @ [''Files founded: '' @ nat_str n,
                                               ''Output info to: /home/user/Notes folder'']"
proof -
  define ff where "ff = \<lparr>ff_root = Some ''/home/user/Documents'', ff_output_info_to = Some ''/home/user/Notes'',
        ff_start_date = \<lparr>dt_year = 2022, dt_month = 1, dt_day = 14, dt_hour = 10, dt_minute = 0,
                         dt_second = 0, dt_usec = 0\<rparr>,
        ff_end_date = \<lparr>dt_year = 2022, dt_month = 1, dt_day = 15, dt_hour = 16, dt_minute = 36,
                       dt_second = 59, dt_usec = 0\<rparr>,
        ff_sort_info = True, ff_extensions = Some {''.txt'', ''.md''}\<rparr>"
  have init: "docstring_example scandir w = find_files_tree scandir ff w"
    using docstring_finder [of w] by (simp add: docstring_example_def ff_def)
  have paths: "py_startswith ''/home/user/Documents'' ''/''" "os_path_normpath ''/home/user/Documents'' = ''/home/user/Documents''"
    "py_startswith ''/home/user/Notes'' ''/''" "os_path_normpath ''/home/user/Notes'' = ''/home/user/Notes''"
    by (simp_all add: py_simps os_path_normpath_def Let_def)
  have res: "resolve_paths ff w = (Inr (''/home/user/Documents'', ''/home/user/Notes''), w\<lparr>w_cwd := ''/home/user/Documents''\<rparr>)"
    by (rule resolve_paths_given_root) (simp_all add: ff_def paths docs)
  have j: "os_path_join ''/home/user/Notes'' ''founded_table.txt'' = ''/home/user/Notes/founded_table.txt''"
    "os_path_join ''/home/user/Notes'' ''founded_list_sorted.txt'' = ''/home/user/Notes/founded_list_sorted.txt''"
    "os_path_join ''/home/user/Notes'' ''founded_table_sorted.txt'' = ''/home/user/Notes/founded_table_sorted.txt''"
    by (simp_all add: os_path_join_def py_simps)
  have rep0: "report_ok (w\<lparr>w_cwd := ''/home/user/Documents''\<rparr>) p = report_ok w p" for p
    by (simp add: report_ok_def is_regular_def file_text_def is_dir_def)
  have win: "window_ok ff"
    by (simp add: window_ok_def timestamp_ok_def ff_def ymd2ord_def days_before_year_def
        days_before_month_def days_before_month_tab_def is_leap_def)
  obtain n w' where "find_files_tree scandir ff w =
        Some (Inr (ff\<lparr>ff_root := Some ''/home/user/Documents'', ff_output_info_to := Some ''/home/user/Notes''\<rparr>), w')"
      and "w_stdout w' = w_stdout w @ [''Files founded: '' @ nat_str n, ''Output info to: /home/user/Notes folder'']"
    using find_files_tree_completes [OF fin sound res _ _ _ _ _ win, of "{''.txt'', ''.md''}"] rep lp tp now
    by (auto simp: j rep0 ff_def)
  then show ?thesis using init by auto
qed

lemma docstring_example_completes_witness:
  "finite (dom (w_fs doc_world)) \<and> (\<forall>v. scan_sound v (vocab_scan doc_names v)) \<and>
   is_dir doc_world ''/home/user/Documents'' \<and>
   report_ok doc_world ''/home/user/Notes/founded_table.txt'' \<and>
   report_ok doc_world ''/home/user/Notes/founded_list_sorted.txt'' \<and>
   report_ok doc_world ''/home/user/Notes/founded_table_sorted.txt'' \<and> now_ok (w_clock doc_world) \<and>
   (\<exists>ff n w'. docstring_example (vocab_scan doc_names) doc_world = Some (Inr ff, w') \<and>
              w_stdout w' = [''Files founded: '' @ nat_str n, ''Output info to: /home/user/Notes folder''])"
proof -
  have h: "finite (dom (w_fs doc_world))" "\<forall>v. scan_sound v (vocab_scan doc_names v)"
    "is_dir doc_world ''/home/user/Documents''"
    "report_ok doc_world ''/home/user/Notes/founded_table.txt''"
    "report_ok doc_world ''/home/user/Notes/founded_list_sorted.txt''"
    "report_ok doc_world ''/home/user/Notes/founded_table_sorted.txt''" "now_ok (w_clock doc_world)"
    by (simp_all add: doc_world_def doc_names_def ex_inode_def vocab_scan_sound is_dir_def report_ok_def
        os_path_dirname_def py_simps now_ok_def)
  have "w_stdout doc_world = []" by (simp add: doc_world_def)
  then show ?thesis using h docstring_example_completes [OF h] by simp
qed

end
