(* ===== verification/Spec2Isabelle.thy ===== *)
theory Spec2Isabelle
  imports Program
begin

text \<open>
  Verification development of files-finder-by-date, the single module
  \<open>src/files_finder_by_date.py\<close>: the class \<open>FilesFinderByDate\<close>, which walks a
  directory tree and reports, into \<open>founded_table.txt\<close> (and, when sorting is on,
  \<open>founded_list_sorted.txt\<close> and \<open>founded_table_sorted.txt\<close>), every file one of
  whose three timestamps lies strictly inside a date window.

  \<^bold>\<open>The program's parts and how they interact.\<close>
  \<open>__init__\<close> turns the caller's strings into the finder's attributes (root, output
  folder, the two bounds as \<open>datetime\<close>s, the sort flag and the normalised extension
  set); \<open>find_files\<close> resolves the two folders, writes a run header, calls
  \<open>_walker\<close>, which appends one report line per matching file and returns the count
  and, when sorting, the matching tuples; \<open>find_files\<close> then writes two more headers
  and hands the tuples to \<open>_sorter\<close>, which sorts them and appends the two sorted
  reports; finally it prints the count and the folder.

  \<^bold>\<open>Theories and definition groups.\<close>
  \<^item> \<open>FF_Prelude\<close>: the model's types (\<open>timestamp\<close> = int microseconds, \<open>path\<close> =
    string), the Python exceptions as the datatype \<open>py_error\<close>, and the string
    built-ins the code calls (\<open>py_lower\<close>, \<open>py_startswith\<close>, \<open>py_rfind\<close>,
    \<open>py_join\<close>, \<open>py_drop_last\<close> for \<open>s[:-k]\<close>, \<open>nat_str\<close> for \<open>str(int)\<close>), with the
    collection \<open>py_simps\<close> that evaluates them.
  \<^item> \<open>Dates\<close>: the proleptic Gregorian calendar of CPython's pure-Python
    \<open>datetime\<close> (\<open>ymd2ord\<close>/\<open>ord2ymd\<close>), the record \<open>datetime\<close>, \<open>timestamp()\<close>
    and \<open>fromtimestamp\<close>/\<open>now()\<close> (\<open>dt_timestamp\<close>, \<open>dt_of_timestamp\<close>),
    \<open>replace\<close>, \<open>- timedelta(days)\<close>, \<open>str(datetime)\<close> and \<open>time.ctime\<close>, the
    errors of years outside 1..9999 (\<open>dt_now\<close>: the \<open>ValueError\<close> of \<open>now()\<close>;
    \<open>dt_sub_days\<close>: the \<open>OverflowError\<close> of the subtraction; \<open>dt_timestamp_py\<close>:
    the \<open>ValueError\<close> of a naive \<open>timestamp()\<close>, whose local-time search also
    converts the day before, so that 0001-01-01 fails), and
    \<open>datetime.strptime\<close> for the directives \<open>%Y %m %d %H %M %S\<close> as CPython's
    \<open>_strptime\<close> compiles them to a regular expression (\<open>compile_fmt\<close>,
    \<open>match_items\<close>, a list of successes whose head is the \<open>re.match\<close> result) and then
    checks the fields (\<open>build_datetime\<close>); every \<open>ValueError\<close> is an \<open>Inl\<close> value.
  \<^item> \<open>Calendar\<close>: proofs about CPython's calendar code: \<open>_ord2ymd\<close>, with its
    400/100/4/1-year cycle decomposition and its month guess \<open>(n + 50) >> 5\<close>
    (\<open>month_of_day\<close>), yields a valid date whose ordinal is the one it started
    from (\<open>ord2ymd_sound\<close>); hence \<open>fromtimestamp(t)\<close> is day
    \<open>t div 86400000000\<close> after the epoch (\<open>dt_of_timestamp_ord\<close>) and the day
    arithmetic of \<open>now() - timedelta(days=7)\<close> moves a timestamp by whole days;
    years 1 to 9999 are the ordinals 1 to 3652059 (\<open>ymd2ord_year_range\<close>,
    \<open>ymd2ord_range\<close>), so \<open>now()\<close> returns exactly on the clocks \<open>now_ok\<close>
    names (\<open>dt_now_eq\<close>).
  \<^item> \<open>World\<close>: the process's environment as the record \<open>world\<close> (a map from
    absolute paths to inodes with kind, text and the three timestamps; the clock;
    the working directory; the lines printed), the exception-and-state monad
    \<open>'a io\<close> (\<open>io_return\<close>, \<open>io_raise\<close>, \<open>io_bind\<close>: an exception keeps the world
    as it was when raised), \<open>posixpath\<close> (\<open>os_path_join\<close>, \<open>os_path_splitext\<close>,
    \<open>os_path_normpath\<close>, \<open>os_path_abspath\<close>), the stat reads, \<open>open(p, 'a')\<close>
    and \<open>open(p, 'w')\<close> with their \<open>FileNotFoundError\<close>/\<open>IsADirectoryError\<close>
    cases, \<open>print\<close>, \<open>os.chdir\<close> and \<open>os.getcwd\<close>. The predicate \<open>io_grows\<close>
    says an action only appends to existing regular files; its lemmas compose it
    through \<open>io_bind\<close>.
  \<^item> \<open>Config\<close>: \<open>FilesFinderByDate.__init__\<close> as \<open>init_finder\<close>, returning the
    record \<open>finder\<close> or the error of \<open>strptime\<close>, \<open>now()\<close> or the default
    start \<open>default_start\<close> (lines 97-99); \<open>ff_extensions = None\<close> records that
    the attribute \<open>_extensions\<close> was never assigned (the code assigns it only when
    \<open>extensions\<close> is truthy), \<open>norm_ext\<close> is the set comprehension's element.
  \<^item> \<open>Walker\<close>: \<open>_walker\<close> as \<open>walker\<close>, built from the loop body \<open>walk_path\<close>
    (existence re-check, the three stat reads, the attribute read of
    \<open>_extensions\<close>, the extension filter, the open-interval test \<open>date_match\<close>,
    the append of \<open>table_line\<close> and the update of the record \<open>wstate\<close> holding
    \<open>files_founded\<close> and \<open>files_list\<close>) and the two loops \<open>walk_files\<close>,
    \<open>walk_dirs\<close>, after \<open>walker_window\<close> (lines 113-114), the two
    \<open>timestamp()\<close> calls, which raise unless \<open>window_ok\<close> holds. The
    specification side is \<open>reported\<close>: the filter of the listed paths by
    \<open>walk_hit\<close> mapped to their tuples.
  \<^item> \<open>Sorter\<close>: \<open>_sorter\<close> as \<open>sorter\<close>, with \<open>sort_key_of\<close> for
    \<open>itemgetter(2, 1, 3, 0)\<close>, \<open>sort_files\<close> for \<open>list.sort\<close>, and the two
    renderings \<open>list_entry\<close> and \<open>sorted_table_entry\<close>.
  \<^item> \<open>FindFiles\<close>: \<open>find_files\<close> as \<open>resolve_paths\<close> (lines 168-175: abspath of
    the output before the chdir, getcwd after it) followed by \<open>report_run\<close> (lines
    177-213: \<open>now()\<close> as \<open>io_now\<close>, \<open>starting_text\<close>, \<open>write_header\<close>, the
    walk, \<open>sort_phase\<close> and the two prints); it returns the finder with the two
    reassigned attributes. Here the listing the walk yields is an argument.
  \<^item> \<open>OsWalk\<close>: CPython's \<open>os.walk\<close> (top-down, no \<open>onerror\<close>) as the
    \<open>partial_function (option)\<close> \<open>os_walk_stack\<close> over a stack of directories,
    with the system's \<open>scandir\<close> answer as the argument \<open>scan\<close> (\<open>None\<close> for an
    \<open>OSError\<close>, which the walk skips); \<open>walker_tree\<close> is \<open>_walker\<close> with its own
    call \<open>os.walk(self._root)\<close>. The specification side is the inductive
    reachability \<open>walk_reach\<close> and the set \<open>walk_spec\<close> of the triples a walk should
    yield.
  \<^item> \<open>Program\<close>: the whole run \<open>find_files_tree\<close> (lines 167-213), whose
    \<open>report_run_tree\<close> calls \<open>walker_tree\<close> on the world after the header write, in
    the option-of-io type \<open>'a oio\<close> (\<open>None\<close>: a run that does not end); the
    system's \<open>scandir\<close> is a function of the world. \<open>docstring_example\<close> is the
    usage example of the class docstring (lines 72-81): the constructor, then
    \<open>find_files()\<close>.

  The runs that succeed need the clock and the bounds in range: \<open>now_ok\<close> (the clock
  reads a date of years 1..9999) and \<open>window_ok\<close> (neither bound is on 0001-01-01).
  Every lemma that concludes a successful run or walk carries them as hypotheses;
  every finder the constructor builds from a clock in range satisfies the first, and
  every one but those with a bound on the calendar's first day the second.

  \<^bold>\<open>What the lemmas show.\<close>
  The walker computes exactly \<open>reported\<close> and appends exactly its lines
  (\<open>walker_correct\<close>), keeps its count equal to the kept tuples
  (\<open>walker_count_invariant\<close>), raises \<open>AttributeError\<close> when no extensions were
  given (\<open>walker_attribute_error\<close>), and its body skips files on a window bound, files
  outside the extension filter, and filter entries with an inner dot
  (\<open>file_ext_inner_dot\<close>); with the default output folder the report may list itself
  (\<open>walk_path_reports_own_output\<close>). The sort orders by (ctime, mtime, atime, path),
  and every ordered permutation equals it, so Timsort's output is determined
  (\<open>sort_files_unique\<close>); the sorted table swaps the mtime and ctime columns
  (\<open>table_rows_columns\<close>). Every run on a
  listing only appends (\<open>find_files_append_only\<close>); the sorted list's header drops
  exactly the legend (\<open>list_header_drops_legend\<close>); runs with a given output folder
  write the headers and exactly the reported lines, sorted or not
  (\<open>find_files_primary_report\<close>, \<open>find_files_sorted_reports\<close>), raise before any
  report line without a filter, print a count of zero when nothing matches, resolve a
  relative output folder against the starting directory, and raise
  \<open>FileNotFoundError\<close> for a missing root with the world unchanged. The constructor
  normalises extensions canonically, pads date-only bounds to the whole day, the
  default end date included, reports \<open>strptime\<close>'s \<open>ValueError\<close>, and takes back the
  bounds the header prints when they have no microseconds
  (\<open>init_header_dates_roundtrip\<close>, resting on \<open>strptime_dt_str\<close>, the parse/print
  round trip of \<open>Dates\<close>); with neither date given it raises \<open>ValueError\<close> on a
  clock outside years 1..9999, \<open>OverflowError\<close> on a clock in the first week of
  year 1, and nothing else (\<open>init_finder_clock_range\<close>).
  The datetime errors reach the run: a start date of 0001-01-01 passes the constructor
  and then makes \<open>_walker\<close> raise after the header is written
  (\<open>find_files_first_day_raises\<close>), and a clock outside years 1..9999 stops every
  run before any file changes (\<open>find_files_clock_out_of_range\<close>). A sorted report
  that cannot be opened stops the run after the walk with the primary report complete
  and no summary (\<open>find_files_sorted_report_error\<close>), and two runs in sequence leave
  the first run's report text intact, followed by the second run's header and lines
  (\<open>find_files_rerun_appends\<close>). These proofs share \<open>header_and_walk\<close> (the
  header write followed by the walk) and \<open>find_files_walker_raises\<close>.
  The walk of the tree ends on every finite file system whatever \<open>scandir\<close> answers
  and yields exactly the triples of \<open>walk_spec\<close> (\<open>os_walk_spec\<close>: termination,
  soundness and completeness), silently skips an unreadable root
  (\<open>walker_tree_unreadable_root\<close>), and yields every directory and every path once
  (\<open>os_walk_distinct\<close>, through the stack invariant \<open>walk_stack_ok\<close>: distinct
  entries whose subtrees do not meet), so no file is reported twice
  (\<open>walker_tree_reports_once\<close>). Across components, the walker over the tree reports
  exactly the matching non-directory entries of the reachable readable directories
  (\<open>walker_over_os_walk\<close>); once the header is written, the whole program is the run
  on the listing \<open>os.walk\<close> yields in the world after that write, a listing that names
  every path once (\<open>find_files_whole_run\<close>), so every property of \<open>find_files\<close>
  on a listing holds of it; a well-configured run always
  ends successfully and prints its summary last, even when it lists its own report
  (\<open>find_files_whole_run_completes\<close>, resting on \<open>walker_ok\<close>: the walker never
  raises once the filter is set, the bounds have timestamps and the report file is
  regular, and on \<open>find_files_tree_completes\<close>), and so does the docstring's usage
  example (\<open>docstring_example_completes\<close>). The window
  \<open>_walker\<close> compares with is, by default, midnight seven days before the clock's day
  to 23:59:59 of that day (\<open>default_window_timestamps\<close>).

  \<^bold>\<open>Modelling choices, bounds and termination.\<close>
  Timestamps are exact integers of microseconds, where the code uses floats; local
  time is UTC (no time zone or DST); \<open>str.lower\<close> is modelled on ASCII letters, the
  characters of the extensions and paths the properties are about. The order of the
  entries \<open>scandir\<close> returns is the operating system's choice and is left open (the
  argument \<open>scan\<close>, required only to be \<open>scan_sound\<close>: distinct existing names
  without a slash); files may vanish between the listing and the stat reads (the
  existence re-check). The loops over lists are structural \<open>fun\<close>s. The walk needs no
  fuel: \<open>os_walk_stack\<close> is a \<open>partial_function (option)\<close>, and its termination on
  a finite file system is proved with the multiset of the remaining depths
  (\<open>Suc L - length p\<close> for the longest path length \<open>L\<close>) as measure, which a step
  decreases because a subdirectory's path is strictly longer than its parent's
  (\<open>os_walk_stack_induct\<close>).

  \<^bold>\<open>Not modelled.\<close>
  Symbolic links (the \<open>islink\<close> pruning of \<open>os.walk\<close>, and link resolution in
  \<open>exists\<close>, the stat reads and \<open>open\<close>): the world has no link kind, and the code
  never distinguishes links itself. Permission and disk-full errors on writes: the
  world records no owners, modes or free space, and the code handles neither (they
  would propagate like the \<open>IsADirectoryError\<close> of \<open>find_files_sorted_report_error\<close>).
  The float arithmetic and printing of \<open>timestamp()\<close> (timestamps are exact
  microseconds); the range errors of \<open>time.ctime\<close>, which only timestamps far beyond
  any file system's reach raise; the prose of the class docstring; and any
  command-line front end (the repository has none).
\<close>

section \<open>Properties across components\<close>

text \<open>
  C18. The traversal over the tree: \<open>_walker\<close>, with its own \<open>os.walk(self._root)\<close>,
  ends and returns as count the number of reported files, and the paths it reports
  are exactly the non-directory entries of the directories reached from the root
  through readable subdirectories that exist, pass the extension filter and have a
  timestamp strictly inside the window.
\<close>

theorem walker_over_os_walk:
  assumes fin: "finite (dom (w_fs w))" and sound: "scan_sound w scan"
    and root: "ff_root ff = Some r" and walk: "os_walk scan w r = Some l"
    and ext: "ff_extensions ff = Some exts" and reg: "is_regular w rf"
    and notlisted: "rf \<notin> set (listed_paths l)" and win: "window_ok ff"
  shows "walker_tree scan ff rf w = Some (walker ff rf l w) \<and>
         fst (walker ff rf l w) =
           Inr (length (reported ff w l), if ff_sort_info ff then Some (reported ff w l) else None) \<and>
         set (map fst (reported ff w l)) =
           {fp. (\<exists>p names n. walk_reach scan w r p \<and> scan p = Some names \<and>
                            n \<in> set (walk_nondirs_of w p names) \<and> fp = os_path_join p n) \<and>
                walk_hit ff (window_lo ff) (window_hi ff) w fp}"
proof -
  have spec: "set l = walk_spec scan w [r]"
    using os_walk_spec [OF fin sound, of r] walk by auto
  have run: "walker ff rf l w =
      (Inr (length (reported ff w l), if ff_sort_info ff then Some (reported ff w l) else None),
       snd (open_append_write rf (concat (map table_line (reported ff w l))) w))"
    by (rule walker_run [OF ext reg notlisted win])
  have "set (map fst (reported ff w l)) =
          {fp. (\<exists>p names n. walk_reach scan w r p \<and> scan p = Some names \<and>
                          n \<in> set (walk_nondirs_of w p names) \<and> fp = os_path_join p n) \<and>
               walk_hit ff (window_lo ff) (window_hi ff) w fp}"
    by (auto simp: map_fst_reported os_walk_listed_paths [OF spec])
  then show ?thesis
    using run walk root by (simp add: walker_tree_def del: table_line.simps)
qed

lemma walker_over_os_walk_witness:
  "finite (dom (w_fs ex_root_world)) \<and> scan_sound ex_root_world ex_scan \<and>
   ff_root (ex_finder\<lparr>ff_root := Some ''/''\<rparr>) = Some ''/'' \<and>
   os_walk ex_scan ex_root_world ''/'' =
     Some [(''/'', [''d'', ''out''], []), (''/d'', [], [''a.md'', ''b.txt'', ''c.md''])] \<and>
   ff_extensions (ex_finder\<lparr>ff_root := Some ''/''\<rparr>) = Some {''.md''} \<and>
   is_regular ex_root_world ''/out/founded_table.txt'' \<and>
   ''/out/founded_table.txt'' \<notin>
     set (listed_paths [(''/'', [''d'', ''out''], []), (''/d'', [], [''a.md'', ''b.txt'', ''c.md''])]) \<and>
   window_ok (ex_finder\<lparr>ff_root := Some ''/''\<rparr>) \<and>
   walker_tree ex_scan (ex_finder\<lparr>ff_root := Some ''/''\<rparr>) ''/out/founded_table.txt'' ex_root_world =
     Some (walker (ex_finder\<lparr>ff_root := Some ''/''\<rparr>) ''/out/founded_table.txt''
             [(''/'', [''d'', ''out''], []), (''/d'', [], [''a.md'', ''b.txt'', ''c.md''])] ex_root_world)"
proof -
  have h: "ff_root (ex_finder\<lparr>ff_root := Some ''/''\<rparr>) = Some ''/''"
    "os_walk ex_scan ex_root_world ''/'' =
       Some [(''/'', [''d'', ''out''], []), (''/d'', [], [''a.md'', ''b.txt'', ''c.md''])]"
    "ff_extensions (ex_finder\<lparr>ff_root := Some ''/''\<rparr>) = Some {''.md''}"
    "is_regular ex_root_world ''/out/founded_table.txt''"
    "''/out/founded_table.txt'' \<notin>
       set (listed_paths [(''/'', [''d'', ''out''], []), (''/d'', [], [''a.md'', ''b.txt'', ''c.md''])])"
    by (simp_all add: os_walk_def ex_scan_def walk_dirs_of_def walk_nondirs_of_def is_dir_def
        os_path_join_def ex_root_world_def ex_world_def ex_inode_def ex_finder_def is_regular_def
        file_text_def listed_paths_def)
  show ?thesis
    using ex_scan_facts h ex_finder_window_ok walker_over_os_walk [OF ex_scan_facts h] by simp
qed

end
